(* ===== verification/Prelude.thy ===== *)
theory Prelude
  imports
    Main
    "HOL-Library.Word"
    "HOL-Library.List_Lexorder"
    "HOL-Library.Sublist"
    "HOL-Library.Multiset"
begin

text \<open>
  Shared vocabulary of the development: the pieces of Rust's core library that the domain
  crate uses, as executable HOL functions, with the lemmas the component theories share.

  \<^item> \<^emph>\<open>Text.\<close> A Rust \<open>str\<close> is a list of Unicode code points (\<open>ustr\<close>); \<open>lit\<close> embeds an ASCII
    literal. \<open>chars().count()\<close> is \<open>length\<close>, \<open>len()\<close> is \<open>byte_len\<close> (the UTF-8 length).
  \<^item> \<^emph>\<open>Machine integers.\<close> \<open>u16\<close>, \<open>u32\<close>, \<open>u64\<close> are words; \<open>saturating_add\<close> and
    \<open>saturating_sub\<close> are the operations of that name.
  \<^item> \<^emph>\<open>Errors.\<close> A \<open>Result<T, E>\<close> is \<open>'e + 'a\<close> with \<open>Inl\<close> the error; \<open>and_then\<close> is the
    \<open>?\<close> operator.
  \<^item> \<^emph>\<open>Ordered containers.\<close> A \<open>BTreeSet\<close> is the strictly sorted list of its members and a
    \<open>BTreeMap\<close> an association list strictly sorted by key.
  \<^item> \<^emph>\<open>Time.\<close> A \<open>Timestamp\<close> and an \<open>Elapsed\<close> are nanosecond counts in \<open>int\<close>.
\<close>

named_theorems str_defs \<open>definitions of the text operations, to unfold on concrete text\<close>
named_theorems unat_simps \<open>reading a saturating or bounded word operation as naturals\<close>

section \<open>Types\<close>

type_synonym uchar = nat
type_synonym ustr = "uchar list"
type_synonym u8 = "8 word"
type_synonym u16 = "16 word"
type_synonym u32 = "32 word"
type_synonym u64 = "64 word"
type_synonym uuid = "128 word"
type_synonym timestamp = int
type_synonym elapsed = int

section \<open>Characters and text\<close>

definition lit :: "string \<Rightarrow> ustr" where
  "lit s = map of_char s"

definition ch :: "char \<Rightarrow> uchar" where
  "ch c = of_char c"

text \<open>\<open>char::is_whitespace\<close>: the Unicode \<open>White_Space\<close> property.\<close>

definition is_whitespace :: "uchar \<Rightarrow> bool" where
  "is_whitespace c \<longleftrightarrow>
     (9 \<le> c \<and> c \<le> 13) \<or> c = 32 \<or> c = 133 \<or> c = 160 \<or> c = 5760
     \<or> (8192 \<le> c \<and> c \<le> 8202) \<or> c = 8232 \<or> c = 8233 \<or> c = 8239 \<or> c = 8287 \<or> c = 12288"

text \<open>\<open>char::is_control\<close>: the general category Cc.\<close>

definition is_control :: "uchar \<Rightarrow> bool" where
  "is_control c \<longleftrightarrow> c < 32 \<or> (127 \<le> c \<and> c < 160)"

definition is_ascii_digit :: "uchar \<Rightarrow> bool" where
  "is_ascii_digit c \<longleftrightarrow> 48 \<le> c \<and> c \<le> 57"

definition is_ascii_uppercase :: "uchar \<Rightarrow> bool" where
  "is_ascii_uppercase c \<longleftrightarrow> 65 \<le> c \<and> c \<le> 90"

definition is_ascii_lowercase :: "uchar \<Rightarrow> bool" where
  "is_ascii_lowercase c \<longleftrightarrow> 97 \<le> c \<and> c \<le> 122"

definition is_ascii_alphabetic :: "uchar \<Rightarrow> bool" where
  "is_ascii_alphabetic c \<longleftrightarrow> is_ascii_uppercase c \<or> is_ascii_lowercase c"

definition is_ascii_alphanumeric :: "uchar \<Rightarrow> bool" where
  "is_ascii_alphanumeric c \<longleftrightarrow> is_ascii_alphabetic c \<or> is_ascii_digit c"

definition is_ascii_hexdigit :: "uchar \<Rightarrow> bool" where
  "is_ascii_hexdigit c \<longleftrightarrow> is_ascii_digit c \<or> (65 \<le> c \<and> c \<le> 70) \<or> (97 \<le> c \<and> c \<le> 102)"

definition to_ascii_lower :: "uchar \<Rightarrow> uchar" where
  "to_ascii_lower c = (if is_ascii_uppercase c then c + 32 else c)"

definition to_ascii_upper :: "uchar \<Rightarrow> uchar" where
  "to_ascii_upper c = (if is_ascii_lowercase c then c - 32 else c)"

lemmas ascii_defs = is_ascii_digit_def is_ascii_uppercase_def is_ascii_lowercase_def
  is_ascii_alphabetic_def is_ascii_alphanumeric_def is_ascii_hexdigit_def
  to_ascii_lower_def to_ascii_upper_def is_whitespace_def is_control_def ch_def

definition to_ascii_lowercase :: "ustr \<Rightarrow> ustr" where
  "to_ascii_lowercase s = map to_ascii_lower s"

definition eq_ignore_ascii_case :: "ustr \<Rightarrow> ustr \<Rightarrow> bool" where
  "eq_ignore_ascii_case a b \<longleftrightarrow> to_ascii_lowercase a = to_ascii_lowercase b"

definition utf8_len :: "uchar \<Rightarrow> nat" where
  "utf8_len c = (if c < 128 then 1 else if c < 2048 then 2 else if c < 65536 then 3 else 4)"

definition byte_len :: "ustr \<Rightarrow> nat" where
  "byte_len s = sum_list (map utf8_len s)"

definition trim_start :: "ustr \<Rightarrow> ustr" where
  "trim_start s = dropWhile is_whitespace s"

definition trim_end_matches :: "(uchar \<Rightarrow> bool) \<Rightarrow> ustr \<Rightarrow> ustr" where
  "trim_end_matches p s = rev (dropWhile p (rev s))"

definition trim :: "ustr \<Rightarrow> ustr" where
  "trim s = trim_end_matches is_whitespace (trim_start s)"

definition starts_with :: "ustr \<Rightarrow> ustr \<Rightarrow> bool" where
  "starts_with s p \<longleftrightarrow> take (length p) s = p"

definition ends_with :: "ustr \<Rightarrow> ustr \<Rightarrow> bool" where
  "ends_with s p \<longleftrightarrow> length p \<le> length s \<and> drop (length s - length p) s = p"

definition strip_prefix :: "ustr \<Rightarrow> ustr \<Rightarrow> ustr option" where
  "strip_prefix s p = (if starts_with s p then Some (drop (length p) s) else None)"

fun str_contains :: "ustr \<Rightarrow> ustr \<Rightarrow> bool" where
  "str_contains [] p = (p = [])"
| "str_contains (c # s) p = (starts_with (c # s) p \<or> str_contains s p)"

fun split_on :: "(uchar \<Rightarrow> bool) \<Rightarrow> ustr \<Rightarrow> ustr list" where
  "split_on sep [] = [[]]"
| "split_on sep (c # s) =
     (if sep c then [] # split_on sep s
      else case split_on sep s of [] \<Rightarrow> [[c]] | w # ws \<Rightarrow> (c # w) # ws)"

text \<open>\<open>str::split_once\<close> on one character: the first occurrence.\<close>

fun split_once :: "uchar \<Rightarrow> ustr \<Rightarrow> (ustr \<times> ustr) option" where
  "split_once d [] = None"
| "split_once d (c # s) =
     (if c = d then Some ([], s)
      else map_option (\<lambda>(a, b). (c # a, b)) (split_once d s))"

text \<open>\<open>str::rsplit_once\<close> on a (non-empty) pattern: the last occurrence.\<close>

fun rsplit_once :: "ustr \<Rightarrow> ustr \<Rightarrow> (ustr \<times> ustr) option" where
  "rsplit_once p [] = (if p = [] then Some ([], []) else None)"
| "rsplit_once p (c # s) =
     (case rsplit_once p s of
        Some (a, b) \<Rightarrow> Some (c # a, b)
      | None \<Rightarrow> (if starts_with (c # s) p then Some ([], drop (length p) (c # s)) else None))"

fun str_join :: "ustr \<Rightarrow> ustr list \<Rightarrow> ustr" where
  "str_join sep [] = []"
| "str_join sep [w] = w"
| "str_join sep (w # v # ws) = w @ sep @ str_join sep (v # ws)"

definition count_char :: "uchar \<Rightarrow> ustr \<Rightarrow> nat" where
  "count_char d s = length (filter (\<lambda>c. c = d) s)"

lemmas [str_defs] = ascii_defs to_ascii_lowercase_def eq_ignore_ascii_case_def utf8_len_def
  byte_len_def trim_start_def trim_end_matches_def trim_def starts_with_def ends_with_def
  strip_prefix_def count_char_def

lemma lit_simps [simp]: "lit [] = []" "lit (c # s) = of_char c # lit s"
  by (simp_all add: lit_def)

lemma length_lit [simp]: "length (lit s) = length s"
  by (simp add: lit_def)

lemma to_ascii_lower_idem [simp]: "to_ascii_lower (to_ascii_lower c) = to_ascii_lower c"
  by (simp add: ascii_defs)

lemma to_ascii_lowercase_idem [simp]:
  "to_ascii_lowercase (to_ascii_lowercase s) = to_ascii_lowercase s"
  by (simp add: to_ascii_lowercase_def)

lemma length_to_ascii_lowercase [simp]: "length (to_ascii_lowercase s) = length s"
  by (simp add: to_ascii_lowercase_def)

lemma to_ascii_lowercase_append [simp]:
  "to_ascii_lowercase (a @ b) = to_ascii_lowercase a @ to_ascii_lowercase b"
  by (simp add: to_ascii_lowercase_def)

lemma to_ascii_lowercase_Nil [simp]:
  "to_ascii_lowercase [] = []" "(to_ascii_lowercase s = []) = (s = [])"
  by (simp_all add: to_ascii_lowercase_def)

lemma lower_keeps_class [simp]:
  "is_ascii_alphanumeric (to_ascii_lower c) = is_ascii_alphanumeric c"
  "is_whitespace (to_ascii_lower c) = is_whitespace c"
  "is_control (to_ascii_lower c) = is_control c"
  "utf8_len (to_ascii_lower c) = utf8_len c"
  by (auto simp: ascii_defs utf8_len_def)

lemma to_ascii_lower_eq_non_letter:
  "\<not> is_ascii_alphabetic d \<Longrightarrow> (to_ascii_lower c = d) = (c = d)"
  by (auto simp: ascii_defs)

lemma byte_len_lowercase [simp]: "byte_len (to_ascii_lowercase s) = byte_len s"
  by (simp add: byte_len_def to_ascii_lowercase_def comp_def)

lemma byte_len_append [simp]: "byte_len (a @ b) = byte_len a + byte_len b"
  by (simp add: byte_len_def)

lemma length_le_byte_len: "length s \<le> byte_len s"
  by (induction s) (auto simp: byte_len_def utf8_len_def)

lemma eq_ignore_ascii_case_equivp:
  "eq_ignore_ascii_case a a"
  "eq_ignore_ascii_case a b = eq_ignore_ascii_case b a"
  "eq_ignore_ascii_case a b \<Longrightarrow> eq_ignore_ascii_case b c \<Longrightarrow> eq_ignore_ascii_case a c"
  by (auto simp: eq_ignore_ascii_case_def)

subsection \<open>Trimming\<close>

lemma dropWhile_id: "(s \<noteq> [] \<Longrightarrow> \<not> p (hd s)) \<Longrightarrow> dropWhile p s = s"
  by (cases s) auto

lemma trim_eq_self:
  "(s \<noteq> [] \<Longrightarrow> \<not> is_whitespace (hd s) \<and> \<not> is_whitespace (last s)) \<Longrightarrow> trim s = s"
  by (cases "s = []") (simp_all add: trim_def trim_start_def trim_end_matches_def dropWhile_id hd_rev)

lemma trim_no_whitespace: "(\<And>c. c \<in> set s \<Longrightarrow> \<not> is_whitespace c) \<Longrightarrow> trim s = s"
  by (rule trim_eq_self) auto

lemma hd_trim_start: "trim_start s \<noteq> [] \<Longrightarrow> \<not> is_whitespace (hd (trim_start s))"
  by (simp add: trim_start_def hd_dropWhile)

lemma trim_end_hd:
  assumes "s \<noteq> []" "\<not> p (hd s)"
  shows "trim_end_matches p s \<noteq> []" and "hd (trim_end_matches p s) = hd s"
proof -
  obtain c t where s: "s = c # t" using assms(1) by (cases s) auto
  have *: "trim_end_matches p s = c # trim_end_matches p t"
    using assms(2) by (simp add: s trim_end_matches_def dropWhile_append3 dropWhile_append)
  show "trim_end_matches p s \<noteq> []" "hd (trim_end_matches p s) = hd s"
    using * s by simp_all
qed

lemma trim_ends:
  assumes "trim s \<noteq> []"
  shows "\<not> is_whitespace (hd (trim s))" and "\<not> is_whitespace (last (trim s))"
proof -
  have ne: "trim_start s \<noteq> []"
    using assms by (auto simp: trim_def trim_end_matches_def)
  show "\<not> is_whitespace (hd (trim s))"
    using trim_end_hd(2) [of "trim_start s" is_whitespace] ne hd_trim_start [OF ne]
    by (simp add: trim_def)
  show "\<not> is_whitespace (last (trim s))"
    using assms unfolding trim_def trim_end_matches_def
    by (metis (no_types, lifting) hd_dropWhile last_rev rev.simps(1))
qed

lemma trim_idem [simp]: "trim (trim s) = trim s"
  using trim_ends by (intro trim_eq_self) auto

lemma set_trim: "set (trim s) \<subseteq> set s"
  unfolding trim_def trim_end_matches_def trim_start_def
  by (metis (no_types, lifting) set_dropWhileD set_rev subsetI)

lemma trim_lowercase: "trim (to_ascii_lowercase s) = to_ascii_lowercase (trim s)"
  by (simp add: trim_def trim_start_def trim_end_matches_def to_ascii_lowercase_def
      dropWhile_map rev_map comp_def)

section \<open>Machine integers\<close>

definition saturating_add :: "'a::len word \<Rightarrow> 'a word \<Rightarrow> 'a word" where
  "saturating_add a b = (if unat a + unat b < 2 ^ LENGTH('a) then a + b else - 1)"

definition saturating_sub :: "'a::len word \<Rightarrow> 'a word \<Rightarrow> 'a word" where
  "saturating_sub a b = (if b \<le> a then a - b else 0)"

definition saturating_mul :: "'a::len word \<Rightarrow> 'a word \<Rightarrow> 'a word" where
  "saturating_mul a b = (if unat a * unat b < 2 ^ LENGTH('a) then a * b else - 1)"

text \<open>\<open>uN::try_from(n).unwrap_or(uN::MAX)\<close> for an unbounded count \<open>n\<close>.\<close>

definition saturating_of_nat :: "nat \<Rightarrow> 'a::len word" where
  "saturating_of_nat n = (if n < 2 ^ LENGTH('a) then of_nat n else - 1)"

lemma unat_minus_1_max: "unat (- 1 :: 'a::len word) = 2 ^ LENGTH('a) - 1"
  by (simp add: unsigned_minus_1_eq_mask mask_eq_exp_minus_1)

lemma unat_saturating_add [unat_simps]:
  "unat (saturating_add a b) = min (unat a + unat b) (2 ^ LENGTH('a) - 1)" for a b :: "'a::len word"
  by (auto simp: saturating_add_def unat_word_ariths unat_minus_1_max)

lemma unat_saturating_sub [unat_simps]: "unat (saturating_sub a b) = unat a - unat b"
  by (auto simp: saturating_sub_def unat_sub word_le_nat_alt)

lemma unat_saturating_mul [unat_simps]:
  "unat (saturating_mul a b) = min (unat a * unat b) (2 ^ LENGTH('a) - 1)" for a b :: "'a::len word"
  by (auto simp: saturating_mul_def unat_word_ariths unat_minus_1_max)

lemma unat_saturating_of_nat [unat_simps]:
  "unat (saturating_of_nat n :: 'a::len word) = min n (2 ^ LENGTH('a) - 1)"
  by (auto simp: saturating_of_nat_def unat_of_nat unat_minus_1_max)

lemma unat_min [unat_simps]: "unat (min a b) = min (unat a) (unat b)"
  by (auto simp: min_def word_le_nat_alt)

lemma unat_max [unat_simps]: "unat (max a b) = max (unat a) (unat b)"
  by (auto simp: max_def word_le_nat_alt)

lemma saturating_add_0 [simp]: "saturating_add a 0 = a" "saturating_add 0 a = a"
  by (simp_all add: saturating_add_def)

lemma unat_lt_16: "unat (w :: u16) < 65536"
  using unsigned_less [of w, where ?'a = nat] by simp

lemma unat_lt_32: "unat (w :: u32) < 4294967296"
  using unsigned_less [of w, where ?'a = nat] by simp

section \<open>Results\<close>

definition and_then :: "'e + 'a \<Rightarrow> ('a \<Rightarrow> 'e + 'b) \<Rightarrow> 'e + 'b" where
  "and_then r f = (case r of Inl e \<Rightarrow> Inl e | Inr x \<Rightarrow> f x)"

definition map_err :: "('e \<Rightarrow> 'f) \<Rightarrow> 'e + 'a \<Rightarrow> 'f + 'a" where
  "map_err f r = (case r of Inl e \<Rightarrow> Inl (f e) | Inr x \<Rightarrow> Inr x)"

definition is_ok :: "'e + 'a \<Rightarrow> bool" where
  "is_ok r = (case r of Inl _ \<Rightarrow> False | Inr _ \<Rightarrow> True)"

definition result_ok :: "'e + 'a \<Rightarrow> 'a option" where
  "result_ok r = (case r of Inl _ \<Rightarrow> None | Inr x \<Rightarrow> Some x)"

text \<open>\<open>iter.map(f).collect::<Result<Vec<_>, _>>()\<close>: stops at the first error.\<close>

fun try_map :: "('a \<Rightarrow> 'e + 'b) \<Rightarrow> 'a list \<Rightarrow> 'e + 'b list" where
  "try_map f [] = Inr []"
| "try_map f (x # xs) = and_then (f x) (\<lambda>y. and_then (try_map f xs) (\<lambda>ys. Inr (y # ys)))"

lemma and_then_simps [simp]: "and_then (Inl e) f = Inl e" "and_then (Inr x) f = f x"
  by (simp_all add: and_then_def)

lemma and_then_Inr [simp]:
  "and_then r f = Inr y \<longleftrightarrow> (\<exists>x. r = Inr x \<and> f x = Inr y)"
  by (cases r) auto

lemma map_err_simps [simp]: "map_err f (Inl e) = Inl (f e)" "map_err f (Inr x) = Inr x"
  by (simp_all add: map_err_def)

lemma map_err_Inr [simp]: "map_err f r = Inr y \<longleftrightarrow> r = Inr y"
  by (cases r) auto

lemma is_ok_simps [simp]: "\<not> is_ok (Inl e)" "is_ok (Inr x)"
  by (simp_all add: is_ok_def)

lemma is_ok_iff: "is_ok r \<longleftrightarrow> (\<exists>x. r = Inr x)"
  by (cases r) auto

lemma result_ok_simps [simp]: "result_ok (Inl e) = None" "result_ok (Inr x) = Some x"
  by (simp_all add: result_ok_def)

lemma try_map_Inr: "try_map f xs = Inr ys \<longleftrightarrow> list_all2 (\<lambda>x y. f x = Inr y) xs ys"
  by (induction xs arbitrary: ys) (auto simp: list_all2_Cons1)

section \<open>Ordered containers\<close>

text \<open>A \<open>BTreeSet\<close>: the strictly increasing list of its members, which is also its iteration
  order.\<close>

type_synonym 'a btree_set = "'a list"

definition bts_wf :: "'a::linorder btree_set \<Rightarrow> bool" where
  "bts_wf s \<longleftrightarrow> sorted s \<and> distinct s"

definition bts_insert :: "'a::linorder \<Rightarrow> 'a btree_set \<Rightarrow> 'a btree_set" where
  "bts_insert x s = (if x \<in> set s then s else insort x s)"

definition bts_remove :: "'a::linorder \<Rightarrow> 'a btree_set \<Rightarrow> 'a btree_set" where
  "bts_remove x s = filter (\<lambda>y. y \<noteq> x) s"

definition bts_of_list :: "'a::linorder list \<Rightarrow> 'a btree_set" where
  "bts_of_list xs = fold bts_insert xs []"

lemma set_bts_insert [simp]: "set (bts_insert x s) = insert x (set s)"
  by (auto simp: bts_insert_def set_insort_key)

lemma set_bts_remove [simp]: "set (bts_remove x s) = set s - {x}"
  by (auto simp: bts_remove_def)

lemma bts_wf_Nil [simp]: "bts_wf []"
  by (simp add: bts_wf_def)

lemma bts_wf_insert [simp]: "bts_wf s \<Longrightarrow> bts_wf (bts_insert x s)"
  by (simp add: bts_wf_def bts_insert_def sorted_insort distinct_insort)

lemma bts_wf_remove [simp]: "bts_wf s \<Longrightarrow> bts_wf (bts_remove x s)"
  by (simp add: bts_wf_def bts_remove_def sorted_filter [of id, simplified])

lemma bts_wf_filter [simp]: "bts_wf s \<Longrightarrow> bts_wf (filter P s)"
  by (simp add: bts_wf_def sorted_filter [of id, simplified])

lemma bts_of_list_props [simp]: "set (bts_of_list xs) = set xs" "bts_wf (bts_of_list xs)"
proof -
  have "set (fold bts_insert xs acc) = set xs \<union> set acc \<and>
      (bts_wf acc \<longrightarrow> bts_wf (fold bts_insert xs acc))" for acc
    by (induction xs arbitrary: acc) auto
  from this [of "[]"] show "set (bts_of_list xs) = set xs" "bts_wf (bts_of_list xs)"
    by (simp_all add: bts_of_list_def)
qed

lemma bts_eqI: "bts_wf a \<Longrightarrow> bts_wf b \<Longrightarrow> set a = set b \<Longrightarrow> a = b"
  by (simp add: bts_wf_def sorted_distinct_set_unique)

lemma bts_of_list_id: "bts_wf s \<Longrightarrow> bts_of_list s = s"
  by (simp add: bts_eqI)

text \<open>A \<open>BTreeMap\<close>: an association list with strictly increasing keys.\<close>

type_synonym ('k, 'v) btree_map = "('k \<times> 'v) list"

definition btm_wf :: "('k::linorder, 'v) btree_map \<Rightarrow> bool" where
  "btm_wf m \<longleftrightarrow> sorted_wrt (<) (map fst m)"

fun btm_insert :: "'k::linorder \<Rightarrow> 'v \<Rightarrow> ('k, 'v) btree_map \<Rightarrow> ('k, 'v) btree_map" where
  "btm_insert k v [] = [(k, v)]"
| "btm_insert k v ((k', v') # m) =
     (if k < k' then (k, v) # (k', v') # m
      else if k = k' then (k, v) # m
      else (k', v') # btm_insert k v m)"

definition btm_remove :: "'k::linorder \<Rightarrow> ('k, 'v) btree_map \<Rightarrow> ('k, 'v) btree_map" where
  "btm_remove k m = filter (\<lambda>(k', _). k' \<noteq> k) m"

definition btm_get :: "('k, 'v) btree_map \<Rightarrow> 'k \<Rightarrow> 'v option" where
  "btm_get m k = map_of m k"

text \<open>\<open>if let Some(v) = map.get_mut(&k) { *v = f(v) }\<close>.\<close>

definition btm_modify :: "'k \<Rightarrow> ('v \<Rightarrow> 'v) \<Rightarrow> ('k, 'v) btree_map \<Rightarrow> ('k, 'v) btree_map" where
  "btm_modify k f m = map (\<lambda>(k', v). (k', if k' = k then f v else v)) m"

lemma keys_btm_insert [simp]: "fst ` set (btm_insert k v m) = insert k (fst ` set m)"
  by (induction k v m rule: btm_insert.induct) auto

lemma btm_wf_Nil [simp]: "btm_wf []"
  by (simp add: btm_wf_def)

lemma btm_wf_insert [simp]: "btm_wf m \<Longrightarrow> btm_wf (btm_insert k v m)"
proof (induction k v m rule: btm_insert.induct)
  case (2 k v k' v' m)
  then show ?case
    using keys_btm_insert [of k v m] by (fastforce simp: btm_wf_def)
qed (simp add: btm_wf_def)

lemma btm_get_insert [simp]: "btm_get (btm_insert k v m) = (btm_get m)(k \<mapsto> v)"
  by (induction k v m rule: btm_insert.induct) (auto simp: btm_get_def fun_upd_twist)

lemma btm_get_remove [simp]: "btm_get (btm_remove k m) = (btm_get m)(k := None)"
  by (induction m) (auto simp: btm_get_def btm_remove_def fun_eq_iff)

lemma btm_wf_remove [simp]: "btm_wf m \<Longrightarrow> btm_wf (btm_remove k m)"
  by (simp add: btm_wf_def btm_remove_def sorted_wrt_map sorted_wrt_filter)

lemma btm_get_modify [simp]:
  "btm_get (btm_modify k f m) = (\<lambda>k'. if k' = k then map_option f (btm_get m k) else btm_get m k')"
  by (induction m) (auto simp: btm_get_def btm_modify_def fun_eq_iff)

lemma keys_btm_modify [simp]: "map fst (btm_modify k f m) = map fst m"
  by (simp add: btm_modify_def split_def)

lemma btm_wf_modify [simp]: "btm_wf (btm_modify k f m) = btm_wf m"
  by (simp add: btm_wf_def)

end
