(* ===== verification/Contracts.thy ===== *)
theory Contracts
  imports Prelude
begin

text \<open>
  The contracts several components of the domain crate share, as locales. Each is interpreted,
  in the theory of the component that provides it, on that component's own definitions:

  \<^item> \<open>ordered_map\<close>: what the code relies on of a \<open>BTreeMap\<close> (interpreted here);
  \<^item> \<open>checked_newtype\<close>: a newtype built only through a validating constructor that normalises;
  \<^item> \<open>persisted\<close>: a value with a stored form, \<open>to_persisted\<close> and \<open>from_persisted\<close>;
  \<^item> \<open>lifecycle_machine\<close>: a state machine given by its complete list of legal transitions;
  \<^item> \<open>capped_backoff\<close>: a retry delay that doubles up to a ceiling.
\<close>

section \<open>Ordered maps\<close>

locale ordered_map =
  fixes empty_map :: "'m"
    and insert_map :: "'k \<Rightarrow> 'v \<Rightarrow> 'm \<Rightarrow> 'm"
    and remove_map :: "'k \<Rightarrow> 'm \<Rightarrow> 'm"
    and get_map :: "'m \<Rightarrow> 'k \<Rightarrow> 'v option"
    and wf_map :: "'m \<Rightarrow> bool"
  assumes get_empty: "get_map empty_map = Map.empty"
    and get_insert: "wf_map m \<Longrightarrow> get_map (insert_map k v m) = (get_map m)(k \<mapsto> v)"
    and get_remove: "wf_map m \<Longrightarrow> get_map (remove_map k m) = (get_map m)(k := None)"
    and wf_empty: "wf_map empty_map"
    and wf_insert: "wf_map m \<Longrightarrow> wf_map (insert_map k v m)"
    and wf_remove: "wf_map m \<Longrightarrow> wf_map (remove_map k m)"
begin

lemma wf_insert_all: "wf_map m \<Longrightarrow> wf_map (fold (\<lambda>(k, v). insert_map k v) kvs m)"
  by (induction kvs arbitrary: m) (auto intro: wf_insert)

lemma get_insert_all:
  "wf_map m \<Longrightarrow> get_map (fold (\<lambda>(k, v). insert_map k v) kvs m) = get_map m ++ map_of (rev kvs)"
proof (induction kvs arbitrary: m)
  case Nil
  then show ?case by simp
next
  case (Cons kv kvs)
  obtain k v where kv: "kv = (k, v)" by (cases kv)
  show ?case
    using Cons.IH [OF wf_insert [OF Cons.prems, of k v]] get_insert [OF Cons.prems, of k v]
    by (auto simp: kv map_add_def fun_eq_iff split: option.splits)
qed

end

interpretation btm: ordered_map "[]" btm_insert btm_remove btm_get btm_wf
  by unfold_locales (auto simp: btm_get_def)

section \<open>Validated newtypes\<close>

locale checked_newtype =
  fixes mk :: "'r \<Rightarrow> 'e + 'v"
    and view :: "'v \<Rightarrow> 'r"
  assumes mk_view: "mk r = Inr v \<Longrightarrow> mk (view v) = Inr v"
begin

text \<open>Two constructed values with the same text are the same value, and constructing is
  idempotent on text: what is stored is a fixed point of the constructor.\<close>

lemma view_inj: "mk r = Inr v \<Longrightarrow> mk r' = Inr v' \<Longrightarrow> view v = view v' \<Longrightarrow> v = v'"
  by (metis Inr_inject mk_view)

lemma mk_fixpoint: "mk r = Inr v \<Longrightarrow> mk (view v) = Inr v' \<Longrightarrow> v' = v"
  using mk_view by fastforce

end

section \<open>Stored values\<close>

locale persisted =
  fixes to_persisted :: "'v \<Rightarrow> 'p"
    and from_persisted :: "'p \<Rightarrow> 'e + 'v"
    and storable :: "'v \<Rightarrow> bool"
  assumes load_store: "storable v \<Longrightarrow> from_persisted (to_persisted v) = Inr v"
    and load_storable: "from_persisted p = Inr v \<Longrightarrow> storable v"
    and store_load: "from_persisted p = Inr v \<Longrightarrow> to_persisted v = p"
begin

lemma accepted_iff: "is_ok (from_persisted p) \<longleftrightarrow> (\<exists>v. storable v \<and> p = to_persisted v)"
proof
  assume "is_ok (from_persisted p)"
  then obtain v where "from_persisted p = Inr v" by (auto simp: is_ok_iff)
  then show "\<exists>v. storable v \<and> p = to_persisted v"
    using load_storable store_load by blast
next
  assume "\<exists>v. storable v \<and> p = to_persisted v"
  then show "is_ok (from_persisted p)"
    using load_store by auto
qed

lemma storable_iff: "storable v \<longleftrightarrow> from_persisted (to_persisted v) = Inr v"
  using load_store load_storable by blast

lemma store_inj: "storable v \<Longrightarrow> storable v' \<Longrightarrow> to_persisted v = to_persisted v' \<Longrightarrow> v = v'"
  by (metis Inr_inject load_store)

lemma load_inj: "from_persisted p = Inr v \<Longrightarrow> from_persisted p' = Inr v \<Longrightarrow> p = p'"
  using store_load by blast

end

section \<open>Lifecycle state machines\<close>

text \<open>\<open>edges\<close> is the complete list of legal transitions; \<open>move\<close> is the one operation that
  writes the state, \<open>'t\<close> what it is given besides the next state (a timestamp, or nothing).\<close>

locale lifecycle_machine =
  fixes edges :: "('s \<times> 's) list"
    and state_of :: "'a \<Rightarrow> 's"
    and move :: "'t \<Rightarrow> 's \<Rightarrow> 'a \<Rightarrow> 'e + 'a"
  assumes move_legal: "(state_of a, s) \<in> set edges \<Longrightarrow> is_ok (move t s a)"
    and move_illegal: "(state_of a, s) \<notin> set edges \<Longrightarrow> \<not> is_ok (move t s a)"
    and move_state: "move t s a = Inr a' \<Longrightarrow> state_of a' = s"
begin

lemma move_ok_iff: "is_ok (move t s a) \<longleftrightarrow> (state_of a, s) \<in> set edges"
  using move_legal move_illegal by blast

lemma move_InrD: "move t s a = Inr a' \<Longrightarrow> (state_of a, s) \<in> set edges \<and> state_of a' = s"
  using move_ok_iff [of t s a] move_state by (auto simp: is_ok_def)

lemma absorbing: "(\<And>s'. (state_of a, s') \<notin> set edges) \<Longrightarrow> \<not> is_ok (move t s a)"
  using move_illegal by blast

text \<open>A run of moves walks the edge list.\<close>

fun moves :: "('t \<times> 's) list \<Rightarrow> 'a \<Rightarrow> 'e + 'a" where
  "moves [] a = Inr a"
| "moves ((t, s) # ms) a = and_then (move t s a) (moves ms)"

lemma moves_path: "moves ms a = Inr a' \<Longrightarrow> (state_of a, state_of a') \<in> (set edges)\<^sup>*"
proof (induction ms arbitrary: a)
  case Nil
  then show ?case by simp
next
  case (Cons m ms)
  obtain t s where m: "m = (t, s)" by (cases m)
  from Cons.prems obtain b where b: "move t s a = Inr b" "moves ms b = Inr a'"
    by (auto simp: m)
  then show ?case
    using Cons.IH [OF b(2)] move_InrD [OF b(1)] by (metis converse_rtrancl_into_rtrancl)
qed

lemma moves_invariant:
  assumes "moves ms a = Inr a'" "P (state_of a)"
    and "\<And>s s'. (s, s') \<in> set edges \<Longrightarrow> P s \<Longrightarrow> P s'"
  shows "P (state_of a')"
  using moves_path [OF assms(1)] assms(2)
  by (induction rule: rtrancl_induct) (auto intro: assms(3))

end

section \<open>Capped exponential backoff\<close>

text \<open>\<open>delay n\<close> is the wait after the \<open>n\<close>-th consecutive failure, counted from one: the base at
  first, then doubling until a ceiling (of the delay or of the number of doublings) holds it.\<close>

locale capped_backoff =
  fixes delay :: "nat \<Rightarrow> nat"
    and base cap :: nat
  assumes delay_first: "delay 1 = min base cap"
    and delay_next: "1 \<le> n \<Longrightarrow> delay (Suc n) = min (2 * delay n) cap \<or> delay (Suc n) = delay n"
begin

lemma delay_le_cap: "1 \<le> n \<Longrightarrow> delay n \<le> cap"
proof (induction n rule: dec_induct)
  case base
  then show ?case using delay_first by simp
next
  case (step n)
  then show ?case using delay_next [of n] by auto
qed

lemma delay_step: "1 \<le> n \<Longrightarrow> delay n \<le> delay (Suc n)"
  using delay_next [of n] delay_le_cap [of n] by auto

lemma delay_mono: "1 \<le> n \<Longrightarrow> n \<le> m \<Longrightarrow> delay n \<le> delay m"
proof (induction m)
  case (Suc m)
  then show ?case using delay_step [of m] by (cases "n = Suc m") auto
qed simp

lemma delay_ge_base: "1 \<le> n \<Longrightarrow> min base cap \<le> delay n"
  using delay_mono [of 1 n] delay_first by simp

lemma total_wait: "n * min base cap \<le> (\<Sum>i=1..n. delay i)" "(\<Sum>i=1..n. delay i) \<le> n * cap"
  using delay_ge_base delay_le_cap
  by (induction n) (auto simp: add_mono add.commute)

end

end
