(* ===== verification/Local_Path.thy ===== *)
theory Local_Path
  imports Contracts
begin

text \<open>
  The stored shape of an operator-configured path, \<open>crates/domain/src/path.rs\<close>: parsing against
  an explicit platform, the normal form, and joining one child component. Everything is pure;
  the operational preflight is another crate. The last section shows that the stored text is a
  fixed point of parsing and that a joined child stays below its parent.
\<close>

section \<open>Data\<close>

datatype local_path_error =
    PathEmpty
  | NotAbsolute ustr
  | RootPath ustr
  | Traversal ustr
  | Unc ustr
  | DeviceNamespace ustr
  | UnrepresentableCharacter ustr uchar
  | TrailingDotOrSpace ustr
  | ReservedName ustr
  | NotASingleComponent ustr

datatype path_platform = WindowsPath | UnixPath

record local_absolute_path =
  lap_text :: ustr
  lap_platform :: path_platform

section \<open>Operations\<close>

fun separator :: "path_platform \<Rightarrow> uchar" where
  "separator WindowsPath = 92"
| "separator UnixPath = 47"

fun is_separator :: "path_platform \<Rightarrow> uchar \<Rightarrow> bool" where
  "is_separator WindowsPath c = (c = 92 \<or> c = 47)"
| "is_separator UnixPath c = (c = 47)"

fun unix_prefix :: "ustr \<Rightarrow> local_path_error + ustr \<times> ustr" where
  "unix_prefix raw =
     (case strip_prefix raw (lit ''/'') of
        Some rest \<Rightarrow> Inr (lit ''/'', rest)
      | None \<Rightarrow> Inl (NotAbsolute raw))"

fun char_matches :: "(uchar \<Rightarrow> bool) \<Rightarrow> ustr \<Rightarrow> bool" where
  "char_matches p [] = False"
| "char_matches p (c # _) = p c"

definition windows_prefix :: "ustr \<Rightarrow> local_path_error + ustr \<times> ustr" where
  "windows_prefix raw =
     (let sep = is_separator WindowsPath in
      if char_matches sep raw \<and> char_matches sep (drop 1 raw) then
        (if char_matches (\<lambda>c. c = ch CHR ''?'' \<or> c = ch CHR ''.'') (drop 2 raw)
            \<and> char_matches sep (drop 3 raw)
         then Inl (DeviceNamespace raw)
         else Inl (Unc raw))
      else case raw of
          drive # colon # rest \<Rightarrow>
            (if is_ascii_alphabetic drive \<and> colon = ch CHR '':'' then
               (case rest of
                  c # rest' \<Rightarrow>
                    (if sep c then Inr ([to_ascii_upper drive, ch CHR '':'', 92], rest')
                     else Inl (NotAbsolute raw))
                | [] \<Rightarrow> Inl (NotAbsolute raw))
             else Inl (NotAbsolute raw))
        | _ \<Rightarrow> Inl (NotAbsolute raw))"

definition WINDOWS_RESERVED_CHARACTERS :: "uchar list" where
  "WINDOWS_RESERVED_CHARACTERS = [60, 62, 58, 34, 124, 63, 42]"

definition WINDOWS_RESERVED_NAMES :: "ustr list" where
  "WINDOWS_RESERVED_NAMES = map lit
     [''CON'', ''PRN'', ''AUX'', ''NUL'',
      ''COM1'', ''COM2'', ''COM3'', ''COM4'', ''COM5'', ''COM6'', ''COM7'', ''COM8'', ''COM9'',
      ''LPT1'', ''LPT2'', ''LPT3'', ''LPT4'', ''LPT5'', ''LPT6'', ''LPT7'', ''LPT8'', ''LPT9'']"

definition validate_component :: "ustr \<Rightarrow> path_platform \<Rightarrow> local_path_error + unit" where
  "validate_component component platform =
     (case find (\<lambda>c. c = 0) component of
        Some found \<Rightarrow> Inl (UnrepresentableCharacter component found)
      | None \<Rightarrow>
     if platform = UnixPath then Inr ()
     else case find (\<lambda>c. c \<in> set WINDOWS_RESERVED_CHARACTERS \<or> is_control c) component of
        Some found \<Rightarrow> Inl (UnrepresentableCharacter component found)
      | None \<Rightarrow>
     if ends_with component (lit '' '') \<or> ends_with component (lit ''.'')
     then Inl (TrailingDotOrSpace component)
     else
       (let stem0 = (case split_once (ch CHR ''.'') component of Some (a, _) \<Rightarrow> a | None \<Rightarrow> component);
            stem = trim_end_matches (\<lambda>c. c = 32) stem0
        in if list_ex (\<lambda>n. eq_ignore_ascii_case stem n) WINDOWS_RESERVED_NAMES
           then Inl (ReservedName component)
           else Inr ()))"

text \<open>One turn of the loop over the split components per equation.\<close>

fun collect_components ::
  "ustr \<Rightarrow> path_platform \<Rightarrow> ustr list \<Rightarrow> local_path_error + ustr list" where
  "collect_components raw platform [] = Inr []"
| "collect_components raw platform (component # cs) =
     (if component = [] \<or> component = lit ''.'' then collect_components raw platform cs
      else if component = lit ''..'' then Inl (Traversal raw)
      else and_then (validate_component component platform) (\<lambda>_.
           and_then (collect_components raw platform cs) (\<lambda>rest. Inr (component # rest))))"

definition normalise_components ::
  "ustr \<Rightarrow> ustr \<Rightarrow> path_platform \<Rightarrow> local_path_error + ustr list" where
  "normalise_components raw rest platform =
     collect_components raw platform (split_on (is_separator platform) rest)"

definition parse_for :: "ustr \<Rightarrow> path_platform \<Rightarrow> local_path_error + local_absolute_path" where
  "parse_for raw platform =
     (if trim raw = [] then Inl PathEmpty
      else if 0 \<in> set raw then Inl (UnrepresentableCharacter raw 0)
      else
        and_then (case platform of WindowsPath \<Rightarrow> windows_prefix raw | UnixPath \<Rightarrow> unix_prefix raw)
          (\<lambda>(prefix, rest).
        and_then (normalise_components raw rest platform) (\<lambda>components.
        if components = [] then Inl (RootPath raw)
        else Inr \<lparr>lap_text = prefix @ str_join [separator platform] components,
                  lap_platform = platform\<rparr>)))"

definition join_child :: "local_absolute_path \<Rightarrow> ustr \<Rightarrow> local_path_error + local_absolute_path" where
  "join_child p name =
     (if name = [] \<or> name = lit ''.'' \<or> name = lit ''..''
         \<or> list_ex (is_separator (lap_platform p)) name
      then Inl (NotASingleComponent name)
      else and_then (validate_component name (lap_platform p)) (\<lambda>_.
        Inr \<lparr>lap_text = lap_text p @ [separator (lap_platform p)] @ name,
             lap_platform = lap_platform p\<rparr>))"

section \<open>The normal form\<close>

text \<open>A component that survives normalisation.\<close>

definition good_component :: "path_platform \<Rightarrow> ustr \<Rightarrow> bool" where
  "good_component platform c \<longleftrightarrow>
     c \<noteq> [] \<and> c \<noteq> lit ''.'' \<and> c \<noteq> lit ''..'' \<and> (\<forall>x \<in> set c. \<not> is_separator platform x)
     \<and> validate_component c platform = Inr ()"

text \<open>The prefixes a parsed path can start with.\<close>

definition good_prefix :: "path_platform \<Rightarrow> ustr \<Rightarrow> bool" where
  "good_prefix platform pre \<longleftrightarrow>
     (case platform of
        UnixPath \<Rightarrow> pre = lit ''/''
      | WindowsPath \<Rightarrow> (\<exists>d. is_ascii_uppercase d \<and> pre = [d, ch CHR '':'', 92]))"

definition normal_path :: "local_absolute_path \<Rightarrow> ustr \<Rightarrow> ustr list \<Rightarrow> bool" where
  "normal_path p pre cs \<longleftrightarrow>
     cs \<noteq> [] \<and> (\<forall>c \<in> set cs. good_component (lap_platform p) c)
     \<and> good_prefix (lap_platform p) pre
     \<and> lap_text p = pre @ str_join [separator (lap_platform p)] cs"

lemma split_on_ne [simp]: "split_on sep s \<noteq> []"
  by (induction s) (auto split: list.splits)

lemma split_on_no_sep: "w \<in> set (split_on sep s) \<Longrightarrow> x \<in> set w \<Longrightarrow> \<not> sep x"
proof (induction s arbitrary: w)
  case (Cons c s)
  then show ?case by (cases "split_on sep s") (fastforce split: if_splits)+
qed simp

lemma split_on_subset: "w \<in> set (split_on sep s) \<Longrightarrow> set w \<subseteq> set s"
proof (induction s arbitrary: w)
  case (Cons c s)
  then show ?case by (cases "split_on sep s") (fastforce split: if_splits)+
qed simp

lemma split_on_plain: "(\<And>x. x \<in> set w \<Longrightarrow> \<not> sep x) \<Longrightarrow> split_on sep w = [w]"
  by (induction w) auto

lemma split_on_append_sep:
  assumes "\<And>x. x \<in> set w \<Longrightarrow> \<not> sep x" "sep d"
  shows "split_on sep (w @ d # s) = w # split_on sep s"
  using assms by (induction w) auto

lemma split_on_join:
  assumes "sep d" "ws \<noteq> []" "\<And>w x. w \<in> set ws \<Longrightarrow> x \<in> set w \<Longrightarrow> \<not> sep x"
  shows "split_on sep (str_join [d] ws) = ws"
  using assms
proof (induction "[d]" ws rule: str_join.induct)
  case (2 w)
  then show ?case by (simp add: split_on_plain)
next
  case (3 w v ws)
  have rest: "split_on sep (str_join [d] (v # ws)) = v # ws"
    by (rule 3(1)) (use 3(2,4) in auto)
  have "split_on sep (w @ d # str_join [d] (v # ws)) = w # split_on sep (str_join [d] (v # ws))"
    using 3(2,4) by (intro split_on_append_sep) auto
  then show ?case using rest by simp
qed simp

lemma separator_is_separator [simp]: "is_separator p (separator p)"
  by (cases p) auto

lemma str_join_snoc: "ws \<noteq> [] \<Longrightarrow> str_join sep (ws @ [w]) = str_join sep ws @ sep @ w"
proof (induction sep ws rule: str_join.induct)
  case (3 sep a b ws)
  then show ?case by (cases ws) auto
qed auto

lemma collect_components_good:
  assumes "collect_components raw platform ws = Inr cs"
    and "\<And>w x. w \<in> set ws \<Longrightarrow> x \<in> set w \<Longrightarrow> \<not> is_separator platform x"
  shows "\<forall>c \<in> set cs. good_component platform c"
  using assms
proof (induction ws arbitrary: cs)
  case (Cons w ws)
  have IH: "collect_components raw platform ws = Inr cs' \<Longrightarrow> \<forall>c \<in> set cs'. good_component platform c" for cs'
    using Cons.IH Cons.prems(2) by auto
  show ?case
  proof (cases "w = [] \<or> w = lit ''.''")
    case True
    then show ?thesis using Cons.prems(1) by (intro IH) auto
  next
    case False
    then obtain rest where "w \<noteq> lit ''..''" "validate_component w platform = Inr ()"
        "collect_components raw platform ws = Inr rest" "cs = w # rest"
      using Cons.prems(1) by (auto split: if_splits)
    with False show ?thesis
      using IH Cons.prems(2) [of w] by (auto simp: good_component_def)
  qed
qed simp

lemma collect_components_id:
  "\<forall>c \<in> set cs. good_component platform c \<Longrightarrow> collect_components raw platform cs = Inr cs"
  by (induction cs) (auto simp: good_component_def)

lemma windows_prefix_good:
  assumes "windows_prefix raw = Inr (pre, rest)"
  shows "good_prefix WindowsPath pre"
  using assms unfolding windows_prefix_def good_prefix_def Let_def
  by (auto simp: ascii_defs split: if_splits list.splits)

lemma windows_prefix_id:
  assumes "good_prefix WindowsPath pre"
  shows "windows_prefix (pre @ rest) = Inr (pre, rest)"
proof -
  from assms obtain d where d: "is_ascii_uppercase d" "pre = [d, ch CHR '':'', 92]"
    by (auto simp: good_prefix_def)
  then have "is_ascii_alphabetic d" "d \<noteq> 92" "d \<noteq> 47" "to_ascii_upper d = d"
    by (auto simp: ascii_defs)
  with d show ?thesis by (simp add: windows_prefix_def)
qed

lemma parse_for_normal:
  assumes "parse_for raw platform = Inr p"
  shows "lap_platform p = platform \<and> (\<exists>pre cs. normal_path p pre cs)"
proof -
  obtain pre rest cs where pre:
      "(case platform of WindowsPath \<Rightarrow> windows_prefix raw | UnixPath \<Rightarrow> unix_prefix raw) = Inr (pre, rest)"
    and cs: "normalise_components raw rest platform = Inr cs" "cs \<noteq> []"
    and p: "p = \<lparr>lap_text = pre @ str_join [separator platform] cs, lap_platform = platform\<rparr>"
    using assms by (auto simp: parse_for_def split: if_splits)
  have "good_prefix platform pre"
    using pre windows_prefix_good
    by (cases platform) (auto simp: good_prefix_def [of UnixPath] split: option.splits)
  moreover have "\<forall>c \<in> set cs. good_component platform c"
    using collect_components_good [OF cs(1) [unfolded normalise_components_def]] split_on_no_sep
    by blast
  ultimately show ?thesis
    using p cs(2) by (auto simp: normal_path_def)
qed

lemma good_component_no_nul: "good_component platform c \<Longrightarrow> 0 \<notin> set c"
  by (auto simp: good_component_def validate_component_def find_None_iff split: option.splits)

lemma set_str_join: "set (str_join sep ws) \<subseteq> set sep \<union> (\<Union>w \<in> set ws. set w)"
  by (induction sep ws rule: str_join.induct) auto

lemma normal_path_parses:
  assumes "normal_path p pre cs"
  shows "parse_for (lap_text p) (lap_platform p) = Inr p"
proof -
  let ?pf = "lap_platform p" and ?j = "str_join [separator (lap_platform p)] cs"
  have tx: "lap_text p = pre @ ?j" and cs: "cs \<noteq> []" "\<forall>c \<in> set cs. good_component ?pf c"
    and pre: "good_prefix ?pf pre"
    using assms by (auto simp: normal_path_def)
  have "\<not> is_whitespace (hd (lap_text p))" "lap_text p \<noteq> []"
    using pre tx by (auto simp: good_prefix_def ascii_defs split: path_platform.splits)
  then have trim: "trim (lap_text p) \<noteq> []"
    using trim_end_hd(1) [of "lap_text p" is_whitespace]
    by (simp add: trim_def trim_start_def dropWhile_id)
  have "0 \<notin> set ?j"
    using set_str_join [of "[separator ?pf]" cs] good_component_no_nul cs(2)
    by (cases ?pf) (fastforce)+
  then have nul: "0 \<notin> set (lap_text p)"
    using tx pre by (auto simp: good_prefix_def ascii_defs split: path_platform.splits)
  have prefix: "(case ?pf of WindowsPath \<Rightarrow> windows_prefix (lap_text p)
      | UnixPath \<Rightarrow> unix_prefix (lap_text p)) = Inr (pre, ?j)"
    using pre tx windows_prefix_id [of pre ?j]
    by (cases ?pf) (auto simp: good_prefix_def strip_prefix_def starts_with_def)
  have comps: "normalise_components (lap_text p) ?j ?pf = Inr cs"
    using cs by (simp add: normalise_components_def split_on_join collect_components_id good_component_def)
  show ?thesis
    unfolding parse_for_def prefix using trim nul comps cs(1) tx by simp
qed

interpretation local_path: checked_newtype
  "\<lambda>(raw, platform). parse_for raw platform" "\<lambda>p. (lap_text p, lap_platform p)"
proof unfold_locales
  fix r v
  assume "(case r of (raw, platform) \<Rightarrow> parse_for raw platform) = Inr v"
  then obtain pre cs where "normal_path v pre cs"
    by (cases r) (auto dest: parse_for_normal)
  then show "(case (lap_text v, lap_platform v) of (raw, platform) \<Rightarrow> parse_for raw platform) = Inr v"
    by (simp add: normal_path_parses)
qed

lemma join_child_normal:
  assumes "normal_path p pre cs" "join_child p name = Inr q"
  shows "normal_path q pre (cs @ [name])"
  using assms
  by (auto simp: normal_path_def join_child_def good_component_def str_join_snoc list_ex_iff
      split: if_splits)

section \<open>Properties\<close>

lemma normal_path_components:
  assumes "normal_path p pre cs"
  shows "split_on (is_separator (lap_platform p)) (str_join [separator (lap_platform p)] cs) = cs"
  using assms by (intro split_on_join) (auto simp: normal_path_def good_component_def)

text \<open>The stored text of a path is a fixed point of parsing: what a database holds parses back to
  the same path on its platform, and the text starts with the root prefix of the platform
  followed by components none of which is empty, a dot or a parent reference.\<close>

theorem stored_path_is_normal:
  assumes "parse_for raw platform = Inr p"
  shows "parse_for (lap_text p) platform = Inr p
    \<and> (\<exists>pre rest. lap_text p = pre @ rest \<and> good_prefix platform pre
         \<and> (\<forall>c \<in> set (split_on (is_separator platform) rest). c \<noteq> [] \<and> c \<noteq> lit ''.'' \<and> c \<noteq> lit ''..''))"
proof -
  obtain pre cs where n: "normal_path p pre cs" and pf: "lap_platform p = platform"
    using parse_for_normal [OF assms] by blast
  have "lap_text p = pre @ str_join [separator platform] cs" "good_prefix platform pre"
      "\<forall>c \<in> set (split_on (is_separator platform) (str_join [separator platform] cs)).
         c \<noteq> [] \<and> c \<noteq> lit ''.'' \<and> c \<noteq> lit ''..''"
    using n pf normal_path_components [OF n] by (simp_all add: normal_path_def good_component_def)
  then show ?thesis using normal_path_parses [OF n] pf by blast
qed

theorem stored_path_is_normal_witness:
  "\<exists>p. parse_for (lit ''c:/a//b/./'') WindowsPath = Inr p \<and> parse_for (lap_text p) WindowsPath = Inr p
     \<and> lap_text p = [67, 58, 92, 97, 92, 98]"
proof -
  have p: "parse_for (lit ''c:/a//b/./'') WindowsPath = Inr \<lparr>lap_text = [67, 58, 92, 97, 92, 98], lap_platform = WindowsPath\<rparr>"
    by (simp add: parse_for_def windows_prefix_def normalise_components_def validate_component_def
        WINDOWS_RESERVED_CHARACTERS_def WINDOWS_RESERVED_NAMES_def str_defs Let_def)
  then show ?thesis using stored_path_is_normal [OF p] by simp
qed

text \<open>Joining a child stays below the parent: the result is a valid stored path, its text is the
  parent's text, one separator and the name, and the name holds no separator.\<close>

theorem joined_child_is_below:
  assumes "parse_for raw platform = Inr p" "join_child p name = Inr q"
  shows "parse_for (lap_text q) platform = Inr q
    \<and> lap_text q = lap_text p @ [separator platform] @ name \<and> (\<forall>c \<in> set name. \<not> is_separator platform c)"
proof -
  obtain pre cs where n: "normal_path p pre cs" and pf: "lap_platform p = platform"
    using parse_for_normal [OF assms(1)] by blast
  have q: "lap_text q = lap_text p @ [separator platform] @ name" "lap_platform q = platform"
      "\<forall>c \<in> set name. \<not> is_separator platform c"
    using assms(2) pf by (auto simp: join_child_def list_ex_iff split: if_splits)
  then show ?thesis using normal_path_parses [OF join_child_normal [OF n assms(2)]] by simp
qed

theorem joined_child_is_below_witness:
  "\<exists>p q. parse_for (lit ''/srv/ws'') UnixPath = Inr p \<and> join_child p (lit ''s1'') = Inr q
     \<and> lap_text q = lit ''/srv/ws/s1''"
proof -
  have p: "parse_for (lit ''/srv/ws'') UnixPath = Inr \<lparr>lap_text = lit ''/srv/ws'', lap_platform = UnixPath\<rparr>"
    by (simp add: parse_for_def normalise_components_def validate_component_def str_defs Let_def)
  obtain q where q: "join_child \<lparr>lap_text = lit ''/srv/ws'', lap_platform = UnixPath\<rparr> (lit ''s1'') = Inr q"
    by (simp add: join_child_def validate_component_def)
  then show ?thesis using joined_child_is_below [OF p q] p by fastforce
qed

end
