(* ===== verification/Model.thy ===== *)
theory Model
  imports Local_Path "HOL-Library.Product_Lexorder"
begin

text \<open>
  The value types of \<open>crates/domain/src/model.rs\<close>: operating system and architecture tokens, the
  bounded poll intervals, labels and the two narrower newtypes built into a routing label,
  GitHub names compared without regard to case, scale targets and the host row. Construction
  is through the validating constructors of the source; every rejected input is an \<open>Inl\<close>.
  The host row carries the operator's runner root as a path of the previous theory. The clock port is a timestamp argument of the operations that read it. A \<open>NonZeroU16\<close> is a
  \<open>u16\<close> whose non-zeroness is part of the well-formedness predicate of its owner.
\<close>

section \<open>Data\<close>

datatype validation_error =
    Empty ustr
  | TooLong ustr nat nat
  | IllegalCharacter ustr uchar
  | IllegalEdge ustr uchar
  | MalformedOwnerRepo ustr nat
  | BelowFloor ustr u16 u16
  | NonEmptyRequired ustr
  | Unrecognised ustr ustr

type_synonym host_id = uuid
type_synonym policy_id = uuid
type_synonym attempt_id = uuid

datatype os = Windows | MacOs | Linux

datatype arch = X64 | Arm64 | Arm32

datatype start_mode = Boot | Login

datatype cache_policy = RetainRunnerPackage | DiscardRunnerPackage

datatype refresh_interval = RefreshInterval u16

datatype idle_poll_interval = IdlePollInterval u16

datatype label = Label (label_str: ustr)

datatype host_label = HostLabel (host_label_str: ustr)

datatype profile_name = ProfileName (profile_name_str: ustr)

datatype 'a non_empty = NonEmpty (ne_items: "'a list")

datatype name = Name (name_str: ustr)

record owner_repo =
  or_owner :: name
  or_repo :: name

datatype org = Org name

datatype target_scope = Repository | Organization

datatype scale_target = RepositoryTarget owner_repo | OrganizationTarget org

record host =
  host_id :: host_id
  host_display_name :: ustr
  host_os :: os
  host_architecture :: arch
  host_capacity :: u16
  host_service_start_mode :: start_mode
  host_refresh_interval :: refresh_interval
  host_runner_root_override :: "local_absolute_path option"
  host_created_at :: timestamp

section \<open>Operating system, architecture, start mode, cache policy\<close>

definition os_ALL :: "os list" where
  "os_ALL = [Windows, MacOs, Linux]"

fun os_label_token :: "os \<Rightarrow> ustr" where
  "os_label_token Windows = lit ''win''"
| "os_label_token MacOs = lit ''osx''"
| "os_label_token Linux = lit ''linux''"

definition supports_container_actions :: "os \<Rightarrow> bool" where
  "supports_container_actions o' \<longleftrightarrow> o' = Linux"

definition os_from_str :: "ustr \<Rightarrow> validation_error + os" where
  "os_from_str s =
     (let t = to_ascii_lowercase (trim s) in
      if t \<in> {lit ''win'', lit ''windows''} then Inr Windows
      else if t \<in> {lit ''osx'', lit ''macos'', lit ''mac'', lit ''darwin''} then Inr MacOs
      else if t = lit ''linux'' then Inr Linux
      else Inl (Unrecognised (lit ''host operating system'') t))"

definition arch_ALL :: "arch list" where
  "arch_ALL = [X64, Arm64, Arm32]"

fun arch_label_token :: "arch \<Rightarrow> ustr" where
  "arch_label_token X64 = lit ''x64''"
| "arch_label_token Arm64 = lit ''arm64''"
| "arch_label_token Arm32 = lit ''arm''"

definition is_public_preview :: "arch \<Rightarrow> bool" where
  "is_public_preview a \<longleftrightarrow> a = Arm64"

definition arch_from_str :: "ustr \<Rightarrow> validation_error + arch" where
  "arch_from_str s =
     (let t = to_ascii_lowercase (trim s) in
      if t \<in> {lit ''x64'', lit ''x86_64'', lit ''amd64''} then Inr X64
      else if t \<in> {lit ''arm64'', lit ''aarch64''} then Inr Arm64
      else if t \<in> {lit ''arm'', lit ''arm32'', lit ''armv7''} then Inr Arm32
      else Inl (Unrecognised (lit ''host architecture'') t))"

fun start_mode_display :: "start_mode \<Rightarrow> ustr" where
  "start_mode_display Boot = lit ''boot''"
| "start_mode_display Login = lit ''login''"

definition start_mode_from_str :: "ustr \<Rightarrow> validation_error + start_mode" where
  "start_mode_from_str s =
     (let t = to_ascii_lowercase (trim s) in
      if t = lit ''boot'' then Inr Boot
      else if t = lit ''login'' then Inr Login
      else Inl (Unrecognised (lit ''service start mode'') t))"

definition retains_runner_package :: "cache_policy \<Rightarrow> bool" where
  "retains_runner_package c \<longleftrightarrow> c = RetainRunnerPackage"

definition cache_retains_job_workspace :: "cache_policy \<Rightarrow> bool" where
  "cache_retains_job_workspace c \<longleftrightarrow> False"

section \<open>Poll intervals\<close>

definition REFRESH_MIN_SECS :: u16 where "REFRESH_MIN_SECS = 30"
definition REFRESH_DEFAULT_SECS :: u16 where "REFRESH_DEFAULT_SECS = 60"
definition IDLE_MIN_SECS :: u16 where "IDLE_MIN_SECS = 5"
definition IDLE_DEFAULT_SECS :: u16 where "IDLE_DEFAULT_SECS = 10"

definition refresh_from_secs :: "u16 \<Rightarrow> validation_error + refresh_interval" where
  "refresh_from_secs secs =
     (if secs < REFRESH_MIN_SECS
      then Inl (BelowFloor (lit ''refresh interval (seconds)'') REFRESH_MIN_SECS secs)
      else Inr (RefreshInterval secs))"

fun refresh_as_secs :: "refresh_interval \<Rightarrow> u16" where
  "refresh_as_secs (RefreshInterval s) = s"

definition refresh_default :: refresh_interval where
  "refresh_default = RefreshInterval REFRESH_DEFAULT_SECS"

definition idle_from_secs :: "u16 \<Rightarrow> validation_error + idle_poll_interval" where
  "idle_from_secs secs =
     (if secs < IDLE_MIN_SECS
      then Inl (BelowFloor (lit ''idle poll interval (seconds)'') IDLE_MIN_SECS secs)
      else Inr (IdlePollInterval secs))"

fun idle_as_secs :: "idle_poll_interval \<Rightarrow> u16" where
  "idle_as_secs (IdlePollInterval s) = s"

definition idle_default :: idle_poll_interval where
  "idle_default = IdlePollInterval IDLE_DEFAULT_SECS"

section \<open>Labels\<close>

definition LABEL_MAX_LEN :: nat where "LABEL_MAX_LEN = 256"
definition HOST_LABEL_MAX_LEN :: nat where "HOST_LABEL_MAX_LEN = 64"
definition PROFILE_NAME_MAX_LEN :: nat where "PROFILE_NAME_MAX_LEN = 64"

definition label_new :: "ustr \<Rightarrow> validation_error + label" where
  "label_new raw =
     (let trimmed = trim raw in
      if trimmed = [] then Inl (Empty (lit ''a label''))
      else case find (\<lambda>c. c = ch CHR '','' \<or> is_control c) trimmed of
          Some bad \<Rightarrow> Inl (IllegalCharacter (lit ''a label'') bad)
        | None \<Rightarrow>
            (let folded = to_ascii_lowercase trimmed in
             if length folded > LABEL_MAX_LEN
             then Inl (TooLong (lit ''a label'') LABEL_MAX_LEN (length folded))
             else Inr (Label folded)))"

text \<open>The characters of a host label, a profile name: ASCII alphanumerics, \<open>-\<close> and \<open>_\<close>.\<close>

definition slug_char :: "uchar \<Rightarrow> bool" where
  "slug_char c \<longleftrightarrow> is_ascii_alphanumeric c \<or> c = ch CHR ''-'' \<or> c = ch CHR ''_''"

definition host_label_new :: "ustr \<Rightarrow> validation_error + host_label" where
  "host_label_new raw =
     (let trimmed = trim raw; what = lit ''a host label'' in
      if trimmed = [] then Inl (Empty what)
      else if byte_len trimmed > HOST_LABEL_MAX_LEN
      then Inl (TooLong what HOST_LABEL_MAX_LEN (byte_len trimmed))
      else case find (\<lambda>c. \<not> slug_char c) trimmed of
          Some bad \<Rightarrow> Inl (IllegalCharacter what bad)
        | None \<Rightarrow>
            (if starts_with trimmed (lit ''-'') \<or> ends_with trimmed (lit ''-'')
             then Inl (IllegalEdge what (ch CHR ''-''))
             else Inr (HostLabel (to_ascii_lowercase trimmed))))"

definition profile_name_new :: "ustr \<Rightarrow> validation_error + profile_name" where
  "profile_name_new raw =
     (let trimmed = trim raw; what = lit ''a profile name'' in
      if trimmed = [] then Inl (Empty what)
      else if byte_len trimmed > PROFILE_NAME_MAX_LEN
      then Inl (TooLong what PROFILE_NAME_MAX_LEN (byte_len trimmed))
      else case find (\<lambda>c. \<not> slug_char c) trimmed of
          Some bad \<Rightarrow> Inl (IllegalCharacter what bad)
        | None \<Rightarrow>
            (if starts_with trimmed (lit ''-'') \<or> ends_with trimmed (lit ''-'')
             then Inl (IllegalEdge what (ch CHR ''-''))
             else Inr (ProfileName (to_ascii_lowercase trimmed))))"

definition default_profile :: profile_name where
  "default_profile = ProfileName (lit ''default'')"

definition profile_is_default :: "profile_name \<Rightarrow> bool" where
  "profile_is_default p \<longleftrightarrow> profile_name_str p = lit ''default''"

section \<open>Non-empty collections\<close>

definition ne_of :: "'a \<Rightarrow> 'a non_empty" where
  "ne_of x = NonEmpty [x]"

definition ne_try_from_vec :: "'a list \<Rightarrow> ustr \<Rightarrow> validation_error + 'a non_empty" where
  "ne_try_from_vec items what =
     (if items = [] then Inl (NonEmptyRequired what) else Inr (NonEmpty items))"

text \<open>\<open>items[0]\<close>: \<open>None\<close> is the index panic.\<close>

definition ne_first :: "'a non_empty \<Rightarrow> 'a option" where
  "ne_first n = (case ne_items n of [] \<Rightarrow> None | x # _ \<Rightarrow> Some x)"

definition ne_push :: "'a non_empty \<Rightarrow> 'a \<Rightarrow> 'a non_empty" where
  "ne_push n x = NonEmpty (ne_items n @ [x])"

definition ne_contains :: "'a non_empty \<Rightarrow> 'a \<Rightarrow> bool" where
  "ne_contains n x \<longleftrightarrow> x \<in> set (ne_items n)"

section \<open>GitHub names and targets\<close>

text \<open>\<open>Eq\<close>, \<open>Ord\<close> and \<open>Hash\<close> of a \<open>Name\<close> all read its ASCII-folded bytes, which is its key
  here; the order of UTF-8 bytes is the order of code points.\<close>

definition name_key :: "name \<Rightarrow> ustr" where
  "name_key n = to_ascii_lowercase (name_str n)"

definition name_eq :: "name \<Rightarrow> name \<Rightarrow> bool" where
  "name_eq a b \<longleftrightarrow> eq_ignore_ascii_case (name_str a) (name_str b)"

definition name_less :: "name \<Rightarrow> name \<Rightarrow> bool" where
  "name_less a b \<longleftrightarrow> name_key a < name_key b"

definition validate_login :: "ustr \<Rightarrow> ustr \<Rightarrow> validation_error + name" where
  "validate_login raw what =
     (let trimmed = trim raw in
      if trimmed = [] then Inl (Empty what)
      else if byte_len trimmed > 39 then Inl (TooLong what 39 (byte_len trimmed))
      else case find (\<lambda>c. \<not> (is_ascii_alphanumeric c \<or> c = ch CHR ''-'')) trimmed of
          Some bad \<Rightarrow> Inl (IllegalCharacter what bad)
        | None \<Rightarrow>
            (if starts_with trimmed (lit ''-'') \<or> ends_with trimmed (lit ''-'')
             then Inl (IllegalEdge what (ch CHR ''-''))
             else Inr (Name trimmed)))"

definition repo_char :: "uchar \<Rightarrow> bool" where
  "repo_char c \<longleftrightarrow> is_ascii_alphanumeric c \<or> c = ch CHR ''-'' \<or> c = ch CHR ''_'' \<or> c = ch CHR ''.''"

definition validate_repo_name :: "ustr \<Rightarrow> validation_error + name" where
  "validate_repo_name raw =
     (let trimmed = trim raw; what = lit ''a repository name'' in
      if trimmed = [] then Inl (Empty what)
      else if byte_len trimmed > 100 then Inl (TooLong what 100 (byte_len trimmed))
      else if trimmed = lit ''.'' \<or> trimmed = lit ''..'' then Inl (Unrecognised what trimmed)
      else case find (\<lambda>c. \<not> repo_char c) trimmed of
          Some bad \<Rightarrow> Inl (IllegalCharacter what bad)
        | None \<Rightarrow> Inr (Name trimmed))"

definition owner_repo_new :: "ustr \<Rightarrow> ustr \<Rightarrow> validation_error + owner_repo" where
  "owner_repo_new owner repo =
     and_then (validate_login owner (lit ''a repository owner'')) (\<lambda>o'.
     and_then (validate_repo_name repo) (\<lambda>r. Inr \<lparr>or_owner = o', or_repo = r\<rparr>))"

text \<open>The last case is the \<open>expect\<close> that one separator can be split at.\<close>

definition owner_repo_parse :: "ustr \<Rightarrow> validation_error + owner_repo" where
  "owner_repo_parse raw0 =
     (let raw = trim raw0; slashes = count_char (ch CHR ''/'') raw in
      if slashes \<noteq> 1 then Inl (MalformedOwnerRepo raw slashes)
      else case split_once (ch CHR ''/'') raw of
          Some (owner, repo) \<Rightarrow> owner_repo_new owner repo
        | None \<Rightarrow> Inl (MalformedOwnerRepo raw slashes))"

definition owner_repo_display :: "owner_repo \<Rightarrow> ustr" where
  "owner_repo_display r = name_str (or_owner r) @ lit ''/'' @ name_str (or_repo r)"

definition owner_repo_key :: "owner_repo \<Rightarrow> ustr \<times> ustr" where
  "owner_repo_key r = (name_key (or_owner r), name_key (or_repo r))"

definition owner_repo_eq :: "owner_repo \<Rightarrow> owner_repo \<Rightarrow> bool" where
  "owner_repo_eq a b \<longleftrightarrow> name_eq (or_owner a) (or_owner b) \<and> name_eq (or_repo a) (or_repo b)"

definition org_new :: "ustr \<Rightarrow> validation_error + org" where
  "org_new raw = and_then (validate_login raw (lit ''an organization login'')) (\<lambda>n. Inr (Org n))"

fun org_str :: "org \<Rightarrow> ustr" where
  "org_str (Org n) = name_str n"

definition target_repository :: "ustr \<Rightarrow> validation_error + scale_target" where
  "target_repository raw = and_then (owner_repo_parse raw) (\<lambda>r. Inr (RepositoryTarget r))"

definition target_organization :: "ustr \<Rightarrow> validation_error + scale_target" where
  "target_organization raw = and_then (org_new raw) (\<lambda>o'. Inr (OrganizationTarget o'))"

fun scope :: "scale_target \<Rightarrow> target_scope" where
  "scope (RepositoryTarget _) = Repository"
| "scope (OrganizationTarget _) = Organization"

fun slug :: "scale_target \<Rightarrow> ustr" where
  "slug (RepositoryTarget r) = owner_repo_display r"
| "slug (OrganizationTarget o') = org_str o'"

text \<open>The derived \<open>Ord\<close> of \<open>ScaleTarget\<close>: the variant, then the folded names.\<close>

fun target_key :: "scale_target \<Rightarrow> nat \<times> ustr \<times> ustr" where
  "target_key (RepositoryTarget r) = (0, owner_repo_key r)"
| "target_key (OrganizationTarget (Org n)) = (1, name_key n, [])"

fun target_eq :: "scale_target \<Rightarrow> scale_target \<Rightarrow> bool" where
  "target_eq (RepositoryTarget a) (RepositoryTarget b) = owner_repo_eq a b"
| "target_eq (OrganizationTarget (Org a)) (OrganizationTarget (Org b)) = name_eq a b"
| "target_eq _ _ = False"

section \<open>The host row\<close>

definition start_mode_default :: start_mode where
  "start_mode_default = Boot"

definition host_new ::
  "host_id \<Rightarrow> ustr \<Rightarrow> os \<Rightarrow> arch \<Rightarrow> u16 \<Rightarrow> timestamp \<Rightarrow> validation_error + host" where
  "host_new i display_name o' a cap created_at =
     (let display_name = trim display_name in
      if display_name = [] then Inl (Empty (lit ''a host display name''))
      else Inr \<lparr>host_id = i, host_display_name = display_name, host_os = o', host_architecture = a,
                host_capacity = cap, host_service_start_mode = start_mode_default,
                host_refresh_interval = refresh_default, host_runner_root_override = None,
                host_created_at = created_at\<rparr>)"

definition has_configured_runner_root :: "host \<Rightarrow> bool" where
  "has_configured_runner_root h \<longleftrightarrow> host_runner_root_override h \<noteq> None"

section \<open>Labels order by their text\<close>

instantiation label :: linorder
begin

definition less_eq_label :: "label \<Rightarrow> label \<Rightarrow> bool" where
  "less_eq_label a b \<longleftrightarrow> label_str a \<le> label_str b"

definition less_label :: "label \<Rightarrow> label \<Rightarrow> bool" where
  "less_label a b \<longleftrightarrow> label_str a < label_str b"

instance
  by standard (auto simp: less_eq_label_def less_label_def label.expand)

end

section \<open>What the constructors accept\<close>

text \<open>A label's text as \<open>Label::new\<close> leaves it.\<close>

definition label_wf :: "label \<Rightarrow> bool" where
  "label_wf l \<longleftrightarrow>
     label_str l \<noteq> [] \<and> trim (label_str l) = label_str l
     \<and> (\<forall>c \<in> set (label_str l). c \<noteq> ch CHR '','' \<and> \<not> is_control c)
     \<and> length (label_str l) \<le> LABEL_MAX_LEN
     \<and> to_ascii_lowercase (label_str l) = label_str l"

definition slug_wf :: "nat \<Rightarrow> ustr \<Rightarrow> bool" where
  "slug_wf max_len s \<longleftrightarrow>
     s \<noteq> [] \<and> length s \<le> max_len \<and> (\<forall>c \<in> set s. slug_char c)
     \<and> hd s \<noteq> ch CHR ''-'' \<and> last s \<noteq> ch CHR ''-'' \<and> to_ascii_lowercase s = s"

lemma find_None_set: "find P xs = None \<longleftrightarrow> (\<forall>x \<in> set xs. \<not> P x)"
  by (auto simp: find_None_iff)

lemma find_SomeD: "find P xs = Some x \<Longrightarrow> x \<in> set xs \<and> P x"
  by (auto simp: find_Some_iff)

lemma slug_wf_Nil [simp]: "\<not> slug_wf n []"
  by (simp add: slug_wf_def)

lemma starts_with_single [simp]: "starts_with s [c] \<longleftrightarrow> s \<noteq> [] \<and> hd s = c"
  by (cases s) (auto simp: starts_with_def)

lemma ends_with_single [simp]: "ends_with s [c] \<longleftrightarrow> s \<noteq> [] \<and> last s = c"
  by (cases s rule: rev_cases) (auto simp: ends_with_def)

lemma lower_sep_simps [simp]:
  "to_ascii_lower c = 45 \<longleftrightarrow> c = 45" "to_ascii_lower c = 44 \<longleftrightarrow> c = 44"
  "to_ascii_lower c = 95 \<longleftrightarrow> c = 95" "to_ascii_lower c = 46 \<longleftrightarrow> c = 46"
  by (auto simp: ascii_defs)

lemma slug_char_lower [simp]: "slug_char (to_ascii_lower c) = slug_char c"
  by (simp add: slug_char_def ch_def)

lemma slug_char_not_whitespace: "slug_char c \<Longrightarrow> \<not> is_whitespace c"
  by (auto simp: slug_char_def ascii_defs)

lemma byte_len_ascii: "(\<And>c. c \<in> set s \<Longrightarrow> c < 128) \<Longrightarrow> byte_len s = length s"
  by (induction s) (auto simp: byte_len_def utf8_len_def)

lemma slug_char_ascii: "slug_char c \<Longrightarrow> c < 128"
  by (auto simp: slug_char_def ascii_defs)

lemma label_new_iff:
  "label_new raw = Inr l \<longleftrightarrow> label_str l = to_ascii_lowercase (trim raw) \<and> label_wf l"
proof -
  have "(\<forall>c \<in> set (to_ascii_lowercase t). c \<noteq> ch CHR '','' \<and> \<not> is_control c)
      \<longleftrightarrow> (\<forall>c \<in> set t. c \<noteq> ch CHR '','' \<and> \<not> is_control c)" for t
    by (auto simp: to_ascii_lowercase_def ch_def)
  then show ?thesis
    by (cases l) (auto simp: label_new_def label_wf_def find_None_set trim_lowercase Let_def
        dest!: find_SomeD split: option.splits if_splits)
qed

lemma slug_wf_lower:
  "slug_wf n (to_ascii_lowercase t) \<longleftrightarrow>
     t \<noteq> [] \<and> byte_len t \<le> n \<and> (\<forall>c \<in> set t. slug_char c)
     \<and> hd t \<noteq> ch CHR ''-'' \<and> last t \<noteq> ch CHR ''-''"
proof (cases "t \<noteq> [] \<and> (\<forall>c \<in> set t. slug_char c)")
  case True
  then have "byte_len t = length t" by (auto intro: byte_len_ascii slug_char_ascii)
  with True show ?thesis
    by (auto simp: slug_wf_def to_ascii_lowercase_def hd_map last_map ch_def)
next
  case False
  then show ?thesis by (auto simp: slug_wf_def to_ascii_lowercase_def)
qed

lemma host_label_new_iff:
  "host_label_new raw = Inr h \<longleftrightarrow>
     host_label_str h = to_ascii_lowercase (trim raw) \<and> slug_wf HOST_LABEL_MAX_LEN (host_label_str h)"
  by (cases h) (auto simp: host_label_new_def slug_wf_lower find_None_set ch_def Let_def
      dest!: find_SomeD split: option.splits if_splits)

lemma profile_name_new_iff:
  "profile_name_new raw = Inr p \<longleftrightarrow>
     profile_name_str p = to_ascii_lowercase (trim raw) \<and> slug_wf PROFILE_NAME_MAX_LEN (profile_name_str p)"
  by (cases p) (auto simp: profile_name_new_def slug_wf_lower find_None_set ch_def Let_def
      dest!: find_SomeD split: option.splits if_splits)

lemma slug_wf_fixpoint: "slug_wf n s \<Longrightarrow> to_ascii_lowercase (trim s) = s"
  by (simp add: slug_wf_def slug_char_not_whitespace trim_no_whitespace)

interpretation label: checked_newtype label_new label_str
  by unfold_locales (auto simp: label_new_iff label_wf_def)

interpretation host_label: checked_newtype host_label_new host_label_str
  by unfold_locales (auto simp: host_label_new_iff slug_wf_fixpoint)

interpretation profile_name: checked_newtype profile_name_new profile_name_str
  by unfold_locales (auto simp: profile_name_new_iff slug_wf_fixpoint)

interpretation refresh: checked_newtype refresh_from_secs refresh_as_secs
  by unfold_locales (auto simp: refresh_from_secs_def split: if_splits)

interpretation idle: checked_newtype idle_from_secs idle_as_secs
  by unfold_locales (auto simp: idle_from_secs_def split: if_splits)

section \<open>Names and targets\<close>

lemma name_eq_key: "name_eq a b \<longleftrightarrow> name_key a = name_key b"
  by (simp add: name_eq_def name_key_def eq_ignore_ascii_case_def)

lemma owner_repo_eq_key: "owner_repo_eq a b \<longleftrightarrow> owner_repo_key a = owner_repo_key b"
  by (simp add: owner_repo_eq_def owner_repo_key_def name_eq_key)

lemma target_eq_key: "target_eq a b \<longleftrightarrow> target_key a = target_key b"
  by (cases a; cases b; cases "case a of OrganizationTarget o' \<Rightarrow> o'"; cases "case b of OrganizationTarget o' \<Rightarrow> o'")
    (auto simp: owner_repo_eq_key owner_repo_key_def name_eq_key)

definition login_wf :: "ustr \<Rightarrow> bool" where
  "login_wf s \<longleftrightarrow>
     s \<noteq> [] \<and> length s \<le> 39 \<and> (\<forall>c \<in> set s. is_ascii_alphanumeric c \<or> c = ch CHR ''-'')
     \<and> hd s \<noteq> ch CHR ''-'' \<and> last s \<noteq> ch CHR ''-''"

definition repo_name_wf :: "ustr \<Rightarrow> bool" where
  "repo_name_wf s \<longleftrightarrow>
     s \<noteq> [] \<and> length s \<le> 100 \<and> s \<noteq> lit ''.'' \<and> s \<noteq> lit ''..'' \<and> (\<forall>c \<in> set s. repo_char c)"

lemma repo_char_plain: "repo_char c \<Longrightarrow> \<not> is_whitespace c \<and> c < 128 \<and> c \<noteq> ch CHR ''/''"
  by (auto simp: repo_char_def ascii_defs)

lemma login_char_repo_char: "is_ascii_alphanumeric c \<or> c = ch CHR ''-'' \<Longrightarrow> repo_char c"
  by (auto simp: repo_char_def)

lemma validate_login_iff:
  "validate_login raw what = Inr n \<longleftrightarrow> name_str n = trim raw \<and> login_wf (name_str n)"
proof -
  have "byte_len t = length t" if "\<forall>c \<in> set t. is_ascii_alphanumeric c \<or> c = ch CHR ''-''" for t
    using that login_char_repo_char repo_char_plain by (blast intro: byte_len_ascii)
  then show ?thesis
    by (cases n) (auto simp: validate_login_def login_wf_def find_None_set ch_def Let_def
        dest!: find_SomeD split: option.splits if_splits)
qed

lemma validate_repo_name_iff:
  "validate_repo_name raw = Inr n \<longleftrightarrow> name_str n = trim raw \<and> repo_name_wf (name_str n)"
proof -
  have "byte_len t = length t" if "\<forall>c \<in> set t. repo_char c" for t
    using that repo_char_plain by (blast intro: byte_len_ascii)
  then show ?thesis
    by (cases n) (auto simp: validate_repo_name_def repo_name_wf_def find_None_set Let_def
        dest!: find_SomeD split: option.splits if_splits)
qed

definition owner_repo_wf :: "owner_repo \<Rightarrow> bool" where
  "owner_repo_wf r \<longleftrightarrow> login_wf (name_str (or_owner r)) \<and> repo_name_wf (name_str (or_repo r))"

lemma login_wf_chars: "login_wf s \<Longrightarrow> c \<in> set s \<Longrightarrow> \<not> is_whitespace c \<and> c \<noteq> 47"
  using repo_char_plain login_char_repo_char by (fastforce simp: login_wf_def ch_def)

lemma repo_name_wf_chars: "repo_name_wf s \<Longrightarrow> c \<in> set s \<Longrightarrow> \<not> is_whitespace c \<and> c \<noteq> 47"
  using repo_char_plain by (fastforce simp: repo_name_wf_def ch_def)

lemma trim_wf_names: "login_wf s \<Longrightarrow> trim s = s" "repo_name_wf s \<Longrightarrow> trim s = s"
  by (blast intro: trim_no_whitespace dest: login_wf_chars repo_name_wf_chars)+

lemma split_once_append: "d \<notin> set a \<Longrightarrow> split_once d (a @ d # b) = Some (a, b)"
  by (induction a) auto

lemma split_once_Some: "split_once d s = Some (a, b) \<Longrightarrow> s = a @ d # b \<and> d \<notin> set a"
  by (induction s arbitrary: a b) (auto split: if_splits)

lemma split_once_None: "split_once d s = None \<longleftrightarrow> d \<notin> set s"
  by (induction s) auto

lemma owner_repo_new_wf:
  assumes "owner_repo_wf r"
  shows "owner_repo_new (name_str (or_owner r)) (name_str (or_repo r)) = Inr r"
proof -
  have "validate_login (name_str (or_owner r)) what = Inr (or_owner r)" for what
    using assms by (simp add: owner_repo_wf_def validate_login_iff trim_wf_names)
  moreover have "validate_repo_name (name_str (or_repo r)) = Inr (or_repo r)"
    using assms by (simp add: owner_repo_wf_def validate_repo_name_iff trim_wf_names)
  ultimately show ?thesis by (simp add: owner_repo_new_def)
qed

lemma owner_repo_new_is_wf: "owner_repo_new a b = Inr r \<Longrightarrow> owner_repo_wf r"
  by (auto simp: owner_repo_new_def owner_repo_wf_def validate_login_iff validate_repo_name_iff)

lemma owner_repo_parse_is_wf: "owner_repo_parse raw = Inr r \<Longrightarrow> owner_repo_wf r"
  by (auto simp: owner_repo_parse_def Let_def owner_repo_new_is_wf split: if_splits option.splits)

lemma owner_repo_parse_display:
  assumes "owner_repo_wf r"
  shows "owner_repo_parse (owner_repo_display r) = Inr r"
proof -
  let ?o = "name_str (or_owner r)" and ?r = "name_str (or_repo r)"
  have wf: "login_wf ?o" "repo_name_wf ?r" using assms by (auto simp: owner_repo_wf_def)
  note chars = login_wf_chars [OF wf(1)] repo_name_wf_chars [OF wf(2)]
  have tr: "trim (owner_repo_display r) = owner_repo_display r"
  proof (rule trim_no_whitespace)
    fix c
    assume "c \<in> set (owner_repo_display r)"
    then consider "c \<in> set ?o" | "c = 47" | "c \<in> set ?r" by (auto simp: owner_repo_display_def)
    then show "\<not> is_whitespace c" using chars by cases (auto simp: is_whitespace_def)
  qed
  have none: "filter (\<lambda>c. c = 47) ?o = []" "filter (\<lambda>c. c = 47) ?r = []"
    using chars by (auto simp: filter_empty_conv)
  have "count_char (ch CHR ''/'') (owner_repo_display r) = 1"
    using none by (simp add: count_char_def owner_repo_display_def ch_def)
  moreover have "split_once (ch CHR ''/'') (owner_repo_display r) = Some (?o, ?r)"
    using chars(1) split_once_append [of 47 ?o ?r] by (auto simp: owner_repo_display_def ch_def)
  ultimately show ?thesis
    using owner_repo_new_wf [OF assms] by (simp add: owner_repo_parse_def tr)
qed

interpretation owner_repo: checked_newtype owner_repo_parse owner_repo_display
  by unfold_locales (auto intro: owner_repo_parse_display owner_repo_parse_is_wf)

interpretation org: checked_newtype org_new org_str
proof unfold_locales
  fix r v
  assume "org_new r = Inr v"
  then obtain n where "v = Org n" "login_wf (name_str n)"
    by (auto simp: org_new_def validate_login_iff)
  then show "org_new (org_str v) = Inr v"
    by (simp add: org_new_def validate_login_iff trim_wf_names)
qed

section \<open>Properties\<close>

text \<open>Text values are stored in a canonical form: constructing a label, host label, profile name,
  \<open>owner/repo\<close> or organization from its own rendering gives it back, so equality of stored
  text is equality of values and a reloaded row is the row that was written.\<close>

theorem constructors_are_canonical:
  "(label_new raw = Inr l \<longrightarrow> label_wf l \<and> label_new (label_str l) = Inr l)
   \<and> (host_label_new raw = Inr h \<longrightarrow> slug_wf 64 (host_label_str h) \<and> host_label_new (host_label_str h) = Inr h)
   \<and> (profile_name_new raw = Inr pn \<longrightarrow> slug_wf 64 (profile_name_str pn) \<and> profile_name_new (profile_name_str pn) = Inr pn)
   \<and> (owner_repo_parse raw = Inr r \<longrightarrow> owner_repo_wf r \<and> owner_repo_parse (owner_repo_display r) = Inr r)
   \<and> (org_new raw = Inr og \<longrightarrow> org_new (org_str og) = Inr og)"
  using label.mk_view host_label.mk_view profile_name.mk_view owner_repo.mk_view org.mk_view
    owner_repo_parse_is_wf label_new_iff host_label_new_iff profile_name_new_iff
  by (simp add: HOST_LABEL_MAX_LEN_def PROFILE_NAME_MAX_LEN_def)

theorem constructors_are_canonical_witness:
  "label_new (lit '' Self-Hosted '') = Inr (Label (lit ''self-hosted''))
   \<and> label_new (lit ''self-hosted'') = Inr (Label (lit ''self-hosted''))"
proof -
  have "label_new (lit '' Self-Hosted '') = Inr (Label (lit ''self-hosted''))"
    by (simp add: label_new_def LABEL_MAX_LEN_def str_defs)
  then show ?thesis using constructors_are_canonical [of "lit '' Self-Hosted ''"] by fastforce
qed

text \<open>Targets compare as GitHub compares them: equality of two targets is equality of their kind
  and of their names up to ASCII case, and it agrees with the order the containers use.\<close>

theorem target_equality_folds_case:
  "target_eq a b \<longleftrightarrow> scope a = scope b \<and> to_ascii_lowercase (slug a) = to_ascii_lowercase (slug b)"
  if "\<forall>r \<in> {a, b}. \<forall>x. r = RepositoryTarget x \<longrightarrow> owner_repo_wf x"
proof (cases "\<exists>x y. a = RepositoryTarget x \<and> b = RepositoryTarget y")
  case True
  then obtain x y where xy: "a = RepositoryTarget x" "b = RepositoryTarget y" by blast
  let ?k = "\<lambda>r. split_once 47 (to_ascii_lowercase (owner_repo_display r))"
  have "?k r = Some (name_key (or_owner r), name_key (or_repo r))" if "owner_repo_wf r" for r
  proof -
    have "47 \<notin> set (to_ascii_lowercase (name_str (or_owner r)))"
      using that login_wf_chars [of "name_str (or_owner r)"]
      by (auto simp: owner_repo_wf_def to_ascii_lowercase_def to_ascii_lower_def is_ascii_uppercase_def split: if_splits)
    moreover have "to_ascii_lowercase (owner_repo_display r) =
        to_ascii_lowercase (name_str (or_owner r)) @ 47 # to_ascii_lowercase (name_str (or_repo r))"
      by (simp add: owner_repo_display_def to_ascii_lowercase_def to_ascii_lower_def is_ascii_uppercase_def)
    ultimately show ?thesis by (simp add: split_once_append name_key_def)
  qed
  then have k: "?k x = Some (owner_repo_key x)" "?k y = Some (owner_repo_key y)"
    using that xy by (auto simp: owner_repo_key_def)
  have "to_ascii_lowercase (owner_repo_display x) = to_ascii_lowercase (owner_repo_display y) \<longleftrightarrow>
      owner_repo_key x = owner_repo_key y"
  proof
    assume "owner_repo_key x = owner_repo_key y"
    then show "to_ascii_lowercase (owner_repo_display x) = to_ascii_lowercase (owner_repo_display y)"
      by (simp add: owner_repo_key_def owner_repo_display_def name_key_def to_ascii_lowercase_def)
  qed (use k in simp)
  then show ?thesis by (simp add: xy owner_repo_eq_key)
next
  case False
  then show ?thesis
    by (cases a; cases b; cases "case a of OrganizationTarget o' \<Rightarrow> o'"; cases "case b of OrganizationTarget o' \<Rightarrow> o'")
      (auto simp: name_eq_def eq_ignore_ascii_case_def)
qed

theorem target_equality_folds_case_witness:
  "target_eq (OrganizationTarget (Org (Name (lit ''Acme'')))) (OrganizationTarget (Org (Name (lit ''acme''))))"
  using target_equality_folds_case [of "OrganizationTarget (Org (Name (lit ''Acme'')))" "OrganizationTarget (Org (Name (lit ''acme'')))"]
  by (simp add: str_defs)

end
