(* ===== verification/Workspace.thy ===== *)
theory Workspace
  imports Model
begin

text \<open>
  Where an attempt's files live, \<open>crates/domain/src/workspace.rs\<close>: the repository's workspace
  policy and the allocation one attempt journals. Both have a stored form of two columns; the
  \<open>persisted\<close> contract is interpreted on each. The last section shows that a slot's directory
  name is a legal single path component on both platforms and that no two slots share one.
\<close>

section \<open>Data\<close>

datatype workspace_error =
    InvalidPath local_path_error
  | PersistentRequiresRepositoryScope
  | PersistentWithoutRoot
  | EphemeralWithRoot ustr
  | PersistentWithoutSlot
  | EphemeralWithSlot u16
  | SlotNotPositive

datatype workspace_kind = EphemeralKind | PersistentKind

datatype workspace_policy = EphemeralPolicy | PersistentPolicy local_absolute_path

datatype attempt_workspace = EphemeralWorkspace | PersistentSlot u16

section \<open>Workspace kind\<close>

definition kind_is_persistent :: "workspace_kind \<Rightarrow> bool" where
  "kind_is_persistent k \<longleftrightarrow> k = PersistentKind"

fun workspace_kind_display :: "workspace_kind \<Rightarrow> ustr" where
  "workspace_kind_display EphemeralKind = lit ''ephemeral''"
| "workspace_kind_display PersistentKind = lit ''persistent''"

definition workspace_kind_from_str :: "ustr \<Rightarrow> validation_error + workspace_kind" where
  "workspace_kind_from_str s =
     (let t = to_ascii_lowercase (trim s) in
      if t = lit ''ephemeral'' then Inr EphemeralKind
      else if t = lit ''persistent'' then Inr PersistentKind
      else Inl (Unrecognised (lit ''a workspace mode'') t))"

section \<open>Workspace policy\<close>

fun workspace_policy_kind :: "workspace_policy \<Rightarrow> workspace_kind" where
  "workspace_policy_kind EphemeralPolicy = EphemeralKind"
| "workspace_policy_kind (PersistentPolicy _) = PersistentKind"

fun workspace_policy_root :: "workspace_policy \<Rightarrow> local_absolute_path option" where
  "workspace_policy_root EphemeralPolicy = None"
| "workspace_policy_root (PersistentPolicy root) = Some root"

definition workspace_policy_is_persistent :: "workspace_policy \<Rightarrow> bool" where
  "workspace_policy_is_persistent w = kind_is_persistent (workspace_policy_kind w)"

fun permitted_for :: "workspace_policy \<Rightarrow> target_scope \<Rightarrow> workspace_error + unit" where
  "permitted_for w Repository = Inr ()"
| "permitted_for w Organization =
     (if workspace_policy_is_persistent w then Inl PersistentRequiresRepositoryScope else Inr ())"

definition workspace_policy_persistent ::
  "local_absolute_path \<Rightarrow> target_scope \<Rightarrow> workspace_error + workspace_policy" where
  "workspace_policy_persistent root sc =
     (let policy = PersistentPolicy root in and_then (permitted_for policy sc) (\<lambda>_. Inr policy))"

fun workspace_policy_from_persisted ::
  "workspace_kind \<Rightarrow> local_absolute_path option \<Rightarrow> target_scope \<Rightarrow> workspace_error + workspace_policy" where
  "workspace_policy_from_persisted EphemeralKind None sc = Inr EphemeralPolicy"
| "workspace_policy_from_persisted EphemeralKind (Some root) sc = Inl (EphemeralWithRoot (lap_text root))"
| "workspace_policy_from_persisted PersistentKind None sc = Inl PersistentWithoutRoot"
| "workspace_policy_from_persisted PersistentKind (Some root) sc = workspace_policy_persistent root sc"

definition policy_retains_job_workspace :: "workspace_policy \<Rightarrow> bool" where
  "policy_retains_job_workspace w = workspace_policy_is_persistent w"

fun workspace_policy_display :: "workspace_policy \<Rightarrow> ustr" where
  "workspace_policy_display EphemeralPolicy = lit ''ephemeral''"
| "workspace_policy_display (PersistentPolicy root) = lit ''persistent ('' @ lap_text root @ lit '')''"

section \<open>Attempt workspace\<close>

fun attempt_workspace_from_persisted ::
  "workspace_kind \<Rightarrow> u16 option \<Rightarrow> workspace_error + attempt_workspace" where
  "attempt_workspace_from_persisted EphemeralKind None = Inr EphemeralWorkspace"
| "attempt_workspace_from_persisted EphemeralKind (Some s) = Inl (EphemeralWithSlot s)"
| "attempt_workspace_from_persisted PersistentKind None = Inl PersistentWithoutSlot"
| "attempt_workspace_from_persisted PersistentKind (Some s) =
     (if s = 0 then Inl SlotNotPositive else Inr (PersistentSlot s))"

fun attempt_workspace_kind :: "attempt_workspace \<Rightarrow> workspace_kind" where
  "attempt_workspace_kind EphemeralWorkspace = EphemeralKind"
| "attempt_workspace_kind (PersistentSlot _) = PersistentKind"

fun workspace_slot :: "attempt_workspace \<Rightarrow> u16 option" where
  "workspace_slot EphemeralWorkspace = None"
| "workspace_slot (PersistentSlot s) = Some s"

definition attempt_workspace_is_persistent :: "attempt_workspace \<Rightarrow> bool" where
  "attempt_workspace_is_persistent w = kind_is_persistent (attempt_workspace_kind w)"

text \<open>The decimal rendering of an unsigned integer.\<close>

fun decimal :: "nat \<Rightarrow> ustr" where
  "decimal n = (if n < 10 then [48 + n] else decimal (n div 10) @ [48 + n mod 10])"

declare decimal.simps [simp del]

definition slot_directory_name :: "attempt_workspace \<Rightarrow> ustr option" where
  "slot_directory_name w = map_option (\<lambda>s. lit ''s'' @ decimal (unat s)) (workspace_slot w)"

fun attempt_workspace_display :: "attempt_workspace \<Rightarrow> ustr" where
  "attempt_workspace_display EphemeralWorkspace = lit ''ephemeral''"
| "attempt_workspace_display (PersistentSlot s) = lit ''persistent slot s'' @ decimal (unat s)"

section \<open>The stored forms\<close>

definition attempt_workspace_wf :: "attempt_workspace \<Rightarrow> bool" where
  "attempt_workspace_wf w \<longleftrightarrow> workspace_slot w \<noteq> Some 0"

interpretation attempt_ws: persisted
  "\<lambda>w. (attempt_workspace_kind w, workspace_slot w)"
  "\<lambda>(k, s). attempt_workspace_from_persisted k s"
  attempt_workspace_wf
proof unfold_locales
  fix v :: attempt_workspace
  assume "attempt_workspace_wf v"
  then show "(case (attempt_workspace_kind v, workspace_slot v) of (k, s) \<Rightarrow> attempt_workspace_from_persisted k s) = Inr v"
    by (cases v) (auto simp: attempt_workspace_wf_def)
next
  fix p v
  assume "(case p of (k, s) \<Rightarrow> attempt_workspace_from_persisted k s) = Inr v"
  then show "attempt_workspace_wf v" "(attempt_workspace_kind v, workspace_slot v) = p"
    by (cases p; cases "fst p"; cases "snd p"; auto simp: attempt_workspace_wf_def split: if_splits)+
qed

interpretation workspace_policy: persisted
  "\<lambda>w. (workspace_policy_kind w, workspace_policy_root w)"
  "\<lambda>(k, r). workspace_policy_from_persisted k r sc"
  "\<lambda>w. permitted_for w sc = Inr ()" for sc
proof unfold_locales
  fix v
  assume "permitted_for v sc = Inr ()"
  then show "(case (workspace_policy_kind v, workspace_policy_root v) of
      (k, r) \<Rightarrow> workspace_policy_from_persisted k r sc) = Inr v"
    by (cases v) (auto simp: workspace_policy_persistent_def Let_def)
next
  fix p v
  assume "(case p of (k, r) \<Rightarrow> workspace_policy_from_persisted k r sc) = Inr v"
  then show "permitted_for v sc = Inr ()" "(workspace_policy_kind v, workspace_policy_root v) = p"
    by (cases p; cases "fst p"; cases "snd p"; cases sc;
        auto simp: workspace_policy_persistent_def workspace_policy_is_persistent_def
          kind_is_persistent_def Let_def)+
qed

section \<open>Slot names\<close>

lemma decimal_digits: "c \<in> set (decimal n) \<Longrightarrow> is_ascii_digit c"
proof (induction n rule: decimal.induct)
  case (1 n)
  then show ?case
    using decimal.simps [of n] by (cases "n < 10") (auto simp: is_ascii_digit_def)
qed

lemma decimal_ne [simp]: "decimal n \<noteq> []" "[] \<noteq> decimal n"
  by (subst decimal.simps, simp)+

lemma decimal_inj: "decimal m = decimal n \<Longrightarrow> m = n"
proof (induction m arbitrary: n rule: decimal.induct)
  case (1 m)
  have eq: "(if m < 10 then [48 + m] else decimal (m div 10) @ [48 + m mod 10])
      = (if n < 10 then [48 + n] else decimal (n div 10) @ [48 + n mod 10])"
    using 1(2) decimal.simps [of m] decimal.simps [of n] by simp
  show ?case
  proof (cases "m < 10")
    case True
    then show ?thesis using eq by (auto split: if_splits)
  next
    case False
    then have "\<not> n < 10" "decimal (m div 10) = decimal (n div 10)" "m mod 10 = n mod 10"
      using eq by (auto split: if_splits)
    then show ?thesis using 1(1) [OF False] by (metis div_mult_mod_eq)
  qed
qed

lemma slot_name_valid: "validate_component (lit ''s'' @ decimal n) platform = Inr ()"
proof -
  let ?c = "115 # decimal n"
  have dig: "x = 115 \<or> 48 \<le> x \<and> x \<le> 57" if "x \<in> set ?c" for x
    using that decimal_digits by (auto simp: is_ascii_digit_def)
  have chars: "x \<noteq> 0 \<and> x \<notin> set WINDOWS_RESERVED_CHARACTERS \<and> \<not> is_control x \<and> x \<noteq> 32 \<and> x \<noteq> 46"
    if "x \<in> set ?c" for x
    using dig [OF that] by (auto simp: WINDOWS_RESERVED_CHARACTERS_def is_control_def)
  have last: "last ?c \<noteq> 32" "last ?c \<noteq> 46"
    using chars [OF last_in_set [of ?c]] by blast+
  have "split_once (ch CHR ''.'') ?c = None"
    using chars by (auto simp: split_once_None ch_def)
  moreover have "trim_end_matches (\<lambda>c. c = 32) ?c = ?c"
    using last by (simp add: trim_end_matches_def dropWhile_id hd_rev del: rev.simps last.simps)
  moreover have "\<not> eq_ignore_ascii_case ?c m" if "m \<in> set WINDOWS_RESERVED_NAMES" for m
    using that by (auto simp: WINDOWS_RESERVED_NAMES_def eq_ignore_ascii_case_def
        to_ascii_lowercase_def to_ascii_lower_def is_ascii_uppercase_def)
  moreover have "find (\<lambda>c. c = 0) ?c = None"
      "find (\<lambda>c. c \<in> set WINDOWS_RESERVED_CHARACTERS \<or> is_control c) ?c = None"
    using chars by (auto simp only: find_None_set)
  ultimately show ?thesis
    using last by (simp add: validate_component_def list_ex_iff del: find.simps last.simps split_once.simps)
qed

lemma slot_name_joins:
  "\<exists>q. join_child p (lit ''s'' @ decimal n) = Inr q"
proof -
  have "\<not> is_separator (lap_platform p) x" if "x \<in> set (115 # decimal n)" for x
    using that decimal_digits [of x n]
    by (cases "lap_platform p") (auto simp: is_ascii_digit_def)
  then show ?thesis
    using slot_name_valid [of n "lap_platform p"] by (auto simp: join_child_def list_ex_iff)
qed

section \<open>Properties\<close>

text \<open>Slots are separate directories: every positive slot number names a directory directly below
  the persistent root on either platform, and two attempts share a slot directory only if they
  lease the same slot.\<close>

theorem slot_directories_are_separate:
  assumes "slot_directory_name w = Some n" "slot_directory_name w' = Some n'"
  shows "\<exists>q q'. join_child root n = Inr q \<and> join_child root n' = Inr q' \<and> (q = q' \<longleftrightarrow> w = w')"
proof -
  obtain s s' where w: "w = PersistentSlot s" "w' = PersistentSlot s'"
    and n: "n = lit ''s'' @ decimal (unat s)" "n' = lit ''s'' @ decimal (unat s')"
    using assms by (cases w; cases w') (auto simp: slot_directory_name_def)
  obtain q q' where q: "join_child root n = Inr q" "join_child root n' = Inr q'"
    using slot_name_joins n by metis
  have "q = q' \<longleftrightarrow> n = n'"
    using q by (auto simp: join_child_def split: if_splits)
  then show ?thesis
    using q w n decimal_inj [of "unat s" "unat s'"] unsigned_word_eqI [of s s', where ?'a = nat] by auto
qed

theorem slot_directories_are_separate_witness:
  "\<exists>q q'. join_child \<lparr>lap_text = lit ''/srv'', lap_platform = UnixPath\<rparr> (lit ''s1'') = Inr q
     \<and> join_child \<lparr>lap_text = lit ''/srv'', lap_platform = UnixPath\<rparr> (lit ''s12'') = Inr q' \<and> q \<noteq> q'"
proof -
  have "slot_directory_name (PersistentSlot 1) = Some (lit ''s1'')" "slot_directory_name (PersistentSlot 12) = Some (lit ''s12'')"
    by (simp_all add: slot_directory_name_def decimal.simps)
  moreover have "PersistentSlot 1 \<noteq> PersistentSlot 12" by simp
  ultimately show ?thesis using slot_directories_are_separate by blast
qed

end
