(* ===== verification/Execution.thy ===== *)
theory Execution
  imports Workspace
begin

text \<open>
  Execution configuration and the execution identity of an attempt,
  \<open>crates/domain/src/execution.rs\<close>: pinned image references, resource floors, the isolation
  policy of a profile and the identity journalled with an attempt. The two hand-written
  deserialisers are translated over a JSON value; what \<open>serde\<close> derives for the field types is
  an argument of them. The last section shows that the identity only ever fills in.
\<close>

section \<open>Data\<close>

datatype backend = Auto | Oci | WindowsHyperVContainer | VirtualMachine

datatype image_reference = ImageReference (image_str: ustr)

datatype execution_error =
    IsolatedRequiresRepository
  | IsolatedRequiresEphemeral
  | InvalidImage
  | BackendImageMismatch
  | InvalidResources
  | UnresolvedProvider
  | InvalidEnvironmentIdentity
  | AttemptIdentityMismatch
  | IsolatedCleanupUnproven

record resource_limits =
  cpu_millis :: u32
  memory_mib :: u32
  disk_mib :: u32

datatype execution_policy =
    NativePolicy
  | IsolatedPolicy backend image_reference resource_limits

datatype attempt_execution =
    Native "u32 option"
  | Isolated backend "ustr option" image_reference ustr

section \<open>Image references\<close>

definition id_char :: "uchar \<Rightarrow> bool" where
  "id_char c \<longleftrightarrow> is_ascii_alphanumeric c \<or> c = ch CHR ''.'' \<or> c = ch CHR ''_'' \<or> c = ch CHR ''-''"

definition safe_oci_segment :: "ustr \<Rightarrow> bool" where
  "safe_oci_segment s \<longleftrightarrow> s \<noteq> [] \<and> list_all id_char s"

definition oci_name_is_safe :: "ustr \<Rightarrow> bool" where
  "oci_name_is_safe nm =
     (case split_on (\<lambda>c. c = ch CHR ''/'') nm of
        [] \<Rightarrow> False
      | registry_or_image # segments \<Rightarrow>
          (let has_path = ch CHR ''/'' \<in> set nm;
               first = (case rsplit_once (lit '':'') registry_or_image of
                   Some (host, port) \<Rightarrow>
                     has_path \<and> host \<noteq> [] \<and> port \<noteq> [] \<and> list_all is_ascii_digit port
                     \<and> safe_oci_segment host
                 | None \<Rightarrow> safe_oci_segment registry_or_image)
           in first \<and> list_all safe_oci_segment segments))"

definition hex_digest :: "ustr \<Rightarrow> bool" where
  "hex_digest d \<longleftrightarrow> byte_len d = 64 \<and> list_all is_ascii_hexdigit d"

definition image_new :: "ustr \<Rightarrow> execution_error + image_reference" where
  "image_new reference =
     (let valid = reference \<noteq> [] \<and> byte_len reference \<le> 512 \<and> trim reference = reference
            \<and> \<not> list_ex is_whitespace reference \<and> ch CHR ''@'' \<notin> set reference
            \<and> (starts_with reference (lit ''sha256:'') \<or> starts_with reference (lit ''vm-version:''));
          oci = (case rsplit_once (lit ''@sha256:'') reference of
              Some (nm, digest) \<Rightarrow>
                nm \<noteq> [] \<and> ch CHR ''@'' \<notin> set nm \<and> \<not> str_contains nm (lit ''://'')
                \<and> \<not> list_ex is_whitespace nm \<and> oci_name_is_safe nm \<and> hex_digest digest
            | None \<Rightarrow> False);
          digest = (case strip_prefix reference (lit ''sha256:'') of
              Some d \<Rightarrow> hex_digest d | None \<Rightarrow> False);
          version = (case strip_prefix reference (lit ''vm-version:'') of
              Some v \<Rightarrow> v \<noteq> [] \<and> byte_len v \<le> 128 \<and> list_all id_char v | None \<Rightarrow> False)
      in if \<not> (oci \<or> (valid \<and> (digest \<or> version))) then Inl InvalidImage
         else Inr (ImageReference reference))"

section \<open>Policies\<close>

definition resources_validate :: "resource_limits \<Rightarrow> execution_error + resource_limits" where
  "resources_validate r =
     (if cpu_millis r < 100 \<or> memory_mib r < 256 \<or> disk_mib r < 1024 then Inl InvalidResources
      else Inr r)"

definition digest_backend_mismatch :: "backend \<Rightarrow> image_reference \<Rightarrow> bool" where
  "digest_backend_mismatch b img \<longleftrightarrow>
     b \<in> {Oci, WindowsHyperVContainer} \<and> \<not> str_contains (image_str img) (lit ''sha256:'')"

fun execution_policy_validate ::
  "execution_policy \<Rightarrow> target_scope \<Rightarrow> workspace_policy \<Rightarrow> execution_error + unit" where
  "execution_policy_validate NativePolicy sc w = Inr ()"
| "execution_policy_validate (IsolatedPolicy b img resources) sc w =
     (if sc \<noteq> Repository then Inl IsolatedRequiresRepository
      else if workspace_policy_is_persistent w then Inl IsolatedRequiresEphemeral
      else and_then (resources_validate resources) (\<lambda>_.
           and_then (image_new (image_str img)) (\<lambda>_.
           if digest_backend_mismatch b img then Inl BackendImageMismatch else Inr ())))"

fun execution_policy_is_native :: "execution_policy \<Rightarrow> bool" where
  "execution_policy_is_native NativePolicy = True"
| "execution_policy_is_native (IsolatedPolicy _ _ _) = False"

section \<open>Attempt identity\<close>

definition non_secret_id :: "ustr \<Rightarrow> bool" where
  "non_secret_id v \<longleftrightarrow> v \<noteq> [] \<and> byte_len v \<le> 128 \<and> list_all id_char v"

fun can_advance_to :: "attempt_execution \<Rightarrow> attempt_execution \<Rightarrow> bool" where
  "can_advance_to (Native old) (Native new) = (old = None \<or> old = new)"
| "can_advance_to (Isolated p old img g) (Isolated p' new img' g') =
     (p = p' \<and> img = img' \<and> g = g' \<and> (old = None \<or> old = new))"
| "can_advance_to _ _ = False"

fun execution_validate :: "attempt_execution \<Rightarrow> execution_error + unit" where
  "execution_validate (Native _) = Inr ()"
| "execution_validate (Isolated provider environment img generation) =
     (if provider = Auto then Inl UnresolvedProvider
      else and_then (image_new (image_str img)) (\<lambda>_.
        if digest_backend_mismatch provider img then Inl BackendImageMismatch
        else if \<not> non_secret_id generation
             \<or> (case environment of None \<Rightarrow> False | Some i \<Rightarrow> \<not> non_secret_id i)
        then Inl InvalidEnvironmentIdentity
        else Inr ()))"

fun execution_is_native :: "attempt_execution \<Rightarrow> bool" where
  "execution_is_native (Native _) = True"
| "execution_is_native (Isolated _ _ _ _) = False"

section \<open>Deserialisation\<close>

text \<open>A JSON value as \<open>serde_json::Value\<close> holds it; an object has each key once.\<close>

datatype json =
    JNull | JBool bool | JNumber int | JString ustr | JArray "json list"
  | JObject "(ustr \<times> json) list"

definition json_get :: "(ustr \<times> json) list \<Rightarrow> ustr \<Rightarrow> json option" where
  "json_get object k = map_of object k"

fun json_as_str :: "json \<Rightarrow> ustr option" where
  "json_as_str (JString s) = Some s"
| "json_as_str _ = None"

definition json_str_at :: "(ustr \<times> json) list \<Rightarrow> ustr \<Rightarrow> ustr option" where
  "json_str_at object k = Option.bind (json_get object k) json_as_str"

text \<open>A field through its derived decoder \<open>dec\<close> (\<open>None\<close> is its error), the error replaced.\<close>

definition json_field :: "(json \<Rightarrow> 'a option) \<Rightarrow> (ustr \<times> json) list \<Rightarrow> ustr \<Rightarrow> ustr \<Rightarrow> ustr + 'a" where
  "json_field dec object k message =
     (case Option.bind (json_get object k) dec of None \<Rightarrow> Inl message | Some x \<Rightarrow> Inr x)"

definition has_key :: "(ustr \<times> json) list \<Rightarrow> ustr \<Rightarrow> bool" where
  "has_key object k \<longleftrightarrow> json_get object k \<noteq> None"

fun execution_policy_deserialize ::
  "(json \<Rightarrow> backend option) \<Rightarrow> (json \<Rightarrow> image_reference option) \<Rightarrow> (json \<Rightarrow> resource_limits option)
   \<Rightarrow> json \<Rightarrow> ustr + execution_policy" where
  "execution_policy_deserialize dec_b dec_i dec_r (JObject object) =
     (let mode = json_str_at object (lit ''mode'') in
      if mode = Some (lit ''native'') \<and> length object = 1 then Inr NativePolicy
      else if mode = Some (lit ''isolated'') \<and> length object = 4 \<and> has_key object (lit ''backend'')
           \<and> has_key object (lit ''image'') \<and> has_key object (lit ''resources'')
      then and_then (json_field dec_b object (lit ''backend'') (lit ''invalid execution backend'')) (\<lambda>b.
           and_then (json_field dec_i object (lit ''image'') (lit ''invalid execution image shape'')) (\<lambda>i.
           and_then (json_field dec_r object (lit ''resources'') (lit ''invalid execution resource shape'')) (\<lambda>r.
           Inr (IsolatedPolicy b i r))))
      else Inl (lit ''invalid execution policy shape''))"
| "execution_policy_deserialize dec_b dec_i dec_r _ = Inl (lit ''invalid execution policy shape'')"

fun attempt_execution_deserialize ::
  "(json \<Rightarrow> u32 option option) \<Rightarrow> (json \<Rightarrow> backend option) \<Rightarrow> (json \<Rightarrow> ustr option option)
   \<Rightarrow> (json \<Rightarrow> image_reference option) \<Rightarrow> (json \<Rightarrow> ustr option) \<Rightarrow> json \<Rightarrow> ustr + attempt_execution" where
  "attempt_execution_deserialize dec_p dec_b dec_e dec_i dec_g (JObject object) =
     (let k = json_str_at object (lit ''kind'') in
      if k = Some (lit ''native'') \<and> length object = 2 \<and> has_key object (lit ''process_id'')
      then and_then (json_field dec_p object (lit ''process_id'') (lit ''invalid native process identity''))
             (\<lambda>p. Inr (Native p))
      else if k = Some (lit ''isolated'') \<and> length object = 5 \<and> has_key object (lit ''provider_kind'')
           \<and> has_key object (lit ''environment_id'') \<and> has_key object (lit ''resolved_image'')
           \<and> has_key object (lit ''generation'')
      then and_then (json_field dec_b object (lit ''provider_kind'') (lit ''invalid provider kind'')) (\<lambda>b.
           and_then (json_field dec_e object (lit ''environment_id'') (lit ''invalid environment identity'')) (\<lambda>e.
           and_then (json_field dec_i object (lit ''resolved_image'') (lit ''invalid resolved image shape'')) (\<lambda>i.
           and_then (json_field dec_g object (lit ''generation'') (lit ''invalid generation'')) (\<lambda>g.
           Inr (Isolated b e i g)))))
      else Inl (lit ''invalid attempt execution shape''))"
| "attempt_execution_deserialize dec_p dec_b dec_e dec_i dec_g _ = Inl (lit ''invalid attempt execution shape'')"

section \<open>The identity only fills in\<close>

lemma can_advance_to_refl [simp, intro]: "can_advance_to e e"
  by (cases e) auto

lemma can_advance_to_trans [trans]: "can_advance_to a b \<Longrightarrow> can_advance_to b c \<Longrightarrow> can_advance_to a c"
  by (cases a; cases b; cases c) auto

lemma can_advance_to_antisym: "can_advance_to a b \<Longrightarrow> can_advance_to b a \<Longrightarrow> a = b"
  by (cases a; cases b) auto

lemma can_advance_to_native: "can_advance_to a b \<Longrightarrow> execution_is_native b = execution_is_native a"
  by (cases a; cases b) auto

section \<open>Pinned images\<close>

lemma rsplit_once_Some: "rsplit_once p s = Some (a, b) \<Longrightarrow> s = a @ p @ b"
proof (induction s arbitrary: a b)
  case Nil
  then show ?case by (simp split: if_splits)
next
  case (Cons c s)
  then show ?case
    by (auto simp: starts_with_def split: option.splits if_splits)
      (metis append_take_drop_id)
qed

lemma rsplit_once_None_absent: "d \<in> set p \<Longrightarrow> d \<notin> set s \<Longrightarrow> rsplit_once p s = None"
proof (induction s)
  case (Cons c s)
  have "\<not> starts_with (c # s) p"
    using Cons.prems by (metis set_take_subset starts_with_def subsetD)
  then show ?case using Cons by simp
qed auto

text \<open>What a pinned reference looks like: a content digest, a named content digest, or a fixed
  virtual machine version. A mutable tag fits none of the three.\<close>

definition oci_name_ok :: "ustr \<Rightarrow> bool" where
  "oci_name_ok nm \<longleftrightarrow> nm \<noteq> [] \<and> ch CHR ''@'' \<notin> set nm \<and> \<not> str_contains nm (lit ''://'')
     \<and> \<not> list_ex is_whitespace nm \<and> oci_name_is_safe nm"

definition pinned :: "ustr \<Rightarrow> bool" where
  "pinned r \<longleftrightarrow>
     (\<exists>d. hex_digest d \<and> r = lit ''sha256:'' @ d)
     \<or> (\<exists>nm d. oci_name_ok nm \<and> hex_digest d \<and> r = nm @ lit ''@sha256:'' @ d)
     \<or> (\<exists>v. v \<noteq> [] \<and> byte_len v \<le> 128 \<and> list_all id_char v \<and> r = lit ''vm-version:'' @ v)"

lemma strip_prefix_Some: "strip_prefix s p = Some r \<longleftrightarrow> s = p @ r"
  by (auto simp: strip_prefix_def starts_with_def) (metis append_take_drop_id)

lemma image_new_Inr:
  "image_new r = Inr i \<longleftrightarrow> i = ImageReference r \<and>
     ((case rsplit_once (lit ''@sha256:'') r of
         Some (nm, digest) \<Rightarrow> oci_name_ok nm \<and> hex_digest digest | None \<Rightarrow> False)
      \<or> (r \<noteq> [] \<and> byte_len r \<le> 512 \<and> trim r = r \<and> \<not> list_ex is_whitespace r \<and> ch CHR ''@'' \<notin> set r
         \<and> (starts_with r (lit ''sha256:'') \<or> starts_with r (lit ''vm-version:''))
         \<and> ((\<exists>d. r = lit ''sha256:'' @ d \<and> hex_digest d)
            \<or> (\<exists>v. r = lit ''vm-version:'' @ v \<and> v \<noteq> [] \<and> byte_len v \<le> 128 \<and> list_all id_char v))))"
proof -
  have opt: "(case strip_prefix r p of None \<Rightarrow> False | Some d \<Rightarrow> Q d) \<longleftrightarrow> (\<exists>d. r = p @ d \<and> Q d)" for p Q
    by (cases "strip_prefix r p") (auto simp: strip_prefix_Some [symmetric])
  show ?thesis
    unfolding image_new_def Let_def opt oci_name_ok_def
    by (cases "rsplit_once (lit ''@sha256:'') r") (auto split: if_splits simp del: lit_simps)
qed

lemma pinned_chars:
  assumes "r = lit ''sha256:'' @ d \<and> hex_digest d \<or> r = lit ''vm-version:'' @ d \<and> list_all id_char d"
    and "c \<in> set r"
  shows "\<not> is_whitespace c \<and> c \<noteq> ch CHR ''@'' \<and> c < 128"
proof -
  have "is_ascii_alphanumeric c \<or> c = 58 \<or> c = 45 \<or> c = 46 \<or> c = 95"
  proof (cases "c \<in> set d")
    case True
    have "is_ascii_hexdigit x \<Longrightarrow> is_ascii_alphanumeric x" for x by (auto simp: ascii_defs)
    then show ?thesis using True assms(1) by (auto simp: hex_digest_def list_all_iff id_char_def ch_def)
  next
    case False
    then show ?thesis using assms by (auto simp: ascii_defs)
  qed
  then show ?thesis by (auto simp: ascii_defs)
qed

lemma digest_no_at: "hex_digest d \<Longrightarrow> ch CHR ''@'' \<notin> set d"
  by (auto simp: hex_digest_def list_all_iff ascii_defs)

lemma rsplit_once_last:
  assumes "x \<notin> set p" "x \<notin> set b"
  shows "rsplit_once (x # p) (a @ (x # p) @ b) = Some (a, b)"
proof (induction a)
  case Nil
  have "rsplit_once (x # p) (p @ b) = None"
    by (rule rsplit_once_None_absent [of x]) (use assms in auto)
  then show ?case by (simp add: starts_with_def)
qed auto

lemma pinned_accepted:
  assumes "pinned r"
  shows "image_new r = Inr (ImageReference r)"
proof -
  consider d where "hex_digest d" "r = lit ''sha256:'' @ d"
    | nm d where "oci_name_ok nm" "hex_digest d" "r = nm @ lit ''@sha256:'' @ d"
    | v where "v \<noteq> []" "byte_len v \<le> 128" "list_all id_char v" "r = lit ''vm-version:'' @ v"
    using assms unfolding pinned_def by blast
  then show ?thesis
  proof cases
    case 1
    have "trim r = r" "\<not> list_ex is_whitespace r" "ch CHR ''@'' \<notin> set r"
      using pinned_chars [of r d] 1 by (blast intro: trim_no_whitespace, auto simp: list_ex_iff)
    moreover have "byte_len r \<le> 512" using 1 by (simp add: hex_digest_def byte_len_def utf8_len_def)
    ultimately show ?thesis using 1 unfolding image_new_Inr by (auto simp: starts_with_def)
  next
    case 2
    have "rsplit_once (lit ''@sha256:'') r = Some (nm, d)"
      using rsplit_once_last [of 64 "lit ''sha256:''" d nm] digest_no_at [OF 2(2)] 2(3) by (simp add: ch_def)
    then show ?thesis using 2 unfolding image_new_Inr by simp
  next
    case 3
    have "trim r = r" "\<not> list_ex is_whitespace r" "ch CHR ''@'' \<notin> set r"
      using pinned_chars [of r v] 3 by (blast intro: trim_no_whitespace, auto simp: list_ex_iff)
    moreover have "byte_len r \<le> 512" using 3 by (simp add: byte_len_def utf8_len_def)
    ultimately show ?thesis using 3 unfolding image_new_Inr by (auto simp: starts_with_def)
  qed
qed

lemma image_new_iff_pinned: "image_new r = Inr i \<longleftrightarrow> i = ImageReference r \<and> pinned r"
proof
  assume "image_new r = Inr i"
  then show "i = ImageReference r \<and> pinned r"
    unfolding image_new_Inr pinned_def by (auto simp del: lit_simps dest!: rsplit_once_Some split: option.splits)
qed (use pinned_accepted in auto)

section \<open>Properties\<close>

text \<open>Only pinned images are accepted, and all of them are: an image reference is accepted if and
  only if it is a SHA-256 digest, a safe repository name with a SHA-256 digest, or a virtual
  machine version; a mutable tag, a scheme, userinfo or whitespace is refused.\<close>

theorem only_pinned_images:
  "image_new r = Inr i \<longleftrightarrow> i = ImageReference r \<and> pinned r"
  by (rule image_new_iff_pinned)

text \<open>An isolated profile is accepted only where it is safe: for a repository target with an
  ephemeral workspace, resources at or above the floors, a pinned image and, for a container
  backend, an image named by content digest.\<close>

theorem isolated_policy_accepted_iff:
  "execution_policy_validate (IsolatedPolicy b img res) sc w = Inr () \<longleftrightarrow>
     sc = Repository \<and> \<not> workspace_policy_is_persistent w
     \<and> 100 \<le> cpu_millis res \<and> 256 \<le> memory_mib res \<and> 1024 \<le> disk_mib res
     \<and> pinned (image_str img)
     \<and> (if b \<in> {Oci, WindowsHyperVContainer} then str_contains (image_str img) (lit ''sha256:'') else True)"
  unfolding execution_policy_validate.simps resources_validate_def digest_backend_mismatch_def
  by (auto simp: image_new_iff_pinned not_less simp del: lit_simps split: if_splits)

end
