(* ===== verification/Routing.thy ===== *)
theory Routing
  imports Execution
begin

text \<open>
  Routing labels and \<open>runs-on\<close> matching, the first half of \<open>crates/domain/src/policy.rs\<close>. The
  label set keeps its host label apart from the sorted optional labels, so that it cannot be
  dropped; a queued job names its labels in one of three forms, and matching a job and tallying
  a poll are pure functions. An \<open>expect\<close> of the source is an \<open>option\<close> here, and the lemmas show
  it is never \<open>None\<close>.
\<close>

section \<open>Data\<close>

datatype policy_state = Pending | Active | Draining | Disabled | RepairRequired | AuthenticationFailed

datatype policy_error =
    Invalid validation_error
  | WorkspaceRefused workspace_error
  | ExecutionRefused execution_error
  | AutoscaleWithoutRoutingLabels
  | AutoscaleWithoutMaxCapacity
  | MonitorOnlyWithMinCapacity u16
  | InvertedCapacityRange u16 u16
  | IllegalTransition policy_state policy_state
  | AlreadyAutoscale
  | NotAutoscale
  | HostLabelNotRemovable label
  | InvalidProfileSelector
  | NamedConstructorForDefault
  | NamedProfileNeedsDerivedSelector

record routing_labels =
  rl_host_label :: label
  rl_additional :: "label btree_set"

datatype unresolvable_runs_on =
    Expression ustr
  | RunnerGroupWithoutLabels ustr
  | NoLabels
  | InvalidLabel ustr validation_error

datatype runs_on_match =
    Match "ustr option"
  | NoMatch "label list"
  | Unresolvable unresolvable_runs_on

datatype runs_on_labels = LabelsOne ustr | LabelsMany "ustr list"

datatype runs_on =
    RunsOnSingle ustr
  | RunsOnMany "ustr list"
  | RunsOnGrouped "ustr option" runs_on_labels

record demand_tally =
  matched :: u32
  not_matched :: u32
  unresolvable :: "unresolvable_runs_on list"

section \<open>Label sets\<close>

definition PREFIX :: ustr where "PREFIX = lit ''rm''"

definition from_parts :: "label \<Rightarrow> label list \<Rightarrow> routing_labels" where
  "from_parts host additional =
     \<lparr>rl_host_label = host, rl_additional = bts_of_list (filter (\<lambda>l. l \<noteq> host) additional)\<rparr>"

definition from_host_label :: "label \<Rightarrow> routing_labels" where
  "from_host_label host = from_parts host []"

definition derived_text :: "host_label \<Rightarrow> os \<Rightarrow> arch \<Rightarrow> ustr" where
  "derived_text h o' a =
     PREFIX @ lit ''-'' @ host_label_str h @ lit ''-'' @ os_label_token o' @ lit ''-'' @ arch_label_token a"

definition derive :: "host_label \<Rightarrow> os \<Rightarrow> arch \<Rightarrow> routing_labels option" where
  "derive h o' a =
     map_option (\<lambda>l. \<lparr>rl_host_label = l, rl_additional = []\<rparr>) (result_ok (label_new (derived_text h o' a)))"

definition derive_for_profile :: "host_label \<Rightarrow> os \<Rightarrow> arch \<Rightarrow> profile_name \<Rightarrow> routing_labels option" where
  "derive_for_profile h o' a p =
     map_option from_host_label
       (result_ok (label_new (derived_text h o' a @ lit ''-'' @ profile_name_str p)))"

definition is_derived_shape :: "routing_labels \<Rightarrow> bool" where
  "is_derived_shape r =
     (let segments = split_on (\<lambda>c. c = ch CHR ''-'') (label_str (rl_host_label r)) in
      if length segments < 3 then False
      else
        (let prefix = hd segments;
             a = last segments;
             o' = last (butlast segments);
             middle = butlast (butlast (tl segments))
         in prefix = PREFIX \<and> middle \<noteq> []
            \<and> list_ex (\<lambda>candidate. os_label_token candidate = o') os_ALL
            \<and> list_ex (\<lambda>candidate. arch_label_token candidate = a) arch_ALL))"

definition rl_add :: "label \<Rightarrow> routing_labels \<Rightarrow> bool \<times> routing_labels" where
  "rl_add l r =
     (if l = rl_host_label r then (False, r)
      else (l \<notin> set (rl_additional r), r\<lparr>rl_additional := bts_insert l (rl_additional r)\<rparr>))"

definition rl_remove :: "label \<Rightarrow> routing_labels \<Rightarrow> policy_error + bool \<times> routing_labels" where
  "rl_remove l r =
     (if l = rl_host_label r then Inl (HostLabelNotRemovable l)
      else Inr (l \<in> set (rl_additional r), r\<lparr>rl_additional := bts_remove l (rl_additional r)\<rparr>))"

definition rl_contains :: "routing_labels \<Rightarrow> label \<Rightarrow> bool" where
  "rl_contains r l \<longleftrightarrow> rl_host_label r = l \<or> l \<in> set (rl_additional r)"

definition rl_iter :: "routing_labels \<Rightarrow> label list" where
  "rl_iter r = rl_host_label r # rl_additional r"

definition rl_count :: "routing_labels \<Rightarrow> nat" where
  "rl_count r = 1 + length (rl_additional r)"

definition to_non_empty :: "routing_labels \<Rightarrow> label non_empty" where
  "to_non_empty r = fold (\<lambda>l out. ne_push out l) (rl_additional r) (ne_of (rl_host_label r))"

definition as_registration_labels :: "routing_labels \<Rightarrow> ustr list" where
  "as_registration_labels r = map label_str (rl_iter r)"

definition routing_labels_display :: "routing_labels \<Rightarrow> ustr" where
  "routing_labels_display r = str_join (lit '','') (map label_str (rl_iter r))"

section \<open>A job's \<open>runs-on\<close>\<close>

fun runs_on_labels_slice :: "runs_on_labels \<Rightarrow> ustr list" where
  "runs_on_labels_slice (LabelsOne one) = [one]"
| "runs_on_labels_slice (LabelsMany many) = many"

definition from_job_labels :: "ustr list \<Rightarrow> runs_on" where
  "from_job_labels ls = RunsOnMany ls"

fun runner_group :: "runs_on \<Rightarrow> ustr option" where
  "runner_group (RunsOnGrouped grp _) = grp"
| "runner_group _ = None"

fun raw_labels :: "runs_on \<Rightarrow> ustr list" where
  "raw_labels (RunsOnSingle one) = [one]"
| "raw_labels (RunsOnMany many) = many"
| "raw_labels (RunsOnGrouped _ ls) = runs_on_labels_slice ls"

definition is_expression :: "ustr \<Rightarrow> bool" where
  "is_expression raw = str_contains raw (lit ''${{'')"

definition required_labels :: "runs_on \<Rightarrow> unresolvable_runs_on + label list" where
  "required_labels job =
     (let raws = raw_labels job in
      case find is_expression raws of
        Some raw \<Rightarrow> Inl (Expression raw)
      | None \<Rightarrow>
          (let usable = filter (\<lambda>r. trim r \<noteq> []) raws in
           if usable = [] then
             (case runner_group job of
                Some grp \<Rightarrow> Inl (RunnerGroupWithoutLabels grp)
              | None \<Rightarrow> Inl NoLabels)
           else try_map (\<lambda>raw. map_err (InvalidLabel raw) (label_new raw)) usable))"

section \<open>Matching and tallying\<close>

definition matches :: "routing_labels \<Rightarrow> runs_on \<Rightarrow> runs_on_match" where
  "matches r job =
     (case required_labels job of
        Inl u \<Rightarrow> Unresolvable u
      | Inr required \<Rightarrow>
          (let missing = filter (\<lambda>l. \<not> rl_contains r l) required in
           if missing = [] then Match (runner_group job) else NoMatch missing))"

fun is_match :: "runs_on_match \<Rightarrow> bool" where
  "is_match (Match _) = True"
| "is_match _ = False"

fun is_unresolvable :: "runs_on_match \<Rightarrow> bool" where
  "is_unresolvable (Unresolvable _) = True"
| "is_unresolvable _ = False"

definition empty_tally :: demand_tally where
  "empty_tally = \<lparr>matched = 0, not_matched = 0, unresolvable = []\<rparr>"

definition tally_step :: "routing_labels \<Rightarrow> runs_on \<Rightarrow> demand_tally \<Rightarrow> demand_tally" where
  "tally_step r job t =
     (case matches r job of
        Match _ \<Rightarrow> t\<lparr>matched := matched t + 1\<rparr>
      | NoMatch _ \<Rightarrow> t\<lparr>not_matched := not_matched t + 1\<rparr>
      | Unresolvable reason \<Rightarrow> t\<lparr>unresolvable := unresolvable t @ [reason]\<rparr>)"

definition tally :: "routing_labels \<Rightarrow> runs_on list \<Rightarrow> demand_tally" where
  "tally r jobs = fold (tally_step r) jobs empty_tally"

definition tally_demand :: "demand_tally \<Rightarrow> u32" where
  "tally_demand t = matched t"

definition total_seen :: "demand_tally \<Rightarrow> u32" where
  "total_seen t = matched t + not_matched t + of_nat (length (unresolvable t))"

section \<open>Well-formed label sets\<close>

definition routing_labels_wf :: "routing_labels \<Rightarrow> bool" where
  "routing_labels_wf r \<longleftrightarrow>
     label_wf (rl_host_label r) \<and> (\<forall>l \<in> set (rl_additional r). label_wf l)
     \<and> bts_wf (rl_additional r) \<and> rl_host_label r \<notin> set (rl_additional r)"

lemma from_parts_wf:
  "label_wf host \<Longrightarrow> (\<And>l. l \<in> set ls \<Longrightarrow> label_wf l) \<Longrightarrow> routing_labels_wf (from_parts host ls)"
  by (auto simp: from_parts_def routing_labels_wf_def)

lemma from_parts_id:
  "routing_labels_wf r \<Longrightarrow> from_parts (rl_host_label r) (rl_additional r) = r"
proof -
  assume wf: "routing_labels_wf r"
  then have "filter (\<lambda>l. l \<noteq> rl_host_label r) (rl_additional r) = rl_additional r"
    by (auto simp: routing_labels_wf_def filter_id_conv)
  then show ?thesis using wf by (simp add: from_parts_def routing_labels_wf_def bts_of_list_id)
qed

lemma rl_add_wf: "routing_labels_wf r \<Longrightarrow> label_wf l \<Longrightarrow> routing_labels_wf (snd (rl_add l r))"
  by (auto simp: rl_add_def routing_labels_wf_def)

lemma rl_remove_wf: "routing_labels_wf r \<Longrightarrow> rl_remove l r = Inr (b, r') \<Longrightarrow> routing_labels_wf r'"
  by (auto simp: rl_remove_def routing_labels_wf_def split: if_splits)

lemma rl_add_host [simp]: "rl_host_label (snd (rl_add l r)) = rl_host_label r"
  by (simp add: rl_add_def)

lemma rl_remove_host: "rl_remove l r = Inr (b, r') \<Longrightarrow> rl_host_label r' = rl_host_label r"
  by (auto simp: rl_remove_def split: if_splits)

lemma set_rl_iter: "l \<in> set (rl_iter r) \<longleftrightarrow> rl_contains r l"
  by (auto simp: rl_iter_def rl_contains_def)

lemma ne_items_push_all: "ne_items (fold (\<lambda>l out. ne_push out l) ls out) = ne_items out @ ls"
  by (induction ls arbitrary: out) (auto simp: ne_push_def)

lemma to_non_empty_iter: "ne_items (to_non_empty r) = rl_iter r"
  by (simp add: to_non_empty_def ne_items_push_all ne_of_def rl_iter_def)

section \<open>Derived labels\<close>

lemma token_chars:
  "c \<in> set (os_label_token o') \<Longrightarrow> is_ascii_lowercase c"
  "c \<in> set (arch_label_token a) \<Longrightarrow> is_ascii_lowercase c \<or> is_ascii_digit c"
  by (cases o'; auto simp: ascii_defs) (cases a; auto simp: ascii_defs)

lemma token_lengths: "length (os_label_token o') \<le> 5" "length (arch_label_token a) \<le> 5"
    "os_label_token o' \<noteq> []" "arch_label_token a \<noteq> []"
  by (cases o'; cases a; simp)+

lemma slug_text_label:
  assumes "s \<noteq> []" "\<forall>c \<in> set s. slug_char c" "to_ascii_lowercase s = s" "length s \<le> LABEL_MAX_LEN"
  shows "label_new s = Inr (Label s)"
proof -
  have "trim s = s"
    using assms(2) slug_char_not_whitespace by (blast intro: trim_no_whitespace)
  moreover have "c \<noteq> ch CHR '','' \<and> \<not> is_control c" if "slug_char c" for c
    using that by (auto simp: slug_char_def ascii_defs)
  ultimately show ?thesis
    using assms by (simp add: label_new_iff label_wf_def)
qed

lemma token_lower: "to_ascii_lowercase (os_label_token o') = os_label_token o'"
    "to_ascii_lowercase (arch_label_token a) = arch_label_token a"
  by (cases o'; simp add: to_ascii_lowercase_def ascii_defs)
    (cases a; simp add: to_ascii_lowercase_def ascii_defs)

lemma token_slug: "c \<in> set (os_label_token o') \<Longrightarrow> slug_char c" "c \<in> set (arch_label_token a) \<Longrightarrow> slug_char c"
  using token_chars [of c] by (auto simp: slug_char_def is_ascii_alphanumeric_def is_ascii_alphabetic_def)

lemma derived_text_slug:
  assumes "slug_wf HOST_LABEL_MAX_LEN (host_label_str h)"
  shows "\<forall>c \<in> set (derived_text h o' a). slug_char c"
    and "to_ascii_lowercase (derived_text h o' a) = derived_text h o' a"
    and "length (derived_text h o' a) \<le> 79"
proof -
  have dash: "slug_char 45" "slug_char 114" "slug_char 109" by (simp_all add: slug_char_def ascii_defs)
  show "\<forall>c \<in> set (derived_text h o' a). slug_char c"
    using assms token_slug dash by (auto simp: derived_text_def slug_wf_def PREFIX_def)
  show "to_ascii_lowercase (derived_text h o' a) = derived_text h o' a"
    using assms token_lower
    by (simp add: derived_text_def slug_wf_def PREFIX_def to_ascii_lowercase_def ascii_defs)
  show "length (derived_text h o' a) \<le> 79"
    using assms token_lengths(1) [of o'] token_lengths(2) [of a]
    by (simp add: derived_text_def slug_wf_def PREFIX_def HOST_LABEL_MAX_LEN_def)
qed

lemma derive_eq:
  assumes "slug_wf HOST_LABEL_MAX_LEN (host_label_str h)"
  shows "derive h o' a = Some \<lparr>rl_host_label = Label (derived_text h o' a), rl_additional = []\<rparr>"
proof -
  have "label_new (derived_text h o' a) = Inr (Label (derived_text h o' a))"
    using derived_text_slug [OF assms, of o' a]
    by (intro slug_text_label) (simp_all add: LABEL_MAX_LEN_def, simp add: derived_text_def PREFIX_def)
  then show ?thesis by (simp add: derive_def)
qed

lemma derive_for_profile_eq:
  assumes h: "slug_wf HOST_LABEL_MAX_LEN (host_label_str h)"
    and p: "slug_wf PROFILE_NAME_MAX_LEN (profile_name_str p)"
  shows "derive_for_profile h o' a p =
    Some \<lparr>rl_host_label = Label (derived_text h o' a @ lit ''-'' @ profile_name_str p), rl_additional = []\<rparr>"
proof -
  let ?s = "derived_text h o' a @ lit ''-'' @ profile_name_str p"
  have "slug_char 45" "to_ascii_lowercase [45] = [45]"
    by (simp_all add: slug_char_def to_ascii_lowercase_def ascii_defs)
  moreover note d = derived_text_slug [OF h, of o' a] and p [unfolded slug_wf_def]
  ultimately have "\<forall>c \<in> set ?s. slug_char c" "to_ascii_lowercase ?s = ?s" "length ?s \<le> 144"
    unfolding to_ascii_lowercase_append by (auto simp: PROFILE_NAME_MAX_LEN_def)
  then have "label_new ?s = Inr (Label ?s)"
    by (intro slug_text_label) (simp_all add: LABEL_MAX_LEN_def)
  then show ?thesis
    by (simp add: derive_for_profile_def from_host_label_def from_parts_def bts_of_list_def)
qed

lemma split_on_append:
  "sep d \<Longrightarrow> split_on sep (a @ d # b) = split_on sep a @ split_on sep b"
  by (induction a) (auto split: list.splits)

lemma split_derived_text:
  "split_on (\<lambda>c. c = 45) (derived_text h o' a) =
     PREFIX # split_on (\<lambda>c. c = 45) (host_label_str h) @ [os_label_token o', arch_label_token a]"
proof -
  have plain: "split_on (\<lambda>c. c = 45) (os_label_token o') = [os_label_token o']"
      "split_on (\<lambda>c. c = 45) (arch_label_token a) = [arch_label_token a]"
    using token_chars by (fastforce simp: ascii_defs intro: split_on_plain)+
  show ?thesis
    by (simp add: derived_text_def PREFIX_def split_on_append [of "\<lambda>c. c = 45", simplified] plain)
qed

section \<open>Matching\<close>

lemma is_match_iff:
  "is_match (matches r job) \<longleftrightarrow>
     (\<exists>required. required_labels job = Inr required \<and> (\<forall>l \<in> set required. rl_contains r l))"
  by (auto simp: matches_def filter_empty_conv Let_def split: sum.splits)

lemma required_labels_props:
  "required_labels job = Inr required \<Longrightarrow> required \<noteq> [] \<and> (\<forall>l \<in> set required. label_wf l)"
proof -
  assume "required_labels job = Inr required"
  then have ne: "filter (\<lambda>r. trim r \<noteq> []) (raw_labels job) \<noteq> []"
    and "try_map (\<lambda>raw. map_err (InvalidLabel raw) (label_new raw))
      (filter (\<lambda>r. trim r \<noteq> []) (raw_labels job)) = Inr required"
    by (auto simp: required_labels_def Let_def split: option.splits if_splits)
  then show ?thesis
    unfolding try_map_Inr
    by (auto simp: list_all2_conv_all_nth in_set_conv_nth label_new_iff)
qed

lemma tally_counts:
  "matched (fold (tally_step r) jobs t) = matched t + of_nat (length (filter (\<lambda>j. is_match (matches r j)) jobs))"
  "not_matched (fold (tally_step r) jobs t) = not_matched t
     + of_nat (length (filter (\<lambda>j. \<not> is_match (matches r j) \<and> \<not> is_unresolvable (matches r j)) jobs))"
  "length (unresolvable (fold (tally_step r) jobs t)) = length (unresolvable t)
     + length (filter (\<lambda>j. is_unresolvable (matches r j)) jobs)"
  by (induction jobs arbitrary: t) (auto simp: tally_step_def split: runs_on_match.splits)

lemma tally_seen_all:
  assumes "length jobs < 2 ^ 32"
  shows "unat (total_seen (tally r jobs)) = length jobs"
proof -
  have excl: "\<not> (is_match x \<and> is_unresolvable x)" for x by (cases x) auto
  have "length (filter (\<lambda>j. is_match (matches r j)) jobs)
      + length (filter (\<lambda>j. \<not> is_match (matches r j) \<and> \<not> is_unresolvable (matches r j)) jobs)
      + length (filter (\<lambda>j. is_unresolvable (matches r j)) jobs) = length jobs"
    using excl by (induction jobs) auto
  then have "total_seen (tally r jobs) = of_nat (length jobs)"
    by (simp add: tally_def total_seen_def tally_counts empty_tally_def flip: of_nat_add)
  then show ?thesis using assms by (simp add: unat_of_nat)
qed

section \<open>Properties\<close>

text \<open>Deriving the default label never panics: for every host label the constructor accepts,
  \<open>derive\<close> yields a valid label set whose host label is the four segments joined by dashes and
  is recognised by \<open>is_derived_shape\<close>.\<close>

theorem derive_total_and_recognised:
  assumes "host_label_new raw = Inr h"
  shows "\<exists>r. derive h o' a = Some r \<and> routing_labels_wf r \<and> is_derived_shape r
    \<and> label_str (rl_host_label r) = derived_text h o' a"
proof -
  have h: "slug_wf HOST_LABEL_MAX_LEN (host_label_str h)"
    using assms unfolding host_label_new_iff by blast
  have "label_new (derived_text h o' a) = Inr (Label (derived_text h o' a))"
    using derived_text_slug [OF h, of o' a]
    by (intro slug_text_label) (simp_all add: LABEL_MAX_LEN_def, simp add: derived_text_def PREFIX_def)
  then have "label_wf (Label (derived_text h o' a))" by (simp add: label_new_iff)
  moreover have "is_derived_shape \<lparr>rl_host_label = Label (derived_text h o' a), rl_additional = []\<rparr>"
    by (cases o'; cases a)
      (simp_all add: is_derived_shape_def split_derived_text ch_def butlast_append os_ALL_def arch_ALL_def Let_def)
  ultimately show ?thesis
    using derive_eq [OF h, of o' a] by (simp add: routing_labels_wf_def)
qed

theorem derive_total_and_recognised_witness:
  "\<exists>r. derive (HostLabel (lit ''home'')) Windows X64 = Some r \<and> is_derived_shape r
     \<and> label_str (rl_host_label r) = lit ''rm-home-win-x64''"
proof -
  have "host_label_new (lit ''home'') = Inr (HostLabel (lit ''home''))"
    by (simp add: host_label_new_def slug_char_def HOST_LABEL_MAX_LEN_def str_defs)
  from derive_total_and_recognised [OF this, of Windows X64] show ?thesis
    by (auto simp: derived_text_def PREFIX_def)
qed

text \<open>The selector of a named profile is not recognised as derived: for a profile whose name
  has no dash, \<open>is_derived_shape\<close> is false of the very selector the crate derived for it.\<close>

theorem named_selector_not_recognised:
  assumes "host_label_new raw = Inr h" "profile_name_new raw' = Inr p" "ch CHR ''-'' \<notin> set (profile_name_str p)"
  shows "\<exists>r. derive_for_profile h o' a p = Some r \<and> \<not> is_derived_shape r"
proof -
  let ?s = "derived_text h o' a @ lit ''-'' @ profile_name_str p"
  have "split_on (\<lambda>c. c = 45) ?s =
      PREFIX # split_on (\<lambda>c. c = 45) (host_label_str h) @ [os_label_token o', arch_label_token a, profile_name_str p]"
    using assms(3)
    by (simp add: split_on_append [of "\<lambda>c. c = 45", simplified] split_derived_text split_on_plain ch_def)
      (metis (mono_tags) split_on_plain)
  then have "\<not> is_derived_shape \<lparr>rl_host_label = Label ?s, rl_additional = []\<rparr>"
    by (cases o'; cases a) (simp_all add: is_derived_shape_def ch_def butlast_append os_ALL_def arch_ALL_def Let_def)
  then show ?thesis
    using derive_for_profile_eq [of h p o' a] assms(1,2)
    by (auto simp: host_label_new_iff profile_name_new_iff)
qed

theorem named_selector_not_recognised_witness:
  "\<exists>r. derive_for_profile (HostLabel (lit ''home'')) Linux X64 (ProfileName (lit ''gpu'')) = Some r \<and> \<not> is_derived_shape r"
proof -
  have "host_label_new (lit ''home'') = Inr (HostLabel (lit ''home''))"
    "profile_name_new (lit ''gpu'') = Inr (ProfileName (lit ''gpu''))"
    by (simp_all add: host_label_new_def profile_name_new_def slug_char_def HOST_LABEL_MAX_LEN_def
        PROFILE_NAME_MAX_LEN_def str_defs)
  from named_selector_not_recognised [OF this, of Linux X64] show ?thesis by (simp add: ch_def)
qed

text \<open>Selectors do not collide on one host: two profiles share a selector only if they have the
  same name, and no profile's selector is the default label.\<close>

theorem selectors_distinct_on_a_host:
  assumes "slug_wf HOST_LABEL_MAX_LEN (host_label_str h)"
    and "slug_wf PROFILE_NAME_MAX_LEN (profile_name_str p)" "slug_wf PROFILE_NAME_MAX_LEN (profile_name_str q)"
  shows "(derive_for_profile h o' a p = derive_for_profile h o' a q \<longleftrightarrow> p = q)
    \<and> derive_for_profile h o' a p \<noteq> derive h o' a"
  using derive_for_profile_eq [OF assms(1,2), of o' a] derive_for_profile_eq [OF assms(1,3), of o' a]
    derive_eq [OF assms(1), of o' a]
  by (auto intro: profile_name.expand)

theorem selectors_distinct_on_a_host_witness:
  "derive_for_profile (HostLabel (lit ''home'')) Linux X64 (ProfileName (lit ''gpu''))
     \<noteq> derive_for_profile (HostLabel (lit ''home'')) Linux X64 (ProfileName (lit ''cpu''))"
  using selectors_distinct_on_a_host [of "HostLabel (lit ''home'')" "ProfileName (lit ''gpu'')" "ProfileName (lit ''cpu'')" Linux X64]
  by (simp add: slug_wf_def slug_char_def HOST_LABEL_MAX_LEN_def PROFILE_NAME_MAX_LEN_def str_defs)

text \<open>A policy serves exactly the jobs GitHub could assign to its runners: \<open>matches\<close> says yes if
  and only if the \<open>runs-on\<close> resolves and every label it requires is among the registration
  labels; what is missing otherwise is exactly the labels not carried.\<close>

theorem matches_iff_superset:
  "is_match (matches r job) \<longleftrightarrow>
     (\<exists>required. required_labels job = Inr required
        \<and> set (map label_str required) \<subseteq> set (as_registration_labels r))"
proof -
  have "label_str l \<in> set (as_registration_labels r) \<longleftrightarrow> rl_contains r l" for l
    unfolding set_rl_iter [symmetric] as_registration_labels_def by (metis image_eqI image_iff label.expand list.set_map)
  then show ?thesis by (auto simp: is_match_iff)
qed

text \<open>A poll's tally loses no job: below the width of the counter, matched, unmatched and
  unresolvable jobs add up to the jobs seen, and the demand signal is the number of jobs the
  policy matches, so that an unresolvable job is neither demand nor dropped.\<close>

theorem tally_conserves_jobs:
  assumes "length jobs < 2 ^ 32"
  shows "unat (total_seen (tally r jobs)) = length jobs
    \<and> unat (tally_demand (tally r jobs)) = length (filter (\<lambda>j. is_match (matches r j)) jobs)
    \<and> length (unresolvable (tally r jobs)) = length (filter (\<lambda>j. is_unresolvable (matches r j)) jobs)"
proof -
  have "length (filter (\<lambda>j. is_match (matches r j)) jobs) < 2 ^ 32"
    using assms le_less_trans [OF length_filter_le] by blast
  moreover have "tally_demand (tally r jobs) = of_nat (length (filter (\<lambda>j. is_match (matches r j)) jobs))"
      "length (unresolvable (tally r jobs)) = length (filter (\<lambda>j. is_unresolvable (matches r j)) jobs)"
    by (simp_all add: tally_def tally_demand_def tally_counts empty_tally_def)
  ultimately show ?thesis using tally_seen_all [OF assms] by (simp add: unat_of_nat)
qed

theorem tally_conserves_jobs_witness:
  "unat (total_seen (tally \<lparr>rl_host_label = Label (lit ''a''), rl_additional = []\<rparr>
     [RunsOnSingle (lit ''a''), RunsOnSingle (lit ''b''), RunsOnSingle (lit ''${{ x }}'')])) = 3"
  using tally_conserves_jobs [of "[RunsOnSingle (lit ''a''), RunsOnSingle (lit ''b''), RunsOnSingle (lit ''${{ x }}'')]"
      "\<lparr>rl_host_label = Label (lit ''a''), rl_additional = []\<rparr>"] by simp

end
