(* ===== verification/Policy.thy ===== *)
theory Policy
  imports Routing
begin

text \<open>
  Policies, the second half of \<open>crates/domain/src/policy.rs\<close>: the monitor-only/autoscale mode, the
  lifecycle states and \<open>ScalePolicy\<close> with every constructor and every operation that mutates it.
  A method on \<open>&mut self\<close> takes the policy and returns it updated, so an \<open>Inl\<close> leaves the
  caller with the policy it had. The \<open>persisted\<close> and \<open>lifecycle_machine\<close> contracts are
  interpreted here, and \<open>policy_op\<close> is one arbitrary mutation, for the invariants.
\<close>

section \<open>Data\<close>

record autoscale_config =
  cfg_routing_labels :: routing_labels
  cfg_min_capacity :: u16
  cfg_max_capacity :: u16

datatype policy_mode = MonitorOnly | Autoscale autoscale_config

record scale_policy =
  policy_id :: policy_id
  policy_target :: scale_target
  policy_installation_id :: u64
  policy_host_id :: host_id
  policy_requested_host_label :: host_label
  policy_profile_name :: profile_name
  policy_mode :: policy_mode
  policy_enabled :: bool
  policy_state :: policy_state
  policy_cache_policy :: cache_policy
  policy_workspace_policy :: workspace_policy
  policy_execution_policy :: execution_policy
  policy_revision :: u64

record persisted_policy =
  pp_id :: policy_id
  pp_target :: scale_target
  pp_installation_id :: u64
  pp_host_id :: host_id
  pp_requested_host_label :: host_label
  pp_profile_name :: profile_name
  pp_routing_labels :: "routing_labels option"
  pp_min_capacity :: u16
  pp_max_capacity :: "u16 option"
  pp_enabled :: bool
  pp_state :: policy_state
  pp_cache_policy :: cache_policy
  pp_workspace_kind :: workspace_kind
  pp_workspace_root :: "local_absolute_path option"
  pp_execution_policy :: execution_policy
  pp_revision :: u64

record named_profile_spec =
  spec_requested_host_label :: host_label
  spec_os :: os
  spec_arch :: arch
  spec_profile_name :: profile_name
  spec_min_capacity :: u16
  spec_max_capacity :: u16

section \<open>Mode\<close>

definition autoscale_config_new :: "routing_labels \<Rightarrow> u16 \<Rightarrow> u16 \<Rightarrow> policy_error + autoscale_config" where
  "autoscale_config_new labels mn mx =
     (if mn > mx then Inl (InvertedCapacityRange mn mx)
      else Inr \<lparr>cfg_routing_labels = labels, cfg_min_capacity = mn, cfg_max_capacity = mx\<rparr>)"

definition autoscale_config_v1 :: "routing_labels \<Rightarrow> u16 \<Rightarrow> policy_error + autoscale_config" where
  "autoscale_config_v1 labels mx = autoscale_config_new labels 0 mx"

definition cfg_set_max_capacity :: "u16 \<Rightarrow> autoscale_config \<Rightarrow> policy_error + autoscale_config" where
  "cfg_set_max_capacity mx cfg =
     (if cfg_min_capacity cfg > mx then Inl (InvertedCapacityRange (cfg_min_capacity cfg) mx)
      else Inr (cfg\<lparr>cfg_max_capacity := mx\<rparr>))"

definition mode_autoscale :: "routing_labels \<Rightarrow> u16 \<Rightarrow> u16 \<Rightarrow> policy_error + policy_mode" where
  "mode_autoscale labels mn mx = and_then (autoscale_config_new labels mn mx) (\<lambda>cfg. Inr (Autoscale cfg))"

fun mode_from_persisted :: "routing_labels option \<Rightarrow> u16 \<Rightarrow> u16 option \<Rightarrow> policy_error + policy_mode" where
  "mode_from_persisted None mn None =
     (if mn \<noteq> 0 then Inl (MonitorOnlyWithMinCapacity mn) else Inr MonitorOnly)"
| "mode_from_persisted (Some _) mn None = Inl AutoscaleWithoutMaxCapacity"
| "mode_from_persisted None mn (Some _) = Inl AutoscaleWithoutRoutingLabels"
| "mode_from_persisted (Some labels) mn (Some mx) = mode_autoscale labels mn mx"

fun mode_routing_labels :: "policy_mode \<Rightarrow> routing_labels option" where
  "mode_routing_labels MonitorOnly = None"
| "mode_routing_labels (Autoscale cfg) = Some (cfg_routing_labels cfg)"

fun mode_min_capacity :: "policy_mode \<Rightarrow> u16" where
  "mode_min_capacity MonitorOnly = 0"
| "mode_min_capacity (Autoscale cfg) = cfg_min_capacity cfg"

fun mode_max_capacity :: "policy_mode \<Rightarrow> u16 option" where
  "mode_max_capacity MonitorOnly = None"
| "mode_max_capacity (Autoscale cfg) = Some (cfg_max_capacity cfg)"

fun is_autoscale :: "policy_mode \<Rightarrow> bool" where
  "is_autoscale MonitorOnly = False"
| "is_autoscale (Autoscale _) = True"

section \<open>Lifecycle state\<close>

definition policy_state_ALL :: "policy_state list" where
  "policy_state_ALL = [Pending, Active, Draining, Disabled, RepairRequired, AuthenticationFailed]"

definition policy_LEGAL :: "(policy_state \<times> policy_state) list" where
  "policy_LEGAL =
     [(Pending, Active), (Pending, RepairRequired), (Active, Draining), (Draining, Disabled),
      (Disabled, Pending),
      (Pending, AuthenticationFailed), (Active, AuthenticationFailed),
      (Draining, AuthenticationFailed), (Disabled, AuthenticationFailed),
      (RepairRequired, AuthenticationFailed),
      (AuthenticationFailed, Pending)]"

definition policy_can_transition_to :: "policy_state \<Rightarrow> policy_state \<Rightarrow> bool" where
  "policy_can_transition_to s s' \<longleftrightarrow> (s, s') \<in> set policy_LEGAL"

definition admits_new_runners :: "policy_state \<Rightarrow> bool" where
  "admits_new_runners s \<longleftrightarrow> s = Active"

fun policy_state_display :: "policy_state \<Rightarrow> ustr" where
  "policy_state_display Pending = lit ''pending''"
| "policy_state_display Active = lit ''active''"
| "policy_state_display Draining = lit ''draining''"
| "policy_state_display Disabled = lit ''disabled''"
| "policy_state_display RepairRequired = lit ''repair_required''"
| "policy_state_display AuthenticationFailed = lit ''authentication_failed''"

section \<open>Constructors\<close>

definition new_for_host_label ::
  "policy_id \<Rightarrow> scale_target \<Rightarrow> u64 \<Rightarrow> host_id \<Rightarrow> host_label \<Rightarrow> policy_mode \<Rightarrow> cache_policy \<Rightarrow> scale_policy" where
  "new_for_host_label i target inst host requested m cache =
     \<lparr>policy_id = i, policy_target = target, policy_installation_id = inst, policy_host_id = host,
      policy_requested_host_label = requested, policy_profile_name = default_profile,
      policy_mode = m, policy_enabled = False, policy_state = Pending, policy_cache_policy = cache,
      policy_workspace_policy = EphemeralPolicy, policy_execution_policy = NativePolicy,
      policy_revision = 0\<rparr>"

text \<open>\<open>None\<close> is the \<open>expect\<close> on the compatibility host label.\<close>

definition policy_new ::
  "policy_id \<Rightarrow> scale_target \<Rightarrow> u64 \<Rightarrow> host_id \<Rightarrow> policy_mode \<Rightarrow> cache_policy \<Rightarrow> scale_policy option" where
  "policy_new i target inst host m cache =
     map_option (\<lambda>h. new_for_host_label i target inst host h m cache)
       (result_ok (host_label_new (lit ''host'')))"

text \<open>The outer \<open>None\<close> of the two operations that derive a selector is the \<open>expect\<close> inside
  \<open>derive_for_profile\<close>.\<close>

definition new_named ::
  "policy_id \<Rightarrow> scale_target \<Rightarrow> u64 \<Rightarrow> host_id \<Rightarrow> named_profile_spec \<Rightarrow> cache_policy
   \<Rightarrow> (policy_error + scale_policy) option" where
  "new_named i target inst host spec cache =
     (if profile_is_default (spec_profile_name spec) then Some (Inl NamedConstructorForDefault)
      else map_option (\<lambda>labels.
        and_then (mode_autoscale labels (spec_min_capacity spec) (spec_max_capacity spec)) (\<lambda>m.
        Inr ((new_for_host_label i target inst host (spec_requested_host_label spec) m cache)
             \<lparr>policy_profile_name := spec_profile_name spec\<rparr>)))
        (derive_for_profile (spec_requested_host_label spec) (spec_os spec) (spec_arch spec)
           (spec_profile_name spec)))"

definition new_named_monitor ::
  "policy_id \<Rightarrow> scale_target \<Rightarrow> u64 \<Rightarrow> host_id \<Rightarrow> host_label \<Rightarrow> profile_name \<Rightarrow> cache_policy
   \<Rightarrow> policy_error + scale_policy" where
  "new_named_monitor i target inst host requested profile cache =
     (if profile_is_default profile then Inl NamedConstructorForDefault
      else Inr ((new_for_host_label i target inst host requested MonitorOnly cache)
                \<lparr>policy_profile_name := profile\<rparr>))"

definition policy_from_persisted :: "persisted_policy \<Rightarrow> policy_error + scale_policy" where
  "policy_from_persisted f =
     and_then (mode_from_persisted (pp_routing_labels f) (pp_min_capacity f) (pp_max_capacity f)) (\<lambda>m.
     if \<not> profile_is_default (pp_profile_name f)
        \<and> (case mode_routing_labels m of
             Some labels \<Rightarrow> \<not> ends_with (label_str (rl_host_label labels))
                               (lit ''-'' @ profile_name_str (pp_profile_name f))
           | None \<Rightarrow> False)
     then Inl InvalidProfileSelector
     else
     and_then (map_err WorkspaceRefused
       (workspace_policy_from_persisted (pp_workspace_kind f) (pp_workspace_root f) (scope (pp_target f)))) (\<lambda>w.
     and_then (map_err ExecutionRefused
       (execution_policy_validate (pp_execution_policy f) (scope (pp_target f)) w)) (\<lambda>_.
     Inr \<lparr>policy_id = pp_id f, policy_target = pp_target f, policy_installation_id = pp_installation_id f,
          policy_host_id = pp_host_id f, policy_requested_host_label = pp_requested_host_label f,
          policy_profile_name = pp_profile_name f, policy_mode = m, policy_enabled = pp_enabled f,
          policy_state = pp_state f, policy_cache_policy = pp_cache_policy f,
          policy_workspace_policy = w, policy_execution_policy = pp_execution_policy f,
          policy_revision = pp_revision f\<rparr>)))"

definition policy_to_persisted :: "scale_policy \<Rightarrow> persisted_policy" where
  "policy_to_persisted p =
     \<lparr>pp_id = policy_id p, pp_target = policy_target p, pp_installation_id = policy_installation_id p,
      pp_host_id = policy_host_id p, pp_requested_host_label = policy_requested_host_label p,
      pp_profile_name = policy_profile_name p,
      pp_routing_labels = mode_routing_labels (policy_mode p),
      pp_min_capacity = mode_min_capacity (policy_mode p),
      pp_max_capacity = mode_max_capacity (policy_mode p),
      pp_enabled = policy_enabled p, pp_state = policy_state p,
      pp_cache_policy = policy_cache_policy p,
      pp_workspace_kind = workspace_policy_kind (policy_workspace_policy p),
      pp_workspace_root = workspace_policy_root (policy_workspace_policy p),
      pp_execution_policy = policy_execution_policy p, pp_revision = policy_revision p\<rparr>"

section \<open>Mutations\<close>

definition bump :: "scale_policy \<Rightarrow> scale_policy" where
  "bump p = p\<lparr>policy_revision := saturating_add (policy_revision p) 1\<rparr>"

definition set_execution_policy :: "execution_policy \<Rightarrow> scale_policy \<Rightarrow> policy_error + scale_policy" where
  "set_execution_policy e p =
     and_then (map_err ExecutionRefused
       (execution_policy_validate e (scope (policy_target p)) (policy_workspace_policy p))) (\<lambda>_.
     if policy_execution_policy p \<noteq> e then Inr (bump (p\<lparr>policy_execution_policy := e\<rparr>)) else Inr p)"

definition set_workspace_policy :: "workspace_policy \<Rightarrow> scale_policy \<Rightarrow> policy_error + scale_policy" where
  "set_workspace_policy w p =
     and_then (map_err WorkspaceRefused (permitted_for w (scope (policy_target p)))) (\<lambda>_.
     and_then (map_err ExecutionRefused
       (execution_policy_validate (policy_execution_policy p) (scope (policy_target p)) w)) (\<lambda>_.
     if policy_workspace_policy p \<noteq> w then Inr (bump (p\<lparr>policy_workspace_policy := w\<rparr>)) else Inr p))"

definition is_owned_by :: "scale_policy \<Rightarrow> host_id \<Rightarrow> bool" where
  "is_owned_by p h \<longleftrightarrow> policy_host_id p = h"

definition owns_runners :: "scale_policy \<Rightarrow> bool" where
  "owns_runners p = is_autoscale (policy_mode p)"

definition may_start_runners :: "scale_policy \<Rightarrow> bool" where
  "may_start_runners p \<longleftrightarrow>
     is_autoscale (policy_mode p) \<and> policy_enabled p \<and> admits_new_runners (policy_state p)"

definition transition_to :: "policy_state \<Rightarrow> scale_policy \<Rightarrow> policy_error + scale_policy" where
  "transition_to next p =
     (if \<not> policy_can_transition_to (policy_state p) next
      then Inl (IllegalTransition (policy_state p) next)
      else Inr (bump (p\<lparr>policy_state := next\<rparr>)))"

definition can_activate :: "scale_policy \<Rightarrow> bool" where
  "can_activate p = policy_can_transition_to (policy_state p) Active"

definition can_request_disable :: "scale_policy \<Rightarrow> bool" where
  "can_request_disable p = policy_can_transition_to (policy_state p) Draining"

definition activate :: "scale_policy \<Rightarrow> policy_error + scale_policy" where
  "activate p = and_then (transition_to Active p) (\<lambda>p. Inr (p\<lparr>policy_enabled := True\<rparr>))"

definition request_disable :: "scale_policy \<Rightarrow> policy_error + scale_policy" where
  "request_disable p = and_then (transition_to Draining p) (\<lambda>p. Inr (p\<lparr>policy_enabled := False\<rparr>))"

definition drain_completed :: "u16 \<Rightarrow> scale_policy \<Rightarrow> policy_error + scale_policy" where
  "drain_completed active_attempts p =
     (if policy_state p \<noteq> Draining then Inl (IllegalTransition (policy_state p) Disabled)
      else if active_attempts = 0 then transition_to Disabled p
      else Inr p)"

definition authentication_failed :: "scale_policy \<Rightarrow> policy_error + scale_policy" where
  "authentication_failed p = transition_to AuthenticationFailed p"

definition reauthenticated :: "scale_policy \<Rightarrow> policy_error + scale_policy" where
  "reauthenticated p = transition_to Pending p"

definition repair_required :: "scale_policy \<Rightarrow> policy_error + scale_policy" where
  "repair_required p = transition_to RepairRequired p"

definition promote_to_autoscale :: "routing_labels \<Rightarrow> u16 \<Rightarrow> u16 \<Rightarrow> scale_policy \<Rightarrow> policy_error + scale_policy" where
  "promote_to_autoscale labels mn mx p =
     (if \<not> profile_is_default (policy_profile_name p) then Inl NamedProfileNeedsDerivedSelector
      else if is_autoscale (policy_mode p) then Inl AlreadyAutoscale
      else and_then (mode_autoscale labels mn mx) (\<lambda>m. Inr (bump (p\<lparr>policy_mode := m\<rparr>))))"

definition promote_named_to_autoscale ::
  "os \<Rightarrow> arch \<Rightarrow> u16 \<Rightarrow> u16 \<Rightarrow> scale_policy \<Rightarrow> (policy_error + scale_policy) option" where
  "promote_named_to_autoscale o' a mn mx p =
     (if profile_is_default (policy_profile_name p) then Some (Inl NamedConstructorForDefault)
      else if is_autoscale (policy_mode p) then Some (Inl AlreadyAutoscale)
      else map_option (\<lambda>labels.
        and_then (mode_autoscale labels mn mx) (\<lambda>m. Inr (bump (p\<lparr>policy_mode := m\<rparr>))))
        (derive_for_profile (policy_requested_host_label p) o' a (policy_profile_name p)))"

definition set_max_capacity :: "u16 \<Rightarrow> scale_policy \<Rightarrow> policy_error + scale_policy" where
  "set_max_capacity mx p =
     (case policy_mode p of
        MonitorOnly \<Rightarrow> Inl NotAutoscale
      | Autoscale cfg \<Rightarrow>
          and_then (cfg_set_max_capacity mx cfg) (\<lambda>cfg. Inr (bump (p\<lparr>policy_mode := Autoscale cfg\<rparr>))))"

definition add_routing_label :: "label \<Rightarrow> scale_policy \<Rightarrow> policy_error + bool \<times> scale_policy" where
  "add_routing_label l p =
     (case policy_mode p of
        MonitorOnly \<Rightarrow> Inl NotAutoscale
      | Autoscale cfg \<Rightarrow>
          (let (added, labels) = rl_add l (cfg_routing_labels cfg);
               p' = p\<lparr>policy_mode := Autoscale (cfg\<lparr>cfg_routing_labels := labels\<rparr>)\<rparr>
           in Inr (added, if added then bump p' else p')))"

definition remove_routing_label :: "label \<Rightarrow> scale_policy \<Rightarrow> policy_error + bool \<times> scale_policy" where
  "remove_routing_label l p =
     (case policy_mode p of
        MonitorOnly \<Rightarrow> Inl NotAutoscale
      | Autoscale cfg \<Rightarrow>
          and_then (rl_remove l (cfg_routing_labels cfg)) (\<lambda>(removed, labels).
          let p' = p\<lparr>policy_mode := Autoscale (cfg\<lparr>cfg_routing_labels := labels\<rparr>)\<rparr>
          in Inr (removed, if removed then bump p' else p')))"

definition policy_tally :: "scale_policy \<Rightarrow> runs_on list \<Rightarrow> demand_tally" where
  "policy_tally p jobs =
     (case mode_routing_labels (policy_mode p) of
        Some labels \<Rightarrow> tally labels jobs
      | None \<Rightarrow> empty_tally)"

section \<open>One arbitrary mutation\<close>

datatype policy_op =
    OpSetExecution execution_policy
  | OpSetWorkspace workspace_policy
  | OpTransition policy_state
  | OpActivate
  | OpRequestDisable
  | OpDrainCompleted u16
  | OpAuthenticationFailed
  | OpReauthenticated
  | OpRepairRequired
  | OpPromote routing_labels u16 u16
  | OpPromoteNamed os arch u16 u16
  | OpSetMaxCapacity u16
  | OpAddLabel label
  | OpRemoveLabel label

fun apply_op :: "policy_op \<Rightarrow> scale_policy \<Rightarrow> (policy_error + scale_policy) option" where
  "apply_op (OpSetExecution e) p = Some (set_execution_policy e p)"
| "apply_op (OpSetWorkspace w) p = Some (set_workspace_policy w p)"
| "apply_op (OpTransition s) p = Some (transition_to s p)"
| "apply_op OpActivate p = Some (activate p)"
| "apply_op OpRequestDisable p = Some (request_disable p)"
| "apply_op (OpDrainCompleted n) p = Some (drain_completed n p)"
| "apply_op OpAuthenticationFailed p = Some (authentication_failed p)"
| "apply_op OpReauthenticated p = Some (reauthenticated p)"
| "apply_op OpRepairRequired p = Some (repair_required p)"
| "apply_op (OpPromote labels mn mx) p = Some (promote_to_autoscale labels mn mx p)"
| "apply_op (OpPromoteNamed o' a mn mx) p = promote_named_to_autoscale o' a mn mx p"
| "apply_op (OpSetMaxCapacity mx) p = Some (set_max_capacity mx p)"
| "apply_op (OpAddLabel l) p = Some (and_then (add_routing_label l p) (\<lambda>(_, p'). Inr p'))"
| "apply_op (OpRemoveLabel l) p = Some (and_then (remove_routing_label l p) (\<lambda>(_, p'). Inr p'))"

lemmas policy_op_defs = set_execution_policy_def set_workspace_policy_def transition_to_def
  activate_def request_disable_def drain_completed_def authentication_failed_def
  reauthenticated_def repair_required_def promote_to_autoscale_def promote_named_to_autoscale_def
  set_max_capacity_def add_routing_label_def remove_routing_label_def
  mode_autoscale_def autoscale_config_new_def cfg_set_max_capacity_def bump_def

text \<open>What the argument types of an operation already guarantee: a \<open>NonZeroU16\<close> ceiling and
  labels built through their constructors.\<close>

fun op_wf :: "policy_op \<Rightarrow> bool" where
  "op_wf (OpPromote labels mn mx) \<longleftrightarrow> routing_labels_wf labels \<and> mx \<noteq> 0"
| "op_wf (OpPromoteNamed o' a mn mx) \<longleftrightarrow> mx \<noteq> 0"
| "op_wf (OpSetMaxCapacity mx) \<longleftrightarrow> mx \<noteq> 0"
| "op_wf (OpAddLabel l) \<longleftrightarrow> label_wf l"
| "op_wf _ \<longleftrightarrow> True"

section \<open>Invariants\<close>

definition selector_ok :: "profile_name \<Rightarrow> policy_mode \<Rightarrow> bool" where
  "selector_ok profile m \<longleftrightarrow>
     (\<forall>labels. mode_routing_labels m = Some labels \<longrightarrow> profile_is_default profile
        \<or> ends_with (label_str (rl_host_label labels)) (lit ''-'' @ profile_name_str profile))"

definition policy_storable :: "scale_policy \<Rightarrow> bool" where
  "policy_storable p \<longleftrightarrow>
     (\<forall>cfg. policy_mode p = Autoscale cfg \<longrightarrow> cfg_min_capacity cfg \<le> cfg_max_capacity cfg)
     \<and> selector_ok (policy_profile_name p) (policy_mode p)
     \<and> permitted_for (policy_workspace_policy p) (scope (policy_target p)) = Inr ()
     \<and> execution_policy_validate (policy_execution_policy p) (scope (policy_target p))
          (policy_workspace_policy p) = Inr ()"

definition policy_wf :: "scale_policy \<Rightarrow> bool" where
  "policy_wf p \<longleftrightarrow>
     policy_storable p
     \<and> slug_wf HOST_LABEL_MAX_LEN (host_label_str (policy_requested_host_label p))
     \<and> slug_wf PROFILE_NAME_MAX_LEN (profile_name_str (policy_profile_name p))
     \<and> (\<forall>cfg. policy_mode p = Autoscale cfg \<longrightarrow>
          cfg_max_capacity cfg \<noteq> 0 \<and> routing_labels_wf (cfg_routing_labels cfg))"

lemma mode_from_persisted_iff:
  "mode_from_persisted labels mn mx = Inr m \<longleftrightarrow>
     labels = mode_routing_labels m \<and> mn = mode_min_capacity m \<and> mx = mode_max_capacity m
     \<and> (\<forall>cfg. m = Autoscale cfg \<longrightarrow> cfg_min_capacity cfg \<le> cfg_max_capacity cfg)"
  by (cases labels; cases mx; cases m)
    (auto simp: mode_autoscale_def autoscale_config_new_def not_less)

interpretation policy_row: persisted policy_to_persisted policy_from_persisted policy_storable
proof unfold_locales
  fix v
  assume st: "policy_storable v"
  have w: "workspace_policy_from_persisted (workspace_policy_kind (policy_workspace_policy v))
      (workspace_policy_root (policy_workspace_policy v)) (scope (policy_target v)) = Inr (policy_workspace_policy v)"
    using st workspace_policy.load_store [of "policy_workspace_policy v" "scope (policy_target v)"]
    by (simp add: policy_storable_def)
  have m: "mode_from_persisted (mode_routing_labels (policy_mode v)) (mode_min_capacity (policy_mode v))
      (mode_max_capacity (policy_mode v)) = Inr (policy_mode v)"
    using st by (auto simp: mode_from_persisted_iff policy_storable_def)
  show "policy_from_persisted (policy_to_persisted v) = Inr v"
    using st w m
    by (auto simp: policy_from_persisted_def policy_to_persisted_def policy_storable_def selector_ok_def
        split: option.splits)
next
  fix f v
  assume "policy_from_persisted f = Inr v"
  then obtain m w where
    m: "mode_from_persisted (pp_routing_labels f) (pp_min_capacity f) (pp_max_capacity f) = Inr m"
    and sel: "selector_ok (pp_profile_name f) m"
    and w: "workspace_policy_from_persisted (pp_workspace_kind f) (pp_workspace_root f) (scope (pp_target f)) = Inr w"
    and e: "execution_policy_validate (pp_execution_policy f) (scope (pp_target f)) w = Inr ()"
    and v: "policy_id v = pp_id f" "policy_target v = pp_target f"
      "policy_installation_id v = pp_installation_id f" "policy_host_id v = pp_host_id f"
      "policy_requested_host_label v = pp_requested_host_label f"
      "policy_profile_name v = pp_profile_name f" "policy_mode v = m" "policy_enabled v = pp_enabled f"
      "policy_state v = pp_state f" "policy_cache_policy v = pp_cache_policy f"
      "policy_workspace_policy v = w" "policy_execution_policy v = pp_execution_policy f"
      "policy_revision v = pp_revision f"
    by (auto simp: policy_from_persisted_def selector_ok_def split: if_splits option.splits)
  note w' = workspace_policy.load_storable [of "scope (pp_target f)" "(pp_workspace_kind f, pp_workspace_root f)" w]
    workspace_policy.store_load [of "scope (pp_target f)" "(pp_workspace_kind f, pp_workspace_root f)" w]
  show "policy_storable v"
    using m sel w e w' v by (auto simp: policy_storable_def mode_from_persisted_iff)
  show "policy_to_persisted v = f"
    using m w w' v by (simp add: policy_to_persisted_def mode_from_persisted_iff)
qed

interpretation policy_life: lifecycle_machine policy_LEGAL policy_state "\<lambda>_::unit. transition_to"
  by unfold_locales (auto simp: transition_to_def policy_can_transition_to_def bump_def split: if_splits)

lemma ends_with_append [simp]: "ends_with (a @ b) b"
  by (simp add: ends_with_def)

lemma derive_for_profile_selector:
  assumes "slug_wf HOST_LABEL_MAX_LEN (host_label_str h)" "slug_wf PROFILE_NAME_MAX_LEN (profile_name_str p)"
  obtains labels where "derive_for_profile h o' a p = Some labels" "routing_labels_wf labels"
    "ends_with (label_str (rl_host_label labels)) (lit ''-'' @ profile_name_str p)"
proof -
  obtain l where l: "label_new (derived_text h o' a @ lit ''-'' @ profile_name_str p) = Inr l"
    using derive_for_profile_eq [OF assms, of o' a]
    by (cases "label_new (derived_text h o' a @ lit ''-'' @ profile_name_str p)")
      (auto simp: derive_for_profile_def)
  then have "label_wf l" by (simp add: label_new_iff)
  then have "routing_labels_wf (from_host_label l)"
    unfolding from_host_label_def by (rule from_parts_wf) simp
  moreover have "derive_for_profile h o' a p = Some (from_host_label l)"
    using l by (simp add: derive_for_profile_def)
  moreover have "ends_with (label_str (rl_host_label (from_host_label l))) (lit ''-'' @ profile_name_str p)"
    using derive_for_profile_eq [OF assms, of o' a] calculation(2)
    using ends_with_append [of "derived_text h o' a" "lit ''-'' @ profile_name_str p"] by auto
  ultimately show ?thesis using that by blast
qed

text \<open>The fields an operation can change, and what it needs of them to keep the invariant.\<close>

lemma policy_wf_mode:
  assumes "policy_wf p" "cfg_min_capacity cfg \<le> cfg_max_capacity cfg" "cfg_max_capacity cfg \<noteq> 0"
    "routing_labels_wf (cfg_routing_labels cfg)" "selector_ok (policy_profile_name p) (Autoscale cfg)"
  shows "policy_wf (p\<lparr>policy_mode := Autoscale cfg\<rparr>)"
  using assms by (simp add: policy_wf_def policy_storable_def)

lemma policy_wf_frame [simp]:
  "policy_wf (p\<lparr>policy_state := s\<rparr>) = policy_wf p"
  "policy_wf (p\<lparr>policy_enabled := b\<rparr>) = policy_wf p"
  "policy_wf (bump p) = policy_wf p"
  by (simp_all add: policy_wf_def policy_storable_def bump_def)

lemma selector_ok_same_host:
  "selector_ok profile (Autoscale cfg) \<Longrightarrow> rl_host_label (cfg_routing_labels cfg') = rl_host_label (cfg_routing_labels cfg)
   \<Longrightarrow> selector_ok profile (Autoscale cfg')"
  by (simp add: selector_ok_def)

lemma transition_to_wf: "policy_wf p \<Longrightarrow> transition_to s p = Inr p' \<Longrightarrow> policy_wf p'"
  by (auto simp: transition_to_def split: if_splits)

lemma promote_wf:
  assumes "policy_wf p" "promote_to_autoscale labels mn mx p = Inr p'" "routing_labels_wf labels" "mx \<noteq> 0"
  shows "policy_wf p'"
  using assms
  by (auto simp: promote_to_autoscale_def mode_autoscale_def autoscale_config_new_def not_less
      selector_ok_def intro!: policy_wf_mode split: if_splits)

lemma promote_named_wf:
  assumes wf: "policy_wf p" and "mx \<noteq> 0"
  shows "\<exists>r. promote_named_to_autoscale o' a mn mx p = Some r \<and> (\<forall>p'. r = Inr p' \<longrightarrow> policy_wf p')"
proof -
  obtain labels where d: "derive_for_profile (policy_requested_host_label p) o' a (policy_profile_name p) = Some labels"
    and "routing_labels_wf labels"
      "ends_with (label_str (rl_host_label labels)) (lit ''-'' @ profile_name_str (policy_profile_name p))"
    using derive_for_profile_selector wf unfolding policy_wf_def by blast
  then show ?thesis
    using assms
    by (auto simp: promote_named_to_autoscale_def d mode_autoscale_def autoscale_config_new_def not_less
        selector_ok_def intro!: policy_wf_mode split: if_splits)
qed

lemma set_max_capacity_wf:
  assumes "policy_wf p" "set_max_capacity mx p = Inr p'" "mx \<noteq> 0"
  shows "policy_wf p'"
  using assms
  by (auto simp: set_max_capacity_def cfg_set_max_capacity_def policy_wf_def policy_storable_def
      bump_def not_less selector_ok_def split: policy_mode.splits if_splits)

lemma add_label_wf:
  assumes "policy_wf p" "add_routing_label l p = Inr (b, p')" "label_wf l"
  shows "policy_wf p'"
proof -
  obtain cfg where m: "policy_mode p = Autoscale cfg"
    using assms(2) by (cases "policy_mode p") (auto simp: add_routing_label_def)
  let ?p = "p\<lparr>policy_mode := Autoscale (cfg\<lparr>cfg_routing_labels := snd (rl_add l (cfg_routing_labels cfg))\<rparr>)\<rparr>"
  have "policy_wf ?p"
    using assms(1,3) m
    by (intro policy_wf_mode) (auto simp: policy_wf_def policy_storable_def rl_add_wf
        intro: selector_ok_same_host [of _ cfg])
  moreover have "p' = ?p \<or> p' = bump ?p"
    using assms(2) m by (auto simp: add_routing_label_def Let_def split: prod.splits if_splits)
  ultimately show ?thesis by auto
qed

lemma remove_label_wf:
  assumes "policy_wf p" "remove_routing_label l p = Inr (b, p')"
  shows "policy_wf p'"
proof -
  obtain cfg labels where m: "policy_mode p = Autoscale cfg"
    and r: "rl_remove l (cfg_routing_labels cfg) = Inr (b, labels)"
    and p': "p' = p\<lparr>policy_mode := Autoscale (cfg\<lparr>cfg_routing_labels := labels\<rparr>)\<rparr>
      \<or> p' = bump (p\<lparr>policy_mode := Autoscale (cfg\<lparr>cfg_routing_labels := labels\<rparr>)\<rparr>)"
    using assms(2) by (cases "policy_mode p") (auto simp: remove_routing_label_def Let_def)
  have "policy_wf (p\<lparr>policy_mode := Autoscale (cfg\<lparr>cfg_routing_labels := labels\<rparr>)\<rparr>)"
    using assms(1) m rl_remove_wf [OF _ r] rl_remove_host [OF r]
    by (intro policy_wf_mode) (auto simp: policy_wf_def policy_storable_def
        intro: selector_ok_same_host [of _ cfg])
  then show ?thesis using p' by auto
qed

lemma set_workspace_execution_wf:
  "policy_wf p \<Longrightarrow> set_workspace_policy w p = Inr p' \<Longrightarrow> policy_wf p'"
  "policy_wf p \<Longrightarrow> set_execution_policy e p = Inr p' \<Longrightarrow> policy_wf p'"
  by (auto simp: set_workspace_policy_def set_execution_policy_def policy_wf_def policy_storable_def
      bump_def split: if_splits)

lemma apply_op_wf:
  assumes "policy_wf p" "op_wf op"
  shows "\<exists>r. apply_op op p = Some r \<and> (\<forall>p'. r = Inr p' \<longrightarrow> policy_wf p')"
  using assms transition_to_wf [OF assms(1)] promote_wf [OF assms(1)] promote_named_wf [OF assms(1)]
    set_max_capacity_wf [OF assms(1)] add_label_wf [OF assms(1)] remove_label_wf [OF assms(1)]
    set_workspace_execution_wf [OF assms(1)]
  by (cases op) (auto simp: activate_def request_disable_def drain_completed_def authentication_failed_def
      reauthenticated_def repair_required_def)

section \<open>Reachable policies\<close>

text \<open>What the argument types of the constructors guarantee.\<close>

fun mode_wf :: "policy_mode \<Rightarrow> bool" where
  "mode_wf MonitorOnly \<longleftrightarrow> True"
| "mode_wf (Autoscale cfg) \<longleftrightarrow> cfg_min_capacity cfg \<le> cfg_max_capacity cfg \<and> cfg_max_capacity cfg \<noteq> 0
     \<and> routing_labels_wf (cfg_routing_labels cfg)"

text \<open>Every policy a process can hold that built it through a constructor and changed it through
  the mutations, a refused one leaving it as it was.\<close>

inductive policy_reachable :: "scale_policy \<Rightarrow> bool" where
  reach_new: "mode_wf m \<Longrightarrow> slug_wf HOST_LABEL_MAX_LEN (host_label_str h) \<Longrightarrow>
     policy_reachable (new_for_host_label i target inst host h m cache)"
| reach_named: "slug_wf HOST_LABEL_MAX_LEN (host_label_str (spec_requested_host_label spec)) \<Longrightarrow>
     slug_wf PROFILE_NAME_MAX_LEN (profile_name_str (spec_profile_name spec)) \<Longrightarrow>
     spec_max_capacity spec \<noteq> 0 \<Longrightarrow>
     new_named i target inst host spec cache = Some (Inr p) \<Longrightarrow> policy_reachable p"
| reach_monitor: "slug_wf HOST_LABEL_MAX_LEN (host_label_str h) \<Longrightarrow>
     slug_wf PROFILE_NAME_MAX_LEN (profile_name_str profile) \<Longrightarrow>
     new_named_monitor i target inst host h profile cache = Inr p \<Longrightarrow> policy_reachable p"
| reach_op: "policy_reachable p \<Longrightarrow> op_wf op \<Longrightarrow> apply_op op p = Some (Inr p') \<Longrightarrow> policy_reachable p'"

lemma default_profile_wf [simp]:
  "slug_wf PROFILE_NAME_MAX_LEN (profile_name_str default_profile)" "profile_is_default default_profile"
  by (simp_all add: default_profile_def slug_wf_def PROFILE_NAME_MAX_LEN_def slug_char_def str_defs
      profile_is_default_def)

lemma permitted_ephemeral [simp]: "permitted_for EphemeralPolicy sc = Inr ()"
  by (cases sc) (simp_all add: workspace_policy_is_persistent_def kind_is_persistent_def)

lemma new_for_host_label_wf:
  "mode_wf m \<Longrightarrow> slug_wf HOST_LABEL_MAX_LEN (host_label_str h) \<Longrightarrow>
   policy_wf (new_for_host_label i target inst host h m cache)"
  by (cases m) (auto simp: new_for_host_label_def policy_wf_def policy_storable_def selector_ok_def)

lemma new_named_wf:
  assumes h: "slug_wf HOST_LABEL_MAX_LEN (host_label_str (spec_requested_host_label spec))"
    and p: "slug_wf PROFILE_NAME_MAX_LEN (profile_name_str (spec_profile_name spec))"
    and mx: "spec_max_capacity spec \<noteq> 0"
  shows "\<exists>r. new_named i target inst host spec cache = Some r \<and> (\<forall>q. r = Inr q \<longrightarrow> policy_wf q)"
proof -
  obtain labels where "derive_for_profile (spec_requested_host_label spec) (spec_os spec) (spec_arch spec)
      (spec_profile_name spec) = Some labels" "routing_labels_wf labels"
      "ends_with (label_str (rl_host_label labels)) (lit ''-'' @ profile_name_str (spec_profile_name spec))"
    using derive_for_profile_selector [OF h p] by blast
  then show ?thesis
    using h p mx
    by (auto simp: new_named_def mode_autoscale_def autoscale_config_new_def new_for_host_label_def
        policy_wf_def policy_storable_def selector_ok_def not_less)
qed

lemma new_named_monitor_wf:
  "slug_wf HOST_LABEL_MAX_LEN (host_label_str h) \<Longrightarrow> slug_wf PROFILE_NAME_MAX_LEN (profile_name_str profile) \<Longrightarrow>
   new_named_monitor i target inst host h profile cache = Inr p \<Longrightarrow> policy_wf p"
  by (auto simp: new_named_monitor_def new_for_host_label_def policy_wf_def policy_storable_def
      selector_ok_def split: if_splits)

lemma reachable_wf: "policy_reachable p \<Longrightarrow> policy_wf p"
proof (induction rule: policy_reachable.induct)
  case (reach_named spec i target inst host cache p)
  then show ?case using new_named_wf [of spec i target inst host cache] by auto
next
  case (reach_op p op p')
  then show ?case using apply_op_wf [of p op] by auto
qed (auto intro: new_for_host_label_wf new_named_monitor_wf)

section \<open>Operator intent and the revision\<close>

text \<open>Only \<open>activate\<close> turns operator intent on.\<close>

lemma enabled_only_by_activate:
  assumes "apply_op op p = Some (Inr p')" "policy_enabled p'" "\<not> policy_enabled p"
  shows "op = OpActivate"
  using assms
  by (cases op) (auto simp: policy_op_defs Let_def split: if_splits policy_mode.splits prod.splits)

text \<open>A mutation leaves the policy alone or advances the revision.\<close>

lemma bts_insert_mem [simp]: "x \<in> set xs \<Longrightarrow> bts_insert x xs = xs"
  by (simp add: bts_insert_def)

lemma bts_remove_not_mem [simp]: "x \<notin> set xs \<Longrightarrow> bts_remove x xs = xs"
  by (auto simp: bts_remove_def filter_id_conv)

lemma add_label_revision:
  assumes "add_routing_label l p = Inr (b, p')"
  shows "p' = p \<or> policy_revision p' = saturating_add (policy_revision p) 1"
  using assms by (cases "policy_mode p") (auto simp: add_routing_label_def rl_add_def bump_def Let_def split: if_splits)

lemma remove_label_revision:
  assumes "remove_routing_label l p = Inr (b, p')"
  shows "p' = p \<or> policy_revision p' = saturating_add (policy_revision p) 1"
  using assms
  by (cases "policy_mode p") (auto simp: remove_routing_label_def rl_remove_def bump_def Let_def split: if_splits)

lemma apply_op_revision:
  assumes "apply_op op p = Some (Inr p')"
  shows "p' = p \<or> policy_revision p' = saturating_add (policy_revision p) 1"
  using assms
  by (cases op)
    (auto dest: add_label_revision remove_label_revision simp: set_execution_policy_def set_workspace_policy_def transition_to_def
      activate_def request_disable_def drain_completed_def authentication_failed_def
      reauthenticated_def repair_required_def promote_to_autoscale_def promote_named_to_autoscale_def
      set_max_capacity_def bump_def split: if_splits policy_mode.splits)

section \<open>Sequences of mutations\<close>

text \<open>A refused mutation returns its error and leaves the policy as it was.\<close>

definition run_op :: "policy_op \<Rightarrow> scale_policy \<Rightarrow> scale_policy" where
  "run_op op p = (case apply_op op p of Some (Inr p') \<Rightarrow> p' | _ \<Rightarrow> p)"

lemma run_op_cases: "run_op op p = p \<or> apply_op op p = Some (Inr (run_op op p))"
  by (auto simp: run_op_def split: option.splits sum.splits)

lemma run_ops_disabled:
  "OpActivate \<notin> set ops \<Longrightarrow> \<not> policy_enabled p \<Longrightarrow> \<not> policy_enabled (fold run_op ops p)"
proof (induction ops arbitrary: p)
  case (Cons op ops)
  then have "\<not> policy_enabled (run_op op p)"
    using run_op_cases [of op p] enabled_only_by_activate [of op p] by fastforce
  then show ?case using Cons by simp
qed simp

lemma rl_add_hostD: "rl_add l r = (b, r') \<Longrightarrow> rl_host_label r' = rl_host_label r"
  using rl_add_host [of l r] by simp

lemma apply_op_host_label:
  assumes "apply_op op p = Some (Inr p')" "policy_mode p = Autoscale cfg"
  shows "\<exists>cfg'. policy_mode p' = Autoscale cfg'
    \<and> rl_host_label (cfg_routing_labels cfg') = rl_host_label (cfg_routing_labels cfg)"
  using assms
  by (cases op) (auto simp: policy_op_defs Let_def dest: rl_remove_host rl_add_hostD split: if_splits prod.splits)

lemma run_ops_host_label:
  "policy_mode p = Autoscale cfg \<Longrightarrow> \<exists>cfg'. policy_mode (fold run_op ops p) = Autoscale cfg'
    \<and> rl_host_label (cfg_routing_labels cfg') = rl_host_label (cfg_routing_labels cfg)"
proof (induction ops arbitrary: p cfg)
  case (Cons op ops)
  obtain cfg1 where "policy_mode (run_op op p) = Autoscale cfg1"
    "rl_host_label (cfg_routing_labels cfg1) = rl_host_label (cfg_routing_labels cfg)"
    using run_op_cases [of op p] apply_op_host_label [of op p] Cons.prems by metis
  then show ?case using Cons.IH [of "run_op op p" cfg1] by simp
qed simp

section \<open>A concrete policy\<close>

definition fresh_policy :: scale_policy where
  "fresh_policy = new_for_host_label 7 (RepositoryTarget \<lparr>or_owner = Name (lit ''acme''), or_repo = Name (lit ''app'')\<rparr>)
     1 3 (HostLabel (lit ''home''))
     (Autoscale \<lparr>cfg_routing_labels = \<lparr>rl_host_label = Label (lit ''rm-home''), rl_additional = []\<rparr>,
        cfg_min_capacity = 0, cfg_max_capacity = 2\<rparr>) RetainRunnerPackage"

lemma fresh_policy_reachable: "policy_reachable fresh_policy"
  unfolding fresh_policy_def
  by (rule reach_new)
    (simp_all add: routing_labels_wf_def label_wf_def slug_wf_def slug_char_def LABEL_MAX_LEN_def
      HOST_LABEL_MAX_LEN_def str_defs)

section \<open>Properties\<close>

text \<open>C12. A policy survives storage exactly: loading a row gives the policy it was written from, a
  row is accepted only for a policy that satisfies the shape rules (D7, D19, the selector of a
  named profile, the execution limits), and every policy built by the constructors and changed
  by the mutations is such a policy.\<close>

theorem policy_row_exact:
  "(policy_from_persisted f = Inr p \<longleftrightarrow> policy_storable p \<and> f = policy_to_persisted p)
   \<and> (policy_reachable p \<longrightarrow> policy_storable p)"
  using policy_row.load_store policy_row.load_storable policy_row.store_load reachable_wf
  unfolding policy_wf_def by blast

theorem policy_row_exact_witness:
  "policy_from_persisted (policy_to_persisted fresh_policy) = Inr fresh_policy"
  using policy_row_exact [of "policy_to_persisted fresh_policy" fresh_policy] fresh_policy_reachable by blast

text \<open>C17. Every mutation answers without panicking and keeps the invariant of a policy: valid label
  set and selector, \<open>min_capacity\<close> at most a non-zero \<open>max_capacity\<close>, a workspace and an
  execution policy its target permits.\<close>

theorem policy_mutations_keep_invariant:
  assumes "policy_wf p" "op_wf op"
  shows "\<exists>r. apply_op op p = Some r \<and> (\<forall>p'. r = Inr p' \<longrightarrow> policy_wf p')"
  using apply_op_wf assms .

theorem policy_mutations_keep_invariant_witness:
  "\<exists>p'. apply_op (OpSetMaxCapacity 5) fresh_policy = Some (Inr p') \<and> policy_wf p'"
proof -
  have "\<exists>p'. apply_op (OpSetMaxCapacity 5) fresh_policy = Some (Inr p')"
    by (simp add: fresh_policy_def new_for_host_label_def set_max_capacity_def cfg_set_max_capacity_def)
  then show ?thesis
    using policy_mutations_keep_invariant [OF reachable_wf [OF fresh_policy_reachable], of "OpSetMaxCapacity 5"]
    by auto
qed

text \<open>The revision is an optimistic-concurrency token: a mutation that changes anything at all
  about the policy advances it by one, so a write built from a stale read is detectable (until
  the counter saturates).\<close>

theorem change_advances_revision:
  assumes "apply_op op p = Some (Inr p')" "p' \<noteq> p" "policy_revision p \<noteq> - 1"
  shows "unat (policy_revision p') = unat (policy_revision p) + 1"
proof -
  have "policy_revision p' = saturating_add (policy_revision p) 1"
    using apply_op_revision [OF assms(1)] assms(2) by blast
  moreover have "unat (policy_revision p) \<noteq> unat (- 1 :: u64)"
    using assms(3) unsigned_word_eqI [of "policy_revision p" "- 1", where ?'a = nat] by blast
  then have "unat (policy_revision p) < 2 ^ 64 - 1"
    using unsigned_less [of "policy_revision p", where ?'a = nat] by (simp add: unat_minus_1_max)
  ultimately show ?thesis by (simp add: unat_simps)
qed

theorem change_advances_revision_witness:
  "\<exists>p'. apply_op OpActivate fresh_policy = Some (Inr p') \<and> unat (policy_revision p') = 1"
proof -
  obtain p' where p': "apply_op OpActivate fresh_policy = Some (Inr p')" "policy_enabled p'"
    by (simp add: fresh_policy_def new_for_host_label_def activate_def transition_to_def
        policy_can_transition_to_def policy_LEGAL_def bump_def)
  have "p' \<noteq> fresh_policy" "policy_revision fresh_policy = 0"
    using p'(2) by (auto simp: fresh_policy_def new_for_host_label_def)
  then show ?thesis using change_advances_revision [OF p'(1)] p'(1) by simp
qed

text \<open>C18. Nothing but an explicit activation arms a host (D20): a new policy is not enabled, and
  whatever sequence of other mutations follows, it may start no runner.\<close>

theorem only_activation_arms:
  assumes "OpActivate \<notin> set ops"
  shows "\<not> may_start_runners (fold run_op ops (new_for_host_label i target inst host h m cache))"
  using run_ops_disabled [OF assms, of "new_for_host_label i target inst host h m cache"]
  by (simp add: may_start_runners_def new_for_host_label_def)

theorem only_activation_arms_witness:
  "\<not> may_start_runners (fold run_op [OpTransition Active, OpSetMaxCapacity 9] fresh_policy)"
  unfolding fresh_policy_def by (rule only_activation_arms) simp

text \<open>The host label is immovable: once a policy autoscales, no sequence of mutations removes it
  from the label set, replaces it, or takes the policy back to monitor-only.\<close>

theorem host_label_immovable:
  assumes "policy_mode p = Autoscale cfg"
  shows "\<exists>cfg'. policy_mode (fold run_op ops p) = Autoscale cfg'
    \<and> rl_host_label (cfg_routing_labels cfg') = rl_host_label (cfg_routing_labels cfg)
    \<and> rl_contains (cfg_routing_labels cfg') (rl_host_label (cfg_routing_labels cfg))"
  using run_ops_host_label [OF assms, of ops] by (auto simp: rl_contains_def)

theorem host_label_immovable_witness:
  "\<exists>cfg'. policy_mode (fold run_op [OpRemoveLabel (Label (lit ''rm-home''))] fresh_policy) = Autoscale cfg'
    \<and> rl_contains (cfg_routing_labels cfg') (Label (lit ''rm-home''))"
  using host_label_immovable [of fresh_policy _ "[OpRemoveLabel (Label (lit ''rm-home''))]"]
  by (auto simp: fresh_policy_def new_for_host_label_def)

end
