(* ===== verification/Attempt.thy ===== *)
theory Attempt
  imports Policy
begin

text \<open>
  One runner attempt, \<open>crates/domain/src/attempt.rs\<close> without recovery: the lifecycle states and
  their complete edge list, outcomes, the journalled record with its stored form, every
  operation that mutates it, ownership and the active counts. \<open>attempt_op\<close> is one arbitrary
  mutation; \<open>attempt_storable\<close> says exactly which attempts survive a journal round trip.
\<close>

section \<open>Data\<close>

datatype attempt_state =
    Allocated | Preparing | Prepared | JitReceived | Starting | Idle | Busy
  | Finished | Failed | Orphaned | Destroying | CleanupDeferred | Cleaned

datatype isolation_provider_failure =
    Unsupported | NotInstalled | PermissionDenied | ImageUnavailableOrIncompatible
  | DiskQuotaUnavailable | Degraded | RuntimeOperationFailed | OwnershipMismatch
  | UnsafeRuntimePath | JitHandoffRejected

datatype failure_reason =
    JitRequestFailed | JitExpired | RunnerPackageUnverified | RunnerVersionRejected
  | ProcessStartFailed | ProcessExitedUnexpectedly | RegistrationTimedOut
  | TerminatedAfterRegistrationTimeout | IsolationProvider isolation_provider_failure
  | WorkspaceCleanupDeferred | HostUnfit | OtherReason ustr

datatype attempt_outcome =
    CompletedJob | ExitedIdleWithoutWork | FailedWith failure_reason | OrphanedOutcome

datatype attempt_error =
    AttemptExecutionError execution_error
  | IllegalAttemptTransition attempt_state attempt_state
  | AttemptWorkspaceError workspace_error
  | BusyCannotBeCleaned
  | OutcomeUnreachable attempt_state attempt_outcome
  | TerminalWithoutOutcome attempt_state
  | NonTerminalWithOutcome attempt_state attempt_outcome
  | OutcomeStateMismatch attempt_state attempt_outcome
  | TerminalWithoutTimestamp attempt_state
  | NonTerminalWithTimestamp attempt_state
  | TimestampsOutOfOrder attempt_state ustr timestamp timestamp

datatype ownership_error =
    PolicyMismatch attempt_id policy_id policy_id
  | ForeignHost policy_id host_id host_id

record runner_attempt =
  attempt_id :: attempt_id
  attempt_policy_id :: policy_id
  github_runner_id :: "u64 option"
  attempt_state :: attempt_state
  attempt_outcome :: "attempt_outcome option"
  process_id :: "u32 option"
  attempt_execution :: attempt_execution
  runtime_path :: ustr
  attempt_workspace :: attempt_workspace
  created_at :: timestamp
  terminal_at :: "timestamp option"
  last_state_change_at :: timestamp

record persisted_attempt =
  pa_id :: attempt_id
  pa_policy_id :: policy_id
  pa_github_runner_id :: "u64 option"
  pa_state :: attempt_state
  pa_outcome :: "attempt_outcome option"
  pa_process_id :: "u32 option"
  pa_execution :: attempt_execution
  pa_runtime_path :: ustr
  pa_workspace_kind :: workspace_kind
  pa_workspace_slot :: "u16 option"
  pa_created_at :: timestamp
  pa_terminal_at :: "timestamp option"
  pa_last_state_change_at :: timestamp

section \<open>States\<close>

definition attempt_state_ALL :: "attempt_state list" where
  "attempt_state_ALL =
     [Allocated, Preparing, Prepared, JitReceived, Starting, Idle, Busy, Finished, Failed, Orphaned,
      Destroying, CleanupDeferred, Cleaned]"

definition attempt_LEGAL :: "(attempt_state \<times> attempt_state) list" where
  "attempt_LEGAL =
     [(Allocated, JitReceived), (Allocated, Preparing), (Preparing, Prepared), (Prepared, JitReceived),
      (JitReceived, Starting), (Starting, Idle), (Starting, Busy), (Idle, Busy), (Busy, Idle),
      (Allocated, Failed), (Allocated, Orphaned), (Preparing, Failed), (Preparing, Orphaned),
      (Prepared, Failed), (Prepared, Orphaned), (JitReceived, Failed), (JitReceived, Orphaned),
      (Starting, Failed), (Starting, Orphaned),
      (Idle, Finished), (Idle, Failed), (Idle, Orphaned),
      (Busy, Finished), (Busy, Failed), (Busy, Orphaned),
      (Finished, Cleaned), (Failed, Cleaned), (Orphaned, Cleaned),
      (Finished, Destroying), (Failed, Destroying), (Orphaned, Destroying),
      (Destroying, CleanupDeferred), (CleanupDeferred, Destroying), (Destroying, Cleaned)]"

definition CONCLUDABLE_FROM :: "attempt_state list" where
  "CONCLUDABLE_FROM = [Allocated, Preparing, Prepared, JitReceived, Starting, Idle, Busy]"

definition attempt_can_transition_to :: "attempt_state \<Rightarrow> attempt_state \<Rightarrow> bool" where
  "attempt_can_transition_to s s' \<longleftrightarrow> (s, s') \<in> set attempt_LEGAL"

definition is_terminal :: "attempt_state \<Rightarrow> bool" where
  "is_terminal s \<longleftrightarrow> s \<in> {Finished, Failed, Orphaned, Destroying, CleanupDeferred, Cleaned}"

definition state_counts_against_capacity :: "attempt_state \<Rightarrow> bool" where
  "state_counts_against_capacity s \<longleftrightarrow> \<not> is_terminal s"

definition is_concluded :: "attempt_state \<Rightarrow> bool" where
  "is_concluded s \<longleftrightarrow> s \<in> {Finished, Failed, Orphaned}"

fun attempt_state_display :: "attempt_state \<Rightarrow> ustr" where
  "attempt_state_display Allocated = lit ''allocated''"
| "attempt_state_display Preparing = lit ''preparing''"
| "attempt_state_display Prepared = lit ''prepared''"
| "attempt_state_display JitReceived = lit ''jit_received''"
| "attempt_state_display Starting = lit ''starting''"
| "attempt_state_display Idle = lit ''idle''"
| "attempt_state_display Busy = lit ''busy''"
| "attempt_state_display Finished = lit ''finished''"
| "attempt_state_display Failed = lit ''failed''"
| "attempt_state_display Orphaned = lit ''orphaned''"
| "attempt_state_display Destroying = lit ''destroying''"
| "attempt_state_display CleanupDeferred = lit ''cleanup_deferred''"
| "attempt_state_display Cleaned = lit ''cleaned''"

section \<open>Outcomes\<close>

fun terminal_state :: "attempt_outcome \<Rightarrow> attempt_state" where
  "terminal_state CompletedJob = Finished"
| "terminal_state ExitedIdleWithoutWork = Finished"
| "terminal_state (FailedWith _) = Failed"
| "terminal_state OrphanedOutcome = Orphaned"

fun is_failure :: "attempt_outcome \<Rightarrow> bool" where
  "is_failure (FailedWith _) = True"
| "is_failure OrphanedOutcome = True"
| "is_failure _ = False"

definition is_idle_exit :: "attempt_outcome \<Rightarrow> bool" where
  "is_idle_exit oc \<longleftrightarrow> oc = ExitedIdleWithoutWork"

definition ran_a_job :: "attempt_outcome \<Rightarrow> bool" where
  "ran_a_job oc \<longleftrightarrow> oc = CompletedJob"

fun required_from :: "attempt_outcome \<Rightarrow> attempt_state list" where
  "required_from CompletedJob = [Busy]"
| "required_from ExitedIdleWithoutWork = [Idle]"
| "required_from (FailedWith _) = CONCLUDABLE_FROM"
| "required_from OrphanedOutcome = CONCLUDABLE_FROM"

section \<open>The journalled record\<close>

definition attempt_to_persisted :: "runner_attempt \<Rightarrow> persisted_attempt" where
  "attempt_to_persisted a =
     \<lparr>pa_id = attempt_id a, pa_policy_id = attempt_policy_id a,
      pa_github_runner_id = github_runner_id a, pa_state = attempt_state a,
      pa_outcome = attempt_outcome a, pa_process_id = process_id a,
      pa_execution = attempt_execution a, pa_runtime_path = runtime_path a,
      pa_workspace_kind = attempt_workspace_kind (attempt_workspace a),
      pa_workspace_slot = workspace_slot (attempt_workspace a),
      pa_created_at = created_at a, pa_terminal_at = terminal_at a,
      pa_last_state_change_at = last_state_change_at a\<rparr>"

definition allocate_in ::
  "attempt_id \<Rightarrow> policy_id \<Rightarrow> ustr \<Rightarrow> attempt_workspace \<Rightarrow> timestamp \<Rightarrow> runner_attempt" where
  "allocate_in i policy path w now =
     \<lparr>attempt_id = i, attempt_policy_id = policy, github_runner_id = None,
      attempt_state = Allocated, attempt_outcome = None, process_id = None,
      attempt_execution = Native None, runtime_path = path, attempt_workspace = w,
      created_at = now, terminal_at = None, last_state_change_at = now\<rparr>"

definition allocate :: "attempt_id \<Rightarrow> policy_id \<Rightarrow> ustr \<Rightarrow> timestamp \<Rightarrow> runner_attempt" where
  "allocate i policy path now = allocate_in i policy path EphemeralWorkspace now"

definition identity_mismatch :: "attempt_error + 'a" where
  "identity_mismatch = Inl (AttemptExecutionError AttemptIdentityMismatch)"

text \<open>The four gates of \<open>from_persisted\<close> in source order: identity, outcome, terminal time,
  execution shape of the state, order of the timestamps.\<close>

fun check_identity :: "attempt_execution \<Rightarrow> u32 option \<Rightarrow> attempt_error + unit" where
  "check_identity (Native identity_pid) pid = (if identity_pid = pid then Inr () else identity_mismatch)"
| "check_identity (Isolated _ _ _ _) pid = (if pid = None then Inr () else identity_mismatch)"

definition check_outcome ::
  "attempt_outcome option \<Rightarrow> attempt_state \<Rightarrow> attempt_execution \<Rightarrow> attempt_error + unit" where
  "check_outcome oc s e =
     (case (oc, is_terminal s) of
        (None, True) \<Rightarrow> Inl (TerminalWithoutOutcome s)
      | (Some x, False) \<Rightarrow> Inl (NonTerminalWithOutcome s x)
      | (Some x, True) \<Rightarrow>
          (let allowed_isolated_cleanup = \<not> execution_is_native e \<and> s \<in> {Destroying, CleanupDeferred}
           in if s \<notin> {terminal_state x, Cleaned} \<and> \<not> allowed_isolated_cleanup
              then Inl (OutcomeStateMismatch s x) else Inr ())
      | (None, False) \<Rightarrow> Inr ())"

definition check_terminal_at :: "timestamp option \<Rightarrow> attempt_state \<Rightarrow> attempt_error + unit" where
  "check_terminal_at t s =
     (case (t, is_terminal s) of
        (None, True) \<Rightarrow> Inl (TerminalWithoutTimestamp s)
      | (Some _, False) \<Rightarrow> Inl (NonTerminalWithTimestamp s)
      | _ \<Rightarrow> Inr ())"

fun lacks_environment :: "attempt_execution \<Rightarrow> bool" where
  "lacks_environment (Isolated _ None _ _) = True"
| "lacks_environment _ = False"

definition check_shape :: "attempt_state \<Rightarrow> attempt_execution \<Rightarrow> attempt_error + unit" where
  "check_shape s e =
     (if s \<in> {Preparing, Prepared, Destroying, CleanupDeferred} \<and> execution_is_native e
      then identity_mismatch
      else if s \<in> {Prepared, JitReceived, Starting, Idle, Busy} \<and> lacks_environment e
      then identity_mismatch
      else Inr ())"

definition check_order ::
  "attempt_state \<Rightarrow> timestamp \<Rightarrow> timestamp option \<Rightarrow> timestamp \<Rightarrow> attempt_error + unit" where
  "check_order s created terminal changed =
     (if changed < created then Inl (TimestampsOutOfOrder s (lit ''last_state_change_at'') created changed)
      else case terminal of
          Some t \<Rightarrow> (if t < created then Inl (TimestampsOutOfOrder s (lit ''terminal_at'') created t) else Inr ())
        | None \<Rightarrow> Inr ())"

definition attempt_from_persisted :: "persisted_attempt \<Rightarrow> attempt_error + runner_attempt" where
  "attempt_from_persisted f =
     and_then (map_err AttemptWorkspaceError
       (attempt_workspace_from_persisted (pa_workspace_kind f) (pa_workspace_slot f))) (\<lambda>w.
     and_then (map_err AttemptExecutionError (execution_validate (pa_execution f))) (\<lambda>_.
     and_then (check_identity (pa_execution f) (pa_process_id f)) (\<lambda>_.
     and_then (check_outcome (pa_outcome f) (pa_state f) (pa_execution f)) (\<lambda>_.
     and_then (check_terminal_at (pa_terminal_at f) (pa_state f)) (\<lambda>_.
     and_then (check_shape (pa_state f) (pa_execution f)) (\<lambda>_.
     and_then (check_order (pa_state f) (pa_created_at f) (pa_terminal_at f) (pa_last_state_change_at f)) (\<lambda>_.
     Inr \<lparr>attempt_id = pa_id f, attempt_policy_id = pa_policy_id f,
          github_runner_id = pa_github_runner_id f, attempt_state = pa_state f,
          attempt_outcome = pa_outcome f, process_id = pa_process_id f,
          attempt_execution = pa_execution f, runtime_path = pa_runtime_path f,
          attempt_workspace = w, created_at = pa_created_at f, terminal_at = pa_terminal_at f,
          last_state_change_at = pa_last_state_change_at f\<rparr>)))))))"

section \<open>Operations\<close>

definition allocate_execution :: "attempt_execution \<Rightarrow> runner_attempt \<Rightarrow> attempt_error + runner_attempt" where
  "allocate_execution e a =
     (if attempt_state a \<noteq> Allocated \<or> process_id a \<noteq> None then identity_mismatch
      else and_then (map_err AttemptExecutionError (execution_validate e)) (\<lambda>_.
        case e of
          Native (Some _) \<Rightarrow> identity_mismatch
        | _ \<Rightarrow> Inr (a\<lparr>attempt_execution := e\<rparr>)))"

definition prepared_environment :: "ustr \<Rightarrow> runner_attempt \<Rightarrow> attempt_error + runner_attempt" where
  "prepared_environment i a =
     (if attempt_state a \<notin> {Allocated, Preparing, Failed, Orphaned, Destroying, CleanupDeferred}
      then identity_mismatch
      else case attempt_execution a of
          Native _ \<Rightarrow> identity_mismatch
        | Isolated provider stored img generation \<Rightarrow>
            (if stored \<noteq> None then identity_mismatch
             else
               (let e = Isolated provider (Some i) img generation in
                and_then (map_err AttemptExecutionError (execution_validate e)) (\<lambda>_.
                Inr (a\<lparr>attempt_execution := e\<rparr>)))))"

definition move_to :: "attempt_state \<Rightarrow> timestamp \<Rightarrow> runner_attempt \<Rightarrow> attempt_error + runner_attempt" where
  "move_to s now a =
     (if \<not> attempt_can_transition_to (attempt_state a) s
      then Inl (IllegalAttemptTransition (attempt_state a) s)
      else Inr (a\<lparr>attempt_state := s, last_state_change_at := now\<rparr>))"

fun has_environment :: "attempt_execution \<Rightarrow> bool" where
  "has_environment (Isolated _ (Some _) _ _) = True"
| "has_environment _ = False"

definition begin_prepare :: "timestamp \<Rightarrow> runner_attempt \<Rightarrow> attempt_error + runner_attempt" where
  "begin_prepare now a =
     (if execution_is_native (attempt_execution a) then identity_mismatch else move_to Preparing now a)"

definition mark_prepared :: "timestamp \<Rightarrow> runner_attempt \<Rightarrow> attempt_error + runner_attempt" where
  "mark_prepared now a =
     (if \<not> has_environment (attempt_execution a) then identity_mismatch else move_to Prepared now a)"

definition holds_slot_lease :: "runner_attempt \<Rightarrow> bool" where
  "holds_slot_lease a \<longleftrightarrow>
     attempt_workspace_is_persistent (attempt_workspace a) \<and> attempt_state a \<noteq> Cleaned"

definition counts_against_capacity :: "runner_attempt \<Rightarrow> bool" where
  "counts_against_capacity a \<longleftrightarrow>
     state_counts_against_capacity (attempt_state a)
     \<or> (\<not> execution_is_native (attempt_execution a) \<and> attempt_state a \<noteq> Cleaned)"

definition jit_received :: "timestamp \<Rightarrow> runner_attempt \<Rightarrow> attempt_error + runner_attempt" where
  "jit_received now a = move_to JitReceived now a"

definition started :: "u32 \<Rightarrow> timestamp \<Rightarrow> runner_attempt \<Rightarrow> attempt_error + runner_attempt" where
  "started pid now a =
     (if \<not> execution_is_native (attempt_execution a) then identity_mismatch
      else and_then (move_to Starting now a) (\<lambda>a.
        Inr (a\<lparr>process_id := Some pid, attempt_execution := Native (Some pid)\<rparr>)))"

definition started_isolated :: "timestamp \<Rightarrow> runner_attempt \<Rightarrow> attempt_error + runner_attempt" where
  "started_isolated now a =
     (if \<not> has_environment (attempt_execution a) then identity_mismatch else move_to Starting now a)"

definition registered_idle :: "u64 \<Rightarrow> timestamp \<Rightarrow> runner_attempt \<Rightarrow> attempt_error + runner_attempt" where
  "registered_idle runner now a =
     and_then (move_to Idle now a) (\<lambda>a. Inr (a\<lparr>github_runner_id := Some runner\<rparr>))"

definition assigned_job :: "u64 \<Rightarrow> timestamp \<Rightarrow> runner_attempt \<Rightarrow> attempt_error + runner_attempt" where
  "assigned_job runner now a =
     and_then (move_to Busy now a) (\<lambda>a. Inr (a\<lparr>github_runner_id := Some runner\<rparr>))"

definition assignment_not_taken :: "timestamp \<Rightarrow> runner_attempt \<Rightarrow> attempt_error + runner_attempt" where
  "assignment_not_taken now a =
     (if attempt_state a \<noteq> Busy then Inl (IllegalAttemptTransition (attempt_state a) Idle)
      else move_to Idle now a)"

definition conclude :: "attempt_outcome \<Rightarrow> timestamp \<Rightarrow> runner_attempt \<Rightarrow> attempt_error + runner_attempt" where
  "conclude oc now a =
     (if attempt_state a \<notin> set (required_from oc) then Inl (OutcomeUnreachable (attempt_state a) oc)
      else and_then (move_to (terminal_state oc) now a) (\<lambda>a.
        Inr (a\<lparr>terminal_at := Some now, attempt_outcome := Some oc\<rparr>)))"

definition clean :: "timestamp \<Rightarrow> runner_attempt \<Rightarrow> attempt_error + runner_attempt" where
  "clean now a =
     (if attempt_state a = Busy then Inl BusyCannotBeCleaned
      else if \<not> execution_is_native (attempt_execution a)
      then Inl (AttemptExecutionError IsolatedCleanupUnproven)
      else if \<not> is_concluded (attempt_state a)
      then Inl (IllegalAttemptTransition (attempt_state a) Cleaned)
      else move_to Cleaned now a)"

definition begin_destroy :: "timestamp \<Rightarrow> runner_attempt \<Rightarrow> attempt_error + runner_attempt" where
  "begin_destroy now a =
     (if execution_is_native (attempt_execution a) \<or> attempt_outcome a = None then identity_mismatch
      else move_to Destroying now a)"

definition defer_cleanup :: "timestamp \<Rightarrow> runner_attempt \<Rightarrow> attempt_error + runner_attempt" where
  "defer_cleanup now a =
     (if execution_is_native (attempt_execution a) then identity_mismatch
      else move_to CleanupDeferred now a)"

definition clean_isolated :: "timestamp \<Rightarrow> runner_attempt \<Rightarrow> attempt_error + runner_attempt" where
  "clean_isolated now a =
     (if execution_is_native (attempt_execution a) then identity_mismatch else move_to Cleaned now a)"

section \<open>Ownership and counting\<close>

definition authorize :: "host_id \<Rightarrow> scale_policy \<Rightarrow> runner_attempt \<Rightarrow> ownership_error + unit" where
  "authorize agent_host p a =
     (if attempt_policy_id a \<noteq> policy_id p
      then Inl (PolicyMismatch (attempt_id a) (attempt_policy_id a) (policy_id p))
      else if \<not> is_owned_by p agent_host
      then Inl (ForeignHost (policy_id p) (policy_host_id p) agent_host)
      else Inr ())"

definition count_where :: "(runner_attempt \<Rightarrow> bool) \<Rightarrow> runner_attempt list \<Rightarrow> u16" where
  "count_where P as = fold (\<lambda>_ acc. saturating_add acc 1) (filter P as) 0"

definition active_count :: "runner_attempt list \<Rightarrow> u16" where
  "active_count as = count_where counts_against_capacity as"

definition active_count_for :: "policy_id \<Rightarrow> runner_attempt list \<Rightarrow> u16" where
  "active_count_for policy as =
     count_where (\<lambda>a. attempt_policy_id a = policy \<and> counts_against_capacity a) as"

section \<open>One arbitrary mutation\<close>

datatype attempt_op =
    OpAllocateExecution attempt_execution
  | OpPreparedEnvironment ustr
  | OpBeginPrepare timestamp
  | OpMarkPrepared timestamp
  | OpJitReceived timestamp
  | OpStarted u32 timestamp
  | OpStartedIsolated timestamp
  | OpRegisteredIdle u64 timestamp
  | OpAssignedJob u64 timestamp
  | OpAssignmentNotTaken timestamp
  | OpConclude attempt_outcome timestamp
  | OpClean timestamp
  | OpBeginDestroy timestamp
  | OpDeferCleanup timestamp
  | OpCleanIsolated timestamp

fun attempt_apply :: "attempt_op \<Rightarrow> runner_attempt \<Rightarrow> attempt_error + runner_attempt" where
  "attempt_apply (OpAllocateExecution e) a = allocate_execution e a"
| "attempt_apply (OpPreparedEnvironment i) a = prepared_environment i a"
| "attempt_apply (OpBeginPrepare t) a = begin_prepare t a"
| "attempt_apply (OpMarkPrepared t) a = mark_prepared t a"
| "attempt_apply (OpJitReceived t) a = jit_received t a"
| "attempt_apply (OpStarted pid t) a = started pid t a"
| "attempt_apply (OpStartedIsolated t) a = started_isolated t a"
| "attempt_apply (OpRegisteredIdle r t) a = registered_idle r t a"
| "attempt_apply (OpAssignedJob r t) a = assigned_job r t a"
| "attempt_apply (OpAssignmentNotTaken t) a = assignment_not_taken t a"
| "attempt_apply (OpConclude oc t) a = conclude oc t a"
| "attempt_apply (OpClean t) a = clean t a"
| "attempt_apply (OpBeginDestroy t) a = begin_destroy t a"
| "attempt_apply (OpDeferCleanup t) a = defer_cleanup t a"
| "attempt_apply (OpCleanIsolated t) a = clean_isolated t a"

text \<open>The clock reading an operation is given, if it takes one.\<close>

fun op_time :: "attempt_op \<Rightarrow> timestamp option" where
  "op_time (OpAllocateExecution e) = None"
| "op_time (OpPreparedEnvironment i) = None"
| "op_time (OpBeginPrepare t) = Some t"
| "op_time (OpMarkPrepared t) = Some t"
| "op_time (OpJitReceived t) = Some t"
| "op_time (OpStarted pid t) = Some t"
| "op_time (OpStartedIsolated t) = Some t"
| "op_time (OpRegisteredIdle r t) = Some t"
| "op_time (OpAssignedJob r t) = Some t"
| "op_time (OpAssignmentNotTaken t) = Some t"
| "op_time (OpConclude oc t) = Some t"
| "op_time (OpClean t) = Some t"
| "op_time (OpBeginDestroy t) = Some t"
| "op_time (OpDeferCleanup t) = Some t"
| "op_time (OpCleanIsolated t) = Some t"

lemmas attempt_op_defs = allocate_execution_def prepared_environment_def begin_prepare_def
  mark_prepared_def jit_received_def started_def started_isolated_def registered_idle_def
  assigned_job_def assignment_not_taken_def conclude_def clean_def begin_destroy_def
  defer_cleanup_def clean_isolated_def

lemma identity_mismatch_simps [simp]: "identity_mismatch \<noteq> Inr x" "Inr x \<noteq> identity_mismatch"
  by (simp_all add: identity_mismatch_def)

lemma move_to_Inr:
  "move_to s now a = Inr a' \<longleftrightarrow>
     (attempt_state a, s) \<in> set attempt_LEGAL \<and> a' = a\<lparr>attempt_state := s, last_state_change_at := now\<rparr>"
  by (auto simp: move_to_def attempt_can_transition_to_def)

interpretation attempt_life: lifecycle_machine attempt_LEGAL attempt_state "\<lambda>now s. move_to s now"
  by unfold_locales (auto simp: move_to_def attempt_can_transition_to_def split: if_splits)

section \<open>The edge list\<close>

lemmas edge_defs = attempt_LEGAL_def CONCLUDABLE_FROM_def is_terminal_def is_concluded_def

lemma required_from_legal: "s \<in> set (required_from oc) \<Longrightarrow> (s, terminal_state oc) \<in> set attempt_LEGAL"
  by (cases oc) (auto simp: edge_defs)

lemma required_from_not_terminal: "s \<in> set (required_from oc) \<Longrightarrow> \<not> is_terminal s"
  by (cases oc) (auto simp: edge_defs)

lemma terminal_state_terminal [simp]: "is_terminal (terminal_state oc)" "is_concluded (terminal_state oc)"
  by (cases oc; simp add: edge_defs)+

lemma terminal_state_not_cleaned [simp]: "terminal_state oc \<noteq> Cleaned"
  by (cases oc) auto

lemma not_terminal_concludable: "\<not> is_terminal s \<longleftrightarrow> s \<in> set CONCLUDABLE_FROM"
  by (cases s) (auto simp: edge_defs)

lemma legal_terminal_stays: "(s, s') \<in> set attempt_LEGAL \<Longrightarrow> is_terminal s \<Longrightarrow> is_terminal s'"
  by (auto simp: edge_defs)

lemma conclude_Inr:
  "conclude oc now a = Inr a' \<longleftrightarrow>
     attempt_state a \<in> set (required_from oc)
     \<and> a' = a\<lparr>attempt_state := terminal_state oc, last_state_change_at := now,
              terminal_at := Some now, attempt_outcome := Some oc\<rparr>"
  by (auto simp: conclude_def move_to_Inr required_from_legal)

section \<open>What the journal accepts\<close>

definition attempt_storable :: "runner_attempt \<Rightarrow> bool" where
  "attempt_storable a \<longleftrightarrow>
     attempt_workspace_wf (attempt_workspace a)
     \<and> execution_validate (attempt_execution a) = Inr ()
     \<and> check_identity (attempt_execution a) (process_id a) = Inr ()
     \<and> check_outcome (attempt_outcome a) (attempt_state a) (attempt_execution a) = Inr ()
     \<and> check_terminal_at (terminal_at a) (attempt_state a) = Inr ()
     \<and> check_shape (attempt_state a) (attempt_execution a) = Inr ()
     \<and> check_order (attempt_state a) (created_at a) (terminal_at a) (last_state_change_at a) = Inr ()"

lemma check_identity_iff:
  "check_identity e pid = Inr () \<longleftrightarrow> (case e of Native q \<Rightarrow> q = pid | Isolated _ _ _ _ \<Rightarrow> pid = None)"
  by (cases e) auto

lemma check_outcome_iff:
  "check_outcome oc s e = Inr () \<longleftrightarrow>
     (case oc of
        None \<Rightarrow> \<not> is_terminal s
      | Some x \<Rightarrow> is_terminal s \<and> (s = terminal_state x \<or> s = Cleaned
           \<or> \<not> execution_is_native e \<and> (s = Destroying \<or> s = CleanupDeferred)))"
  by (auto simp: check_outcome_def Let_def split: option.splits bool.splits if_splits)

lemma check_terminal_at_iff: "check_terminal_at t s = Inr () \<longleftrightarrow> (t \<noteq> None \<longleftrightarrow> is_terminal s)"
  by (auto simp: check_terminal_at_def split: option.splits bool.splits)

lemma check_shape_iff:
  "check_shape s e = Inr () \<longleftrightarrow>
     \<not> (s \<in> {Preparing, Prepared, Destroying, CleanupDeferred} \<and> execution_is_native e)
     \<and> \<not> (s \<in> {Prepared, JitReceived, Starting, Idle, Busy} \<and> lacks_environment e)"
  by (simp add: check_shape_def)

lemma check_order_iff:
  "check_order s c t l = Inr () \<longleftrightarrow> c \<le> l \<and> (\<forall>x. t = Some x \<longrightarrow> c \<le> x)"
  by (auto simp: check_order_def not_less split: option.splits)

lemmas check_iffs = check_identity_iff check_outcome_iff check_terminal_at_iff check_shape_iff check_order_iff

interpretation attempt_row: persisted attempt_to_persisted attempt_from_persisted attempt_storable
proof unfold_locales
  fix v
  assume st: "attempt_storable v"
  then have "attempt_workspace_from_persisted (attempt_workspace_kind (attempt_workspace v))
      (workspace_slot (attempt_workspace v)) = Inr (attempt_workspace v)"
    using attempt_ws.load_store [of "attempt_workspace v"] by (simp add: attempt_storable_def)
  with st show "attempt_from_persisted (attempt_to_persisted v) = Inr v"
    by (simp add: attempt_from_persisted_def attempt_to_persisted_def attempt_storable_def)
next
  fix f v
  assume "attempt_from_persisted f = Inr v"
  then obtain w where
    w: "attempt_workspace_from_persisted (pa_workspace_kind f) (pa_workspace_slot f) = Inr w"
    and c: "execution_validate (pa_execution f) = Inr ()"
      "check_identity (pa_execution f) (pa_process_id f) = Inr ()"
      "check_outcome (pa_outcome f) (pa_state f) (pa_execution f) = Inr ()"
      "check_terminal_at (pa_terminal_at f) (pa_state f) = Inr ()"
      "check_shape (pa_state f) (pa_execution f) = Inr ()"
      "check_order (pa_state f) (pa_created_at f) (pa_terminal_at f) (pa_last_state_change_at f) = Inr ()"
    and v: "v = \<lparr>attempt_id = pa_id f, attempt_policy_id = pa_policy_id f,
          github_runner_id = pa_github_runner_id f, attempt_state = pa_state f,
          attempt_outcome = pa_outcome f, process_id = pa_process_id f,
          attempt_execution = pa_execution f, runtime_path = pa_runtime_path f,
          attempt_workspace = w, created_at = pa_created_at f, terminal_at = pa_terminal_at f,
          last_state_change_at = pa_last_state_change_at f\<rparr>"
    by (auto simp: attempt_from_persisted_def)
  note w' = attempt_ws.load_storable [of "(pa_workspace_kind f, pa_workspace_slot f)" w]
    attempt_ws.store_load [of "(pa_workspace_kind f, pa_workspace_slot f)" w]
  show "attempt_storable v"
    using w w' c by (simp add: v attempt_storable_def)
  show "attempt_to_persisted v = f"
    using w w' by (simp add: v attempt_to_persisted_def)
qed

section \<open>Which operations keep an attempt loadable\<close>

text \<open>A move between live states, a move between terminal states, and a conclusion.\<close>

lemma storable_live_move:
  assumes "attempt_storable a" "move_to s now a = Inr a'" "\<not> is_terminal s" "created_at a \<le> now"
    and "check_shape s (attempt_execution a) = Inr ()"
  shows "attempt_storable a'"
proof -
  have a': "a' = a\<lparr>attempt_state := s, last_state_change_at := now\<rparr>" and "\<not> is_terminal (attempt_state a)"
    using assms(2,3) legal_terminal_stays by (auto simp: move_to_Inr)
  then have "attempt_outcome a = None" "terminal_at a = None"
    using assms(1) by (auto simp: attempt_storable_def check_outcome_iff check_terminal_at_iff split: option.splits)
  then show ?thesis
    using assms by (simp add: a' attempt_storable_def check_outcome_iff check_terminal_at_iff check_order_iff)
qed

lemma storable_terminal_move:
  assumes "attempt_storable a" "move_to s now a = Inr a'" "is_terminal (attempt_state a)" "created_at a \<le> now"
    and "s = Cleaned \<or> \<not> execution_is_native (attempt_execution a) \<and> (s = Destroying \<or> s = CleanupDeferred)"
  shows "attempt_storable a'"
proof -
  have a': "a' = a\<lparr>attempt_state := s, last_state_change_at := now\<rparr>"
    using assms(2) by (auto simp: move_to_Inr)
  have "is_terminal s" using assms(5) by (auto simp: is_terminal_def)
  moreover obtain x t where "attempt_outcome a = Some x" "terminal_at a = Some t"
    using assms(1,3) by (auto simp: attempt_storable_def check_outcome_iff check_terminal_at_iff split: option.splits)
  ultimately show ?thesis
    using assms by (auto simp: a' attempt_storable_def check_outcome_iff check_terminal_at_iff check_order_iff check_shape_iff)
qed

lemma storable_conclude:
  assumes "attempt_storable a" "conclude oc now a = Inr a'" "created_at a \<le> now"
  shows "attempt_storable a'"
proof -
  have "check_shape (terminal_state oc) e = Inr ()" for e
    by (cases oc) (simp_all add: check_shape_iff)
  then show ?thesis
    using assms
    by (auto simp: conclude_Inr attempt_storable_def check_outcome_iff check_terminal_at_iff check_order_iff)
qed

lemma clean_terminal: "(s, Cleaned) \<in> set attempt_LEGAL \<Longrightarrow> is_terminal s"
    "(s, CleanupDeferred) \<in> set attempt_LEGAL \<Longrightarrow> is_terminal s"
    "(s, Destroying) \<in> set attempt_LEGAL \<Longrightarrow> is_terminal s"
  by (auto simp: edge_defs)

lemma storable_environment:
  assumes "attempt_storable a" "attempt_state a \<in> {Prepared, JitReceived, Starting, Idle, Busy}"
  shows "\<not> lacks_environment (attempt_execution a)"
  using assms by (auto simp: attempt_storable_def check_shape_iff)

lemma has_environment_iff: "has_environment e \<longleftrightarrow> \<not> execution_is_native e \<and> \<not> lacks_environment e"
  by (cases e rule: has_environment.cases) auto

lemma storable_allocate_execution:
  assumes st: "attempt_storable a" and p: "allocate_execution e a = Inr a'"
  shows "attempt_storable a'"
proof -
  have s: "attempt_state a = Allocated" "process_id a = None" and v: "execution_validate e = Inr ()"
    and e: "e = Native None \<or> \<not> execution_is_native e" and a': "a' = a\<lparr>attempt_execution := e\<rparr>"
    using p by (auto simp: allocate_execution_def simp del: execution_validate.simps
        split: if_splits attempt_execution.splits option.splits)
  have "check_identity e None = Inr ()" using e by (cases e) auto
  then show ?thesis
    using st s v by (simp add: a' attempt_storable_def check_outcome_iff check_terminal_at_iff check_shape_iff
        check_order_iff is_terminal_def split: option.splits)
qed

lemma storable_prepared_environment:
  assumes st: "attempt_storable a" and p: "prepared_environment i a = Inr a'"
  shows "attempt_storable a'"
proof -
  obtain provider img g where e: "attempt_execution a = Isolated provider None img g"
    and v: "execution_validate (Isolated provider (Some i) img g) = Inr ()"
    and a': "a' = a\<lparr>attempt_execution := Isolated provider (Some i) img g\<rparr>"
    using p by (auto simp: prepared_environment_def Let_def split: if_splits attempt_execution.splits)
  show ?thesis
    using st v by (auto simp: a' e attempt_storable_def check_iffs simp del: execution_validate.simps
        split: option.splits)
qed

lemma storable_started:
  assumes st: "attempt_storable a" and s: "started pid now a = Inr a'" and t: "created_at a \<le> now"
  shows "attempt_storable a'"
proof -
  obtain b where b: "move_to Starting now a = Inr b" and n: "execution_is_native (attempt_execution a)"
    and a': "a' = b\<lparr>process_id := Some pid, attempt_execution := Native (Some pid)\<rparr>"
    using s by (auto simp: started_def split: if_splits)
  have "check_shape Starting (attempt_execution a) = Inr ()"
    using n by (cases "attempt_execution a") (auto simp: check_shape_iff)
  then have "attempt_storable b" "attempt_state b = Starting"
    using storable_live_move [OF st b _ t] b by (auto simp: is_terminal_def move_to_Inr)
  then show ?thesis
    by (auto simp: a' attempt_storable_def check_iffs is_terminal_def split: option.splits)
qed

text \<open>The one exception: a JIT configuration received by an isolated attempt that has no
  environment yet.\<close>

definition jit_without_environment :: "attempt_op \<Rightarrow> runner_attempt \<Rightarrow> bool" where
  "jit_without_environment op a \<longleftrightarrow>
     (\<exists>t. op = OpJitReceived t) \<and> lacks_environment (attempt_execution a)"

lemma storable_frame [simp]:
  "attempt_storable (a\<lparr>github_runner_id := r\<rparr>) = attempt_storable a"
  by (simp add: attempt_storable_def)

lemma legal_to_idle_busy:
  "(s, Idle) \<in> set attempt_LEGAL \<Longrightarrow> s \<in> {Starting, Busy}"
  "(s, Busy) \<in> set attempt_LEGAL \<Longrightarrow> s \<in> {Starting, Idle}"
  by (auto simp: attempt_LEGAL_def)

lemma storable_live_ops:
  assumes st: "attempt_storable a" and t: "created_at a \<le> now"
  shows "begin_prepare now a = Inr a' \<Longrightarrow> attempt_storable a'"
    and "mark_prepared now a = Inr a' \<Longrightarrow> attempt_storable a'"
    and "jit_received now a = Inr a' \<Longrightarrow> \<not> lacks_environment (attempt_execution a) \<Longrightarrow> attempt_storable a'"
    and "started_isolated now a = Inr a' \<Longrightarrow> attempt_storable a'"
    and "registered_idle r now a = Inr a' \<Longrightarrow> attempt_storable a'"
    and "assigned_job r now a = Inr a' \<Longrightarrow> attempt_storable a'"
    and "assignment_not_taken now a = Inr a' \<Longrightarrow> attempt_storable a'"
proof -
  note live = storable_live_move [OF st _ _ t]
  note env = storable_environment [OF st]
  show "begin_prepare now a = Inr a' \<Longrightarrow> attempt_storable a'"
    by (rule live [of Preparing]) (auto simp: begin_prepare_def is_terminal_def check_shape_iff split: if_splits)
  show "mark_prepared now a = Inr a' \<Longrightarrow> attempt_storable a'"
    by (rule live [of Prepared])
      (auto simp: mark_prepared_def is_terminal_def check_shape_iff has_environment_iff split: if_splits)
  show "jit_received now a = Inr a' \<Longrightarrow> \<not> lacks_environment (attempt_execution a) \<Longrightarrow> attempt_storable a'"
    by (rule live [of JitReceived]) (auto simp: jit_received_def is_terminal_def check_shape_iff)
  show "started_isolated now a = Inr a' \<Longrightarrow> attempt_storable a'"
    by (rule live [of Starting])
      (auto simp: started_isolated_def is_terminal_def check_shape_iff has_environment_iff split: if_splits)
  have idle: "attempt_storable b" if "move_to Idle now a = Inr b" for b
    using that env by (intro live [of Idle]) (auto simp: is_terminal_def check_shape_iff move_to_Inr dest!: legal_to_idle_busy)
  have busy: "attempt_storable b" if "move_to Busy now a = Inr b" for b
    using that env by (intro live [of Busy]) (auto simp: is_terminal_def check_shape_iff move_to_Inr dest!: legal_to_idle_busy)
  show "registered_idle r now a = Inr a' \<Longrightarrow> attempt_storable a'"
    using idle by (auto simp: registered_idle_def)
  show "assigned_job r now a = Inr a' \<Longrightarrow> attempt_storable a'"
    using busy by (auto simp: assigned_job_def)
  show "assignment_not_taken now a = Inr a' \<Longrightarrow> attempt_storable a'"
    using idle by (auto simp: assignment_not_taken_def split: if_splits)
qed

lemma storable_terminal_ops:
  assumes st: "attempt_storable a" and t: "created_at a \<le> now"
  shows "clean now a = Inr a' \<Longrightarrow> attempt_storable a'"
    and "begin_destroy now a = Inr a' \<Longrightarrow> attempt_storable a'"
    and "defer_cleanup now a = Inr a' \<Longrightarrow> attempt_storable a'"
    and "clean_isolated now a = Inr a' \<Longrightarrow> attempt_storable a'"
proof -
  note go = storable_terminal_move [OF st _ _ t]
  show "clean now a = Inr a' \<Longrightarrow> attempt_storable a'"
    by (rule go [of Cleaned]) (auto simp: clean_def move_to_Inr clean_terminal split: if_splits)
  show "begin_destroy now a = Inr a' \<Longrightarrow> attempt_storable a'"
    by (rule go [of Destroying]) (auto simp: begin_destroy_def move_to_Inr clean_terminal split: if_splits)
  show "defer_cleanup now a = Inr a' \<Longrightarrow> attempt_storable a'"
    by (rule go [of CleanupDeferred]) (auto simp: defer_cleanup_def move_to_Inr clean_terminal split: if_splits)
  show "clean_isolated now a = Inr a' \<Longrightarrow> attempt_storable a'"
    by (rule go [of Cleaned]) (auto simp: clean_isolated_def move_to_Inr clean_terminal split: if_splits)
qed

lemma attempt_apply_storable:
  assumes "attempt_storable a" "attempt_apply op a = Inr a'" "\<not> jit_without_environment op a"
    and "\<And>t. op_time op = Some t \<Longrightarrow> created_at a \<le> t"
  shows "attempt_storable a'"
proof -
  note st = assms(1) and live = storable_live_ops [OF assms(1)] and fin = storable_terminal_ops [OF assms(1)]
  show ?thesis
    using assms(2-4)
    by (cases op; simp add: jit_without_environment_def;
        blast intro: live fin storable_conclude [OF st] storable_started [OF st]
          storable_allocate_execution [OF st] storable_prepared_environment [OF st])
qed

lemma attempt_apply_created_at: "attempt_apply op a = Inr a' \<Longrightarrow> created_at a' = created_at a"
  by (cases op)
    (auto simp: attempt_op_defs move_to_Inr Let_def split: if_splits attempt_execution.splits option.splits)

lemma allocate_in_storable: "attempt_workspace_wf w \<Longrightarrow> attempt_storable (allocate_in i policy path w now)"
  by (simp add: allocate_in_def attempt_storable_def check_iffs is_terminal_def)

section \<open>Reachable attempts\<close>

text \<open>Every attempt built by an allocation and changed by the mutations, under a clock that does
  not run behind the allocation and with an isolated environment prepared before its JIT
  configuration.\<close>

inductive attempt_reachable :: "runner_attempt \<Rightarrow> bool" where
  reach_allocate: "attempt_workspace_wf w \<Longrightarrow> attempt_reachable (allocate_in i policy path w now)"
| reach_apply: "attempt_reachable a \<Longrightarrow> attempt_apply op a = Inr a' \<Longrightarrow> \<not> jit_without_environment op a \<Longrightarrow>
     (\<And>t. op_time op = Some t \<Longrightarrow> created_at a \<le> t) \<Longrightarrow> attempt_reachable a'"

lemma attempt_reachable_storable: "attempt_reachable a \<Longrightarrow> attempt_storable a"
  by (induction rule: attempt_reachable.induct) (auto intro: allocate_in_storable attempt_apply_storable)

definition before_start :: "attempt_state \<Rightarrow> bool" where
  "before_start s \<longleftrightarrow> s \<in> {Allocated, Preparing, Prepared, JitReceived}"

lemma legal_into_before_start: "(s, s') \<in> set attempt_LEGAL \<Longrightarrow> before_start s' \<Longrightarrow> before_start s"
  by (auto simp: attempt_LEGAL_def before_start_def)

lemma attempt_apply_state:
  assumes "attempt_apply op a = Inr a'"
  shows "attempt_state a' = attempt_state a \<or> (attempt_state a, attempt_state a') \<in> set attempt_LEGAL"
  using assms
  by (cases op)
    (auto simp: attempt_op_defs move_to_Inr Let_def required_from_legal
      split: if_splits attempt_execution.splits option.splits)

lemma attempt_apply_process_id:
  assumes "attempt_apply op a = Inr a'"
  shows "process_id a' = process_id a \<or> attempt_state a' = Starting \<and> attempt_state a = JitReceived"
  using assms
  by (cases op)
    (auto simp: attempt_op_defs move_to_Inr Let_def attempt_LEGAL_def
      split: if_splits attempt_execution.splits option.splits)

lemma reachable_no_process_before_start:
  "attempt_reachable a \<Longrightarrow> before_start (attempt_state a) \<Longrightarrow> process_id a = None"
proof (induction rule: attempt_reachable.induct)
  case (reach_allocate w i policy path now)
  then show ?case by (simp add: allocate_in_def)
next
  case (reach_apply a op a')
  have "before_start (attempt_state a)"
    using attempt_apply_state [OF reach_apply.hyps(2)] reach_apply.prems legal_into_before_start by auto
  moreover have "attempt_state a' \<noteq> Starting" using reach_apply.prems by (auto simp: before_start_def)
  ultimately show ?case
    using attempt_apply_process_id [OF reach_apply.hyps(2)] reach_apply.IH by auto
qed

section \<open>Concrete attempts\<close>

definition sample_native :: runner_attempt where
  "sample_native = allocate 5 7 (lit ''/run/a'') 100"

definition sample_isolated_execution :: attempt_execution where
  "sample_isolated_execution = Isolated VirtualMachine None (ImageReference (lit ''vm-version:1'')) (lit ''g1'')"

definition sample_isolated :: runner_attempt where
  "sample_isolated = sample_native\<lparr>attempt_execution := sample_isolated_execution\<rparr>"

definition sample_busy :: runner_attempt where
  "sample_busy = sample_native\<lparr>attempt_state := Busy, github_runner_id := Some 11, process_id := Some 42,
     attempt_execution := Native (Some 42), last_state_change_at := 150\<rparr>"

lemmas sample_attempt_defs = sample_native_def sample_isolated_execution_def sample_isolated_def
  sample_busy_def allocate_def allocate_in_def

lemma sample_native_storable: "attempt_storable sample_native"
  by (simp add: sample_attempt_defs attempt_storable_def check_iffs is_terminal_def attempt_workspace_wf_def)

lemma sample_busy_storable: "attempt_storable sample_busy"
  by (simp add: sample_attempt_defs attempt_storable_def check_iffs is_terminal_def attempt_workspace_wf_def)

lemma sample_isolated_valid: "execution_validate sample_isolated_execution = Inr ()"
  by (simp add: sample_isolated_execution_def image_new_def non_secret_id_def digest_backend_mismatch_def
      id_char_def str_defs Let_def)

lemma sample_isolated_storable: "attempt_storable sample_isolated"
  using sample_isolated_valid
  by (simp add: sample_attempt_defs attempt_storable_def check_iffs is_terminal_def attempt_workspace_wf_def
      del: execution_validate.simps)

section \<open>Properties\<close>

text \<open>The journal accepts exactly the storable attempts, and loading a row gives back the
  attempt it was written from: \<open>from_persisted\<close> succeeds on a row with an attempt if and only
  if that attempt passes every gate and the row is its \<open>to_persisted\<close>.\<close>

theorem journal_row_exact:
  "attempt_from_persisted f = Inr a \<longleftrightarrow> attempt_storable a \<and> f = attempt_to_persisted a"
  using attempt_row.load_store attempt_row.load_storable attempt_row.store_load by blast



text \<open>C10. A busy attempt is never cleaned: no mutation takes an attempt that is executing a job
  anywhere but back to idle or to a recorded conclusion, and \<open>clean\<close> refuses it by name.\<close>

theorem busy_attempt_not_cleaned:
  assumes "attempt_state a = Busy"
  shows "clean now a = Inl BusyCannotBeCleaned
    \<and> (\<forall>a'. attempt_apply op a = Inr a' \<longrightarrow> attempt_state a' \<in> {Idle, Finished, Failed, Orphaned}
         \<and> (attempt_state a' \<noteq> Idle \<longrightarrow> (\<exists>oc t. op = OpConclude oc t \<and> attempt_outcome a' = Some oc)))"
proof -
  have "attempt_state a' \<in> {Idle, Finished, Failed, Orphaned}
      \<and> (attempt_state a' \<noteq> Idle \<longrightarrow> (\<exists>oc t. op = OpConclude oc t \<and> attempt_outcome a' = Some oc))"
    if "attempt_apply op a = Inr a'" for a'
    using assms that
    by (cases op)
      (auto simp: attempt_op_defs move_to_Inr Let_def attempt_LEGAL_def is_concluded_def
        split: if_splits attempt_execution.splits option.splits)
  then show ?thesis using assms by (simp add: clean_def)
qed

theorem busy_attempt_not_cleaned_witness:
  "clean 200 sample_busy = Inl BusyCannotBeCleaned
   \<and> (\<exists>a. attempt_apply (OpConclude CompletedJob 200) sample_busy = Inr a
        \<and> attempt_state a \<in> {Idle, Finished, Failed, Orphaned})"
proof -
  have b: "attempt_state sample_busy = Busy" by (simp add: sample_attempt_defs)
  obtain a where "attempt_apply (OpConclude CompletedJob 200) sample_busy = Inr a"
    using conclude_Inr [of CompletedJob 200 sample_busy] b by auto
  then show ?thesis using busy_attempt_not_cleaned [OF b] by blast
qed

text \<open>C13. A capacity slot comes back in one way only: a native attempt gives it up when it is
  concluded, an isolated one when its environment is cleaned, and no other mutation stops an
  attempt counting.\<close>

theorem slot_release_only_by_conclusion:
  assumes "attempt_apply op a = Inr a'" "counts_against_capacity a" "\<not> counts_against_capacity a'"
  shows "if execution_is_native (attempt_execution a) then \<exists>oc t. op = OpConclude oc t
         else \<exists>t. op = OpCleanIsolated t"
  using assms
  by (cases op)
    (auto simp: attempt_op_defs move_to_Inr Let_def is_concluded_def is_terminal_def
      counts_against_capacity_def state_counts_against_capacity_def
      split: if_splits attempt_execution.splits option.splits)

theorem slot_release_only_by_conclusion_witness:
  "\<exists>a. attempt_apply (OpConclude CompletedJob 200) sample_busy = Inr a \<and> \<not> counts_against_capacity a
     \<and> (\<exists>oc t. OpConclude CompletedJob 200 = OpConclude oc t)"
proof -
  obtain a where a: "attempt_apply (OpConclude CompletedJob 200) sample_busy = Inr a" "\<not> counts_against_capacity a"
    using conclude_Inr [of CompletedJob 200 sample_busy]
    by (auto simp: sample_attempt_defs counts_against_capacity_def state_counts_against_capacity_def is_terminal_def)
  have "counts_against_capacity sample_busy" "execution_is_native (attempt_execution sample_busy)"
    by (simp_all add: sample_attempt_defs counts_against_capacity_def state_counts_against_capacity_def is_terminal_def)
  then show ?thesis using slot_release_only_by_conclusion [OF a(1) _ a(2)] a by auto
qed

text \<open>No live attempt can leak its slot: a failure or orphan conclusion is accepted in every
  state that is not terminal, and in no terminal one.\<close>

theorem every_live_attempt_can_conclude:
  "is_ok (conclude (FailedWith r) now a) = (\<not> is_terminal (attempt_state a))
   \<and> is_ok (conclude OrphanedOutcome now a) = (\<not> is_terminal (attempt_state a))"
  by (auto simp: is_ok_iff conclude_Inr not_terminal_concludable)

text \<open>C19. A recorded conclusion is final: once an attempt has an outcome no mutation changes it,
  the time it was recorded or the terminal status, and a cleaned attempt accepts nothing.\<close>

theorem recorded_outcome_is_final:
  assumes "attempt_storable a" "attempt_outcome a = Some oc" "attempt_apply op a = Inr a'"
  shows "attempt_outcome a' = Some oc \<and> terminal_at a' = terminal_at a \<and> is_terminal (attempt_state a')
    \<and> attempt_state a \<noteq> Cleaned"
proof -
  have t: "is_terminal (attempt_state a)"
    using assms(1,2) by (auto simp: attempt_storable_def check_outcome_iff)
  then have nc: "\<not> (\<exists>oc t. op = OpConclude oc t)"
    using assms(3) required_from_not_terminal by (auto simp: conclude_Inr)
  have "attempt_state a \<noteq> Cleaned"
    using assms(3)
    by (cases op) (auto simp: attempt_op_defs move_to_Inr Let_def attempt_LEGAL_def is_concluded_def required_from_not_terminal
        split: if_splits attempt_execution.splits option.splits dest: required_from_not_terminal simp: is_terminal_def)
  moreover have "attempt_outcome a' = attempt_outcome a \<and> terminal_at a' = terminal_at a"
    using assms(3) nc
    by (cases op) (auto simp: attempt_op_defs move_to_Inr Let_def split: if_splits attempt_execution.splits option.splits)
  moreover have "is_terminal (attempt_state a')"
    using attempt_apply_state [OF assms(3)] t legal_terminal_stays by auto
  ultimately show ?thesis using assms(2) by simp
qed

definition sample_finished :: runner_attempt where
  "sample_finished = sample_busy\<lparr>attempt_state := Finished, attempt_outcome := Some CompletedJob,
     terminal_at := Some 200, last_state_change_at := 200\<rparr>"

theorem recorded_outcome_is_final_witness:
  "\<exists>a. attempt_apply (OpClean 210) sample_finished = Inr a \<and> attempt_outcome a = Some CompletedJob"
proof -
  have "attempt_storable sample_finished" "attempt_outcome sample_finished = Some CompletedJob"
    by (simp_all add: sample_finished_def sample_attempt_defs attempt_storable_def check_iffs is_terminal_def attempt_workspace_wf_def)
  moreover have "\<exists>a. attempt_apply (OpClean 210) sample_finished = Inr a"
    by (simp add: sample_finished_def sample_attempt_defs clean_def is_concluded_def move_to_def
        attempt_can_transition_to_def attempt_LEGAL_def)
  ultimately show ?thesis using recorded_outcome_is_final by blast
qed

text \<open>The execution identity of a reachable attempt only ever fills in: after allocation the
  provider, image and generation stay, a process or environment identity is written at most
  once, and the workspace and the allocation time never change.\<close>

theorem identity_only_fills_in:
  assumes "attempt_reachable a" "attempt_apply op a = Inr a'" "attempt_state a \<noteq> Allocated"
  shows "can_advance_to (attempt_execution a) (attempt_execution a')
    \<and> attempt_workspace a' = attempt_workspace a \<and> created_at a' = created_at a"
proof (cases "\<exists>pid t. op = OpStarted pid t")
  case True
  then have js: "attempt_state a = JitReceived" "execution_is_native (attempt_execution a)"
    using assms(2) by (auto simp: started_def move_to_Inr attempt_LEGAL_def split: if_splits)
  then have "attempt_execution a = Native None"
    using reachable_no_process_before_start [OF assms(1)] attempt_reachable_storable [OF assms(1)]
    by (cases "attempt_execution a") (auto simp: before_start_def attempt_storable_def split: if_splits)
  then show ?thesis using True assms(2) by (auto simp: started_def move_to_Inr)
next
  case False
  then show ?thesis
    using assms(2,3)
    by (cases op) (auto simp: attempt_op_defs move_to_Inr Let_def split: if_splits attempt_execution.splits option.splits)
qed

theorem identity_only_fills_in_witness:
  "\<exists>a a'. jit_received 120 sample_native = Inr a \<and> attempt_apply (OpStarted 42 130) a = Inr a'
     \<and> can_advance_to (attempt_execution a) (attempt_execution a')"
proof -
  have n: "attempt_reachable sample_native"
    unfolding sample_native_def allocate_def by (rule reach_allocate) (simp add: attempt_workspace_wf_def)
  let ?a = "sample_native\<lparr>attempt_state := JitReceived, last_state_change_at := 120\<rparr>"
  have a: "jit_received 120 sample_native = Inr ?a"
    by (simp add: jit_received_def move_to_Inr attempt_LEGAL_def sample_attempt_defs)
  have r: "attempt_reachable ?a"
    by (rule reach_apply [OF n, of "OpJitReceived 120"])
      (use a in \<open>auto simp: jit_without_environment_def sample_attempt_defs\<close>)
  obtain a' where "attempt_apply (OpStarted 42 130) ?a = Inr a'"
    by (simp add: started_def move_to_def attempt_can_transition_to_def attempt_LEGAL_def sample_attempt_defs)
  then show ?thesis using identity_only_fills_in [OF r, of "OpStarted 42 130"] a by fastforce
qed

text \<open>The one legal transition the loader refuses: an isolated attempt that receives its JIT
  configuration straight from \<open>allocated\<close>, with no environment prepared, writes a row that
  \<open>from_persisted\<close> rejects as an identity mismatch.\<close>

theorem jit_without_environment_unloadable:
  assumes "attempt_storable a" "attempt_state a = Allocated" "lacks_environment (attempt_execution a)"
  shows "\<exists>a'. jit_received now a = Inr a'
    \<and> attempt_from_persisted (attempt_to_persisted a') = Inl (AttemptExecutionError AttemptIdentityMismatch)"
proof -
  let ?a = "a\<lparr>attempt_state := JitReceived, last_state_change_at := now\<rparr>"
  have "jit_received now a = Inr ?a"
    using assms(2) by (simp add: jit_received_def move_to_Inr attempt_LEGAL_def)
  moreover have "attempt_workspace_from_persisted (attempt_workspace_kind (attempt_workspace a))
      (workspace_slot (attempt_workspace a)) = Inr (attempt_workspace a)"
    using assms(1) attempt_ws.load_store [of "attempt_workspace a"] by (simp add: attempt_storable_def)
  moreover have "attempt_outcome a = None" "terminal_at a = None"
    using assms(1,2) by (auto simp: attempt_storable_def check_outcome_iff check_terminal_at_iff is_terminal_def split: option.splits)
  ultimately show ?thesis
    using assms
    by (simp add: attempt_from_persisted_def attempt_to_persisted_def attempt_storable_def check_shape_def
        check_outcome_def check_terminal_at_def is_terminal_def identity_mismatch_def)
qed

theorem jit_without_environment_unloadable_witness:
  "\<exists>a'. jit_received 120 sample_isolated = Inr a'
    \<and> attempt_from_persisted (attempt_to_persisted a') = Inl (AttemptExecutionError AttemptIdentityMismatch)"
  by (rule jit_without_environment_unloadable [OF sample_isolated_storable])
    (simp_all add: sample_attempt_defs)

text \<open>A clock stepped back behind the allocation makes the attempt unloadable: the transition
  is accepted, its row is written, and the loader refuses the row for the order of its
  timestamps.\<close>

theorem clock_step_back_unloadable:
  assumes "attempt_storable a" "move_to s now a = Inr a'" "\<not> is_terminal s"
    and "check_shape s (attempt_execution a) = Inr ()" "now < created_at a"
  shows "attempt_from_persisted (attempt_to_persisted a') =
    Inl (TimestampsOutOfOrder s (lit ''last_state_change_at'') (created_at a) now)"
proof -
  have a': "a' = a\<lparr>attempt_state := s, last_state_change_at := now\<rparr>" and "\<not> is_terminal (attempt_state a)"
    using assms(2,3) legal_terminal_stays by (auto simp: move_to_Inr)
  then have "attempt_outcome a = None" "terminal_at a = None"
    using assms(1) by (auto simp: attempt_storable_def check_outcome_iff check_terminal_at_iff split: option.splits)
  moreover have "attempt_workspace_from_persisted (attempt_workspace_kind (attempt_workspace a))
      (workspace_slot (attempt_workspace a)) = Inr (attempt_workspace a)"
    using assms(1) attempt_ws.load_store [of "attempt_workspace a"] by (simp add: attempt_storable_def)
  ultimately show ?thesis
    using assms
    by (simp add: a' attempt_from_persisted_def attempt_to_persisted_def attempt_storable_def
        check_outcome_def check_terminal_at_def check_order_def)
qed

theorem clock_step_back_unloadable_witness:
  "\<exists>a'. move_to JitReceived 99 sample_native = Inr a'
    \<and> attempt_from_persisted (attempt_to_persisted a') =
        Inl (TimestampsOutOfOrder JitReceived (lit ''last_state_change_at'') 100 99)"
proof -
  obtain a' where a': "move_to JitReceived 99 sample_native = Inr a'"
    by (simp add: move_to_def attempt_can_transition_to_def attempt_LEGAL_def sample_attempt_defs)
  moreover have "created_at sample_native = 100" by (simp add: sample_attempt_defs)
  ultimately show ?thesis
    using clock_step_back_unloadable [OF sample_native_storable a']
    by (auto simp: is_terminal_def check_shape_iff sample_attempt_defs)
qed

end
