(* ===== verification/Recovery.thy ===== *)
theory Recovery
  imports Attempt
begin

text \<open>
  Restart recovery, the last part of \<open>crates/domain/src/attempt.rs\<close>: what one pass decides about
  one journalled attempt from the observation it made. The clock is the \<open>now\<close> argument, and an
  \<open>unreachable!\<close> arm is \<open>None\<close>. \<open>settle\<close> is the protocol the documentation asks of the caller for
  an \<open>Observe\<close> decision: move the attempt to the observed state and ask again.
\<close>

section \<open>Data\<close>

record recovery_timeouts =
  jit_handoff :: elapsed
  startup_timeout :: elapsed
  idle_timeout :: elapsed

definition seconds :: "int \<Rightarrow> elapsed" where
  "seconds n = n * 1000000000"

definition provisional :: recovery_timeouts where
  "provisional = \<lparr>jit_handoff = seconds 120, startup_timeout = seconds 300, idle_timeout = seconds 300\<rparr>"

datatype github_runner_observation = Unreachable | NotRegistered | Registered bool

record recovery_observation =
  process_alive :: bool
  github :: github_runner_observation

datatype recovery_decision =
    Nothing | Clean | Adopt | Wait | Defer
  | Observe attempt_state | Conclude attempt_outcome | Terminate attempt_outcome

section \<open>The decision\<close>

definition decide_before_start ::
  "attempt_state \<Rightarrow> recovery_observation \<Rightarrow> recovery_timeouts \<Rightarrow> elapsed \<Rightarrow> recovery_decision option" where
  "decide_before_start s obs timeouts el =
     (if process_alive obs then Some Adopt
      else case github obs of
          Registered _ \<Rightarrow> Some (Observe (if s = Allocated then JitReceived else Starting))
        | NotRegistered \<Rightarrow>
            Some (if el \<ge> jit_handoff timeouts
                  then Conclude (FailedWith (if s = Allocated then JitRequestFailed else JitExpired))
                  else Wait)
        | Unreachable \<Rightarrow> None)"

definition decide_starting ::
  "recovery_observation \<Rightarrow> recovery_timeouts \<Rightarrow> elapsed \<Rightarrow> recovery_decision option" where
  "decide_starting obs timeouts el =
     (case github obs of
        Registered True \<Rightarrow> Some (Observe Busy)
      | Registered False \<Rightarrow> Some (Observe Idle)
      | NotRegistered \<Rightarrow>
          Some (if \<not> process_alive obs then Conclude (FailedWith ProcessExitedUnexpectedly)
                else if el < startup_timeout timeouts then Adopt
                else Terminate (FailedWith RegistrationTimedOut))
      | Unreachable \<Rightarrow> None)"

definition decide_idle ::
  "recovery_observation \<Rightarrow> recovery_timeouts \<Rightarrow> elapsed \<Rightarrow> recovery_decision option" where
  "decide_idle obs timeouts el =
     (case github obs of
        Registered True \<Rightarrow> Some (Observe Busy)
      | Registered False \<Rightarrow>
          Some (if \<not> process_alive obs then Conclude OrphanedOutcome
                else if el \<ge> idle_timeout timeouts then Terminate ExitedIdleWithoutWork
                else Adopt)
      | NotRegistered \<Rightarrow>
          Some (if process_alive obs then Adopt
                else if el \<ge> idle_timeout timeouts then Conclude ExitedIdleWithoutWork
                else Conclude (FailedWith ProcessExitedUnexpectedly))
      | Unreachable \<Rightarrow> None)"

definition recovery_decision ::
  "runner_attempt \<Rightarrow> recovery_observation \<Rightarrow> recovery_timeouts \<Rightarrow> timestamp \<Rightarrow> recovery_decision option" where
  "recovery_decision a obs timeouts now =
     (let s = attempt_state a; el = now - last_state_change_at a in
      if s = Cleaned then Some Nothing
      else if is_terminal s then Some Clean
      else if github obs = Unreachable then Some Defer
      else case s of
          Allocated \<Rightarrow> decide_before_start s obs timeouts el
        | JitReceived \<Rightarrow> decide_before_start s obs timeouts el
        | Starting \<Rightarrow> decide_starting obs timeouts el
        | Idle \<Rightarrow> decide_idle obs timeouts el
        | Busy \<Rightarrow> Some (if process_alive obs then Adopt else Conclude OrphanedOutcome)
        | Preparing \<Rightarrow> Some Wait
        | Prepared \<Rightarrow> Some Wait
        | _ \<Rightarrow> None)"

lemmas recovery_defs = recovery_decision_def decide_before_start_def decide_starting_def decide_idle_def

section \<open>Applying an \<open>Observe\<close>\<close>

text \<open>At most three moves lead from \<open>Allocated\<close> to a state that is not observed further, so four
  units of fuel are always enough (\<open>settle_decides\<close>).\<close>

fun settle ::
  "nat \<Rightarrow> recovery_observation \<Rightarrow> recovery_timeouts \<Rightarrow> timestamp \<Rightarrow> runner_attempt
   \<Rightarrow> (recovery_decision \<times> runner_attempt) option" where
  "settle 0 obs timeouts now a = None"
| "settle (Suc n) obs timeouts now a =
     (case recovery_decision a obs timeouts now of
        None \<Rightarrow> None
      | Some (Observe s) \<Rightarrow>
          (case move_to s now a of
             Inl _ \<Rightarrow> None
           | Inr a' \<Rightarrow> settle n obs timeouts now a')
      | Some d \<Rightarrow> Some (d, a))"

section \<open>Facts about one decision\<close>

lemma recovery_total: "\<exists>d. recovery_decision a obs timeouts now = Some d"
  by (cases "attempt_state a"; cases "github obs")
    (auto simp: recovery_defs Let_def is_terminal_def split: bool.splits)

lemma observe_legal:
  "recovery_decision a obs timeouts now = Some (Observe s) \<Longrightarrow>
     (attempt_state a, s) \<in> set attempt_LEGAL \<and> (\<exists>b. github obs = Registered b)"
  by (cases "attempt_state a"; cases "github obs")
    (auto simp: recovery_defs Let_def is_terminal_def attempt_LEGAL_def split: bool.splits if_splits)

lemma conclude_applicable:
  "recovery_decision a obs timeouts now = Some (Conclude oc) \<Longrightarrow>
     attempt_state a \<in> set (required_from oc) \<and> \<not> process_alive obs \<and> github obs \<noteq> Unreachable"
  by (cases "attempt_state a"; cases "github obs")
    (auto simp: recovery_defs Let_def is_terminal_def CONCLUDABLE_FROM_def split: bool.splits if_splits)

lemma terminate_applicable:
  "recovery_decision a obs timeouts now = Some (Terminate oc) \<Longrightarrow>
     attempt_state a \<in> set (required_from oc) \<and> process_alive obs \<and> github obs \<noteq> Unreachable
     \<and> attempt_state a \<in> {Starting, Idle}"
  by (cases "attempt_state a"; cases "github obs")
    (auto simp: recovery_defs Let_def is_terminal_def CONCLUDABLE_FROM_def split: bool.splits if_splits)

lemma is_ok_conclude: "is_ok (conclude oc now a) \<longleftrightarrow> attempt_state a \<in> set (required_from oc)"
  by (auto simp: is_ok_iff conclude_Inr)

text \<open>How many observations can still follow a state.\<close>

fun observe_rank :: "attempt_state \<Rightarrow> nat" where
  "observe_rank Allocated = 4"
| "observe_rank JitReceived = 3"
| "observe_rank Starting = 2"
| "observe_rank Idle = 1"
| "observe_rank _ = 0"

lemma observe_decreases:
  "recovery_decision a obs timeouts now = Some (Observe s) \<Longrightarrow> observe_rank s < observe_rank (attempt_state a)"
  by (cases "attempt_state a"; cases "github obs")
    (auto simp: recovery_defs Let_def is_terminal_def split: bool.splits if_splits)

lemma settle_decides:
  assumes "observe_rank (attempt_state a) < n"
  shows "\<exists>d a'. settle n obs timeouts now a = Some (d, a') \<and> (\<forall>s. d \<noteq> Observe s)"
  using assms
proof (induction n arbitrary: a)
  case (Suc n)
  obtain d where d: "recovery_decision a obs timeouts now = Some d"
    using recovery_total by blast
  show ?case
  proof (cases "\<exists>s. d = Observe s")
    case True
    then obtain s where s: "d = Observe s" by blast
    let ?a = "a\<lparr>attempt_state := s, last_state_change_at := now\<rparr>"
    have "move_to s now a = Inr ?a"
      using observe_legal d s by (simp add: move_to_Inr)
    moreover have "observe_rank (attempt_state ?a) < n"
      using observe_decreases [of a obs timeouts now s] d s Suc.prems by simp
    ultimately show ?thesis using Suc.IH [of ?a] d s by auto
  next
    case False
    then show ?thesis using d by (cases d) auto
  qed
qed simp

text \<open>A dead process GitHub still lists: the observations lead to an orphan conclusion.\<close>

definition launched_or_before :: "attempt_state \<Rightarrow> bool" where
  "launched_or_before s \<longleftrightarrow> s \<in> {Allocated, JitReceived, Starting, Idle, Busy}"

lemma dead_registered_decision:
  assumes "\<not> process_alive obs" "github obs = Registered b" "launched_or_before (attempt_state a)"
  shows "recovery_decision a obs timeouts now = Some (Conclude OrphanedOutcome)
    \<or> (\<exists>s. recovery_decision a obs timeouts now = Some (Observe s) \<and> launched_or_before s)"
  using assms
  by (cases "attempt_state a")
    (auto simp: recovery_defs Let_def is_terminal_def launched_or_before_def split: bool.splits)

lemma settle_dead_registered:
  assumes "observe_rank (attempt_state a) < n" "launched_or_before (attempt_state a)"
    and "\<not> process_alive obs" "github obs = Registered b"
  shows "\<exists>a'. settle n obs timeouts now a = Some (Conclude OrphanedOutcome, a')
    \<and> \<not> is_terminal (attempt_state a')"
  using assms(1,2)
proof (induction n arbitrary: a)
  case (Suc n)
  consider "recovery_decision a obs timeouts now = Some (Conclude OrphanedOutcome)"
    | s where "recovery_decision a obs timeouts now = Some (Observe s)" "launched_or_before s"
    using dead_registered_decision [OF assms(3,4) Suc.prems(2)] by blast
  then show ?case
  proof cases
    case 1
    then show ?thesis using Suc.prems(2) by (auto simp: launched_or_before_def is_terminal_def)
  next
    case 2
    let ?a = "a\<lparr>attempt_state := s, last_state_change_at := now\<rparr>"
    have "move_to s now a = Inr ?a" using observe_legal 2 by (simp add: move_to_Inr)
    moreover have "observe_rank (attempt_state ?a) < n"
      using observe_decreases [OF 2(1)] Suc.prems(1) by simp
    ultimately show ?thesis using Suc.IH [of ?a] 2 by simp
  qed
qed simp

section \<open>Properties\<close>

text \<open>C7. Recovery never frees a slot that is in use, and never asks for a step the attempt
  refuses: a \<open>Conclude\<close> is only decided for a process that is gone and is accepted by
  \<open>conclude\<close>; a \<open>Terminate\<close> only for a live process that is starting or idle, its payload being
  accepted once the process is gone; an \<open>Observe\<close> names a legal next state.\<close>

theorem recovery_decisions_apply:
  assumes "recovery_decision a obs timeouts now = Some d"
  shows "(case d of
      Conclude oc \<Rightarrow> \<not> process_alive obs \<and> (\<exists>a'. conclude oc now a = Inr a')
    | Terminate oc \<Rightarrow> process_alive obs \<and> attempt_state a \<in> {Starting, Idle} \<and> (\<exists>a'. conclude oc now a = Inr a')
    | Observe s \<Rightarrow> (\<exists>a'. move_to s now a = Inr a')
    | _ \<Rightarrow> True)"
  using assms conclude_applicable [of a obs timeouts now] terminate_applicable [of a obs timeouts now]
    observe_legal [of a obs timeouts now]
  by (cases d) (auto simp: conclude_Inr move_to_Inr)

definition sample_dead :: recovery_observation where
  "sample_dead = \<lparr>process_alive = False, github = NotRegistered\<rparr>"

theorem recovery_decisions_apply_witness:
  "recovery_decision sample_busy sample_dead provisional 400 = Some (Conclude OrphanedOutcome)
   \<and> (\<exists>a'. conclude OrphanedOutcome 400 sample_busy = Inr a')"
proof -
  have "recovery_decision sample_busy sample_dead provisional 400 = Some (Conclude OrphanedOutcome)"
    by (simp add: recovery_defs sample_dead_def sample_attempt_defs is_terminal_def)
  then show ?thesis using recovery_decisions_apply [of sample_busy sample_dead provisional 400] by fastforce
qed

text \<open>Every observation of every attempt gets a decision (the \<open>unreachable!\<close> arms are), and
  nothing destructive is decided while GitHub is unreachable.\<close>

theorem recovery_total_and_safe_in_outage:
  "\<exists>d. recovery_decision a obs timeouts now = Some d
     \<and> (github obs = Unreachable \<longrightarrow>
          d = (if attempt_state a = Cleaned then Nothing else if is_terminal (attempt_state a) then Clean else Defer))"
proof -
  obtain d where "recovery_decision a obs timeouts now = Some d" using recovery_total by blast
  then show ?thesis by (auto simp: recovery_decision_def Let_def split: if_splits)
qed

theorem recovery_total_and_safe_in_outage_witness:
  "\<exists>d. recovery_decision sample_busy \<lparr>process_alive = False, github = Unreachable\<rparr> provisional 400 = Some d \<and> d = Defer"
  using recovery_total_and_safe_in_outage [of sample_busy "\<lparr>process_alive = False, github = Unreachable\<rparr>" provisional 400]
  by (auto simp: sample_attempt_defs is_terminal_def)

text \<open>A runner that is executing a job on a live process is left alone, whatever GitHub says and
  however long it takes: the decision is to adopt it, or to wait out an outage.\<close>

theorem live_busy_runner_left_alone:
  assumes "attempt_state a = Busy" "process_alive obs"
  shows "recovery_decision a obs timeouts now = Some (if github obs = Unreachable then Defer else Adopt)"
  using assms by (simp add: recovery_decision_def is_terminal_def)

theorem live_busy_runner_left_alone_witness:
  "recovery_decision sample_busy \<lparr>process_alive = True, github = NotRegistered\<rparr> provisional 999999999999999 = Some Adopt"
  using live_busy_runner_left_alone [of sample_busy "\<lparr>process_alive = True, github = NotRegistered\<rparr>" provisional 999999999999999]
  by (simp add: sample_attempt_defs)



text \<open>A dead runner that GitHub does not list is concluded once the handoff window has passed,
  whatever the other windows are, and never with a reason that speaks of a running process.\<close>

theorem dead_unregistered_is_concluded:
  assumes "launched_or_before (attempt_state a)" "\<not> process_alive obs" "github obs = NotRegistered"
    and "now - last_state_change_at a \<ge> jit_handoff timeouts"
  shows "\<exists>oc. recovery_decision a obs timeouts now = Some (Conclude oc)
    \<and> oc \<notin> {FailedWith RegistrationTimedOut, FailedWith TerminatedAfterRegistrationTimeout, CompletedJob}"
  using assms
  by (cases "attempt_state a") (auto simp: recovery_defs Let_def is_terminal_def launched_or_before_def)

theorem dead_unregistered_is_concluded_witness:
  "\<exists>oc. recovery_decision sample_native sample_dead provisional 120000000100 = Some (Conclude oc)"
  using dead_unregistered_is_concluded [of sample_native sample_dead provisional 120000000100]
  by (auto simp: launched_or_before_def sample_dead_def sample_attempt_defs provisional_def seconds_def)

end
