(* ===== verification/Capacity.thy ===== *)
theory Capacity
  imports Attempt
begin

text \<open>
  The two-level capacity ceiling, \<open>crates/domain/src/capacity.rs\<close>. \<open>HostAllocator\<close> owns the host's
  running total and hands out grants; the counters are machine words with the saturating and
  narrowing operations of the source. The \<open>expect\<close> on the policy's ceiling and the panic of
  \<open>clamp\<close> on an inverted range are \<open>None\<close>. The lemmas read the words as naturals.
\<close>

section \<open>Data\<close>

datatype limiting_factor =
    Demand | MinCapacity | MaxCapacity | HostCapacity | MonitorOnlyLimit | NotReconciling
  | ForeignHostLimit

record allocation =
  alloc_policy_id :: policy_id
  alloc_demand :: u32
  alloc_desired :: u16
  alloc_active_owned :: u16
  alloc_headroom_before :: u16
  alloc_to_start :: u16
  alloc_limiting_factor :: limiting_factor

record host_allocator =
  ha_host_id :: host_id
  ha_host_capacity :: u16
  ha_attempts :: "runner_attempt list"
  ha_active_total :: u16

section \<open>Operations\<close>

definition starts_nothing :: "allocation \<Rightarrow> bool" where
  "starts_nothing al \<longleftrightarrow> alloc_to_start al = 0"

definition from_attempts :: "host \<Rightarrow> runner_attempt list \<Rightarrow> host_allocator" where
  "from_attempts h as =
     \<lparr>ha_host_id = host_id h, ha_host_capacity = host_capacity h, ha_attempts = as,
      ha_active_total = active_count as\<rparr>"

definition headroom :: "host_allocator \<Rightarrow> u16" where
  "headroom ha = saturating_sub (ha_host_capacity ha) (ha_active_total ha)"

definition unassigned :: "policy_id \<Rightarrow> runner_attempt \<Rightarrow> bool" where
  "unassigned policy a \<longleftrightarrow>
     attempt_policy_id a = policy
     \<and> attempt_state a \<in> {Allocated, Preparing, Prepared, JitReceived, Starting, Idle}"

text \<open>\<open>count().min(usize::from(u16::MAX)) as u16\<close>.\<close>

definition unassigned_supply :: "policy_id \<Rightarrow> runner_attempt list \<Rightarrow> u16" where
  "unassigned_supply policy as = of_nat (min (length (filter (unassigned policy) as)) 65535)"

definition clamp :: "u32 \<Rightarrow> u32 \<Rightarrow> u32 \<Rightarrow> u32 option" where
  "clamp x lo hi = (if lo > hi then None else Some (if x < lo then lo else if x > hi then hi else x))"

definition host_allocate :: "scale_policy \<Rightarrow> u32 \<Rightarrow> host_allocator \<Rightarrow> (allocation \<times> host_allocator) option" where
  "host_allocate p demand ha =
     (let active_owned = active_count_for (policy_id p) (ha_attempts ha);
          headroom_before = headroom ha;
          refuse = (\<lambda>factor. Some (\<lparr>alloc_policy_id = policy_id p, alloc_demand = demand, alloc_desired = 0,
             alloc_active_owned = active_owned, alloc_headroom_before = headroom_before,
             alloc_to_start = 0, alloc_limiting_factor = factor\<rparr>, ha))
      in if \<not> is_owned_by p (ha_host_id ha) then refuse ForeignHostLimit
      else if \<not> owns_runners p then refuse MonitorOnlyLimit
      else if \<not> may_start_runners p then refuse NotReconciling
      else Option.bind (mode_max_capacity (policy_mode p)) (\<lambda>mx.
        let mn = mode_min_capacity (policy_mode p);
            supply = unassigned_supply (policy_id p) (ha_attempts ha);
            target = saturating_add demand (ucast (saturating_sub active_owned supply))
        in Option.bind (clamp target (ucast mn) (ucast mx)) (\<lambda>clamped.
        let desired = ucast clamped :: u16;
            factor = (if target > ucast mx then MaxCapacity
                      else if target < ucast mn then MinCapacity else Demand);
            wanted = saturating_sub desired active_owned;
            to_start = min wanted headroom_before;
            factor = (if to_start < wanted then HostCapacity else factor)
        in Some (\<lparr>alloc_policy_id = policy_id p, alloc_demand = demand, alloc_desired = desired,
                  alloc_active_owned = active_owned, alloc_headroom_before = headroom_before,
                  alloc_to_start = to_start, alloc_limiting_factor = factor\<rparr>,
                 ha\<lparr>ha_active_total := saturating_add (ha_active_total ha) to_start\<rparr>))))"

text \<open>One pass: a request per policy, in order, over one allocator.\<close>

fun allocate_all ::
  "(scale_policy \<times> u32) list \<Rightarrow> host_allocator \<Rightarrow> (allocation list \<times> host_allocator) option" where
  "allocate_all [] ha = Some ([], ha)"
| "allocate_all ((p, d) # rs) ha =
     Option.bind (host_allocate p d ha) (\<lambda>(al, ha1).
     Option.bind (allocate_all rs ha1) (\<lambda>(als, ha2). Some (al # als, ha2)))"

section \<open>Counts as naturals\<close>

lemma unat_fold_count:
  "unat (fold (\<lambda>_ acc. saturating_add acc 1) xs (acc :: u16)) = min (unat acc + length xs) 65535"
  using unat_lt_16 [of acc] by (induction xs arbitrary: acc) (auto simp: unat_simps)

lemma unat_count_where [unat_simps]: "unat (count_where P as) = min (length (filter P as)) 65535"
  by (simp add: count_where_def unat_fold_count)

lemma unat_active_count [unat_simps]:
  "unat (active_count as) = min (length (filter counts_against_capacity as)) 65535"
  by (simp add: active_count_def unat_count_where)

lemma unat_active_count_for [unat_simps]:
  "unat (active_count_for policy as) =
     min (length (filter (\<lambda>a. attempt_policy_id a = policy \<and> counts_against_capacity a) as)) 65535"
  by (simp add: active_count_for_def unat_count_where)

lemma unat_unassigned_supply [unat_simps]:
  "unat (unassigned_supply policy as) = min (length (filter (unassigned policy) as)) 65535"
  by (simp add: unassigned_supply_def unat_of_nat)

lemma unat_headroom [unat_simps]: "unat (headroom ha) = unat (ha_host_capacity ha) - unat (ha_active_total ha)"
  by (simp add: headroom_def unat_simps)

lemma unat_ucast_up [simp]: "unat (ucast (w :: u16) :: u32) = unat w"
  using unat_lt_16 [of w] by (simp add: unsigned_ucast_eq take_bit_nat_eq_self)

lemma unat_ucast_down: "unat (w :: u32) < 65536 \<Longrightarrow> unat (ucast w :: u16) = unat w"
  by (simp add: unsigned_ucast_eq take_bit_nat_eq_self)

section \<open>The documented formula\<close>

text \<open>The five lines at the head of the source file, over naturals.\<close>

definition clamp_nat :: "nat \<Rightarrow> nat \<Rightarrow> nat \<Rightarrow> nat" where
  "clamp_nat x lo hi = max lo (min hi x)"

definition desired_spec :: "nat \<Rightarrow> nat \<Rightarrow> nat \<Rightarrow> nat \<Rightarrow> nat \<Rightarrow> nat" where
  "desired_spec demand active unassigned_n mn mx = clamp_nat (demand + (active - unassigned_n)) mn mx"

definition to_start_spec :: "nat \<Rightarrow> nat \<Rightarrow> nat \<Rightarrow> nat \<Rightarrow> nat \<Rightarrow> nat \<Rightarrow> nat" where
  "to_start_spec demand active unassigned_n mn mx room =
     min (desired_spec demand active unassigned_n mn mx - active) room"

lemma clamp_nat_saturated: "hi < 65536 \<Longrightarrow> clamp_nat (min x 4294967295) lo hi = clamp_nat x lo hi"
  by (auto simp: clamp_nat_def min_def)

lemma clamp_Some:
  assumes "unat lo \<le> unat hi"
  shows "\<exists>c. clamp x lo hi = Some c \<and> unat c = clamp_nat (unat x) (unat lo) (unat hi)"
  using assms by (auto simp: clamp_def clamp_nat_def word_less_nat_alt word_le_nat_alt)

lemma host_allocate_granting:
  assumes own: "is_owned_by p (ha_host_id ha)" and may: "may_start_runners p"
    and mode: "policy_mode p = Autoscale cfg" and range: "cfg_min_capacity cfg \<le> cfg_max_capacity cfg"
  obtains al where
    "host_allocate p d ha = Some (al, ha\<lparr>ha_active_total := saturating_add (ha_active_total ha) (alloc_to_start al)\<rparr>)"
    "unat (alloc_desired al) = desired_spec (unat d) (unat (active_count_for (policy_id p) (ha_attempts ha)))
       (unat (unassigned_supply (policy_id p) (ha_attempts ha))) (unat (cfg_min_capacity cfg)) (unat (cfg_max_capacity cfg))"
    "unat (alloc_to_start al) = min (unat (alloc_desired al)
       - unat (active_count_for (policy_id p) (ha_attempts ha))) (unat (headroom ha))"
proof -
  let ?act = "active_count_for (policy_id p) (ha_attempts ha)"
    and ?sup = "unassigned_supply (policy_id p) (ha_attempts ha)"
    and ?mn = "cfg_min_capacity cfg" and ?mx = "cfg_max_capacity cfg"
  let ?t = "saturating_add d (ucast (saturating_sub ?act ?sup)) :: u32"
  have le: "unat ?mn \<le> unat ?mx" using range by (simp add: word_le_nat_alt)
  obtain c where c: "clamp ?t (ucast ?mn) (ucast ?mx) = Some c"
    and uc: "unat c = clamp_nat (unat ?t) (unat ?mn) (unat ?mx)"
    using clamp_Some [of "ucast ?mn" "ucast ?mx" ?t] le by auto
  have small: "unat c < 65536"
    using uc le unat_lt_16 [of ?mx] by (auto simp: clamp_nat_def)
  have t: "unat ?t = min (unat d + (unat ?act - unat ?sup)) 4294967295"
    by (simp add: unat_simps)
  have des: "unat (ucast c :: u16) = desired_spec (unat d) (unat ?act) (unat ?sup) (unat ?mn) (unat ?mx)"
    using small uc t unat_lt_16 [of ?mx] by (simp add: unat_ucast_down desired_spec_def clamp_nat_saturated)
  have owns: "owns_runners p" using mode by (simp add: owns_runners_def)
  show ?thesis
  proof (rule that)
    show "host_allocate p d ha = Some (fst (the (host_allocate p d ha)),
        ha\<lparr>ha_active_total := saturating_add (ha_active_total ha) (alloc_to_start (fst (the (host_allocate p d ha))))\<rparr>)"
      using own owns may mode c by (simp add: host_allocate_def Let_def)
  qed (use own owns may mode c des in \<open>simp_all add: host_allocate_def Let_def unat_simps\<close>)
qed

lemma host_allocate_grantingD:
  assumes "host_allocate p d ha = Some (al, ha')"
    and "is_owned_by p (ha_host_id ha)" "may_start_runners p"
    and "policy_mode p = Autoscale cfg" "cfg_min_capacity cfg \<le> cfg_max_capacity cfg"
  shows "unat (alloc_to_start al) = to_start_spec (unat d) (unat (active_count_for (policy_id p) (ha_attempts ha)))
       (unat (unassigned_supply (policy_id p) (ha_attempts ha))) (unat (cfg_min_capacity cfg))
       (unat (cfg_max_capacity cfg)) (unat (headroom ha))"
  using host_allocate_granting [OF assms(2-5), of d] assms(1) unfolding to_start_spec_def by fastforce

lemma host_allocate_refused:
  assumes "\<not> (is_owned_by p (ha_host_id ha) \<and> may_start_runners p)"
  shows "\<exists>al. host_allocate p d ha = Some (al, ha) \<and> alloc_to_start al = 0 \<and> alloc_desired al = 0
     \<and> alloc_limiting_factor al =
         (if \<not> is_owned_by p (ha_host_id ha) then ForeignHostLimit
          else if \<not> owns_runners p then MonitorOnlyLimit else NotReconciling)"
  using assms by (auto simp: host_allocate_def Let_def)

lemma may_start_mode: "may_start_runners p \<Longrightarrow> \<exists>cfg. policy_mode p = Autoscale cfg"
  by (cases "policy_mode p") (auto simp: may_start_runners_def)

lemma host_allocate_total:
  assumes "policy_storable p"
  shows "\<exists>al. host_allocate p d ha =
      Some (al, ha\<lparr>ha_active_total := saturating_add (ha_active_total ha) (alloc_to_start al)\<rparr>)
    \<and> unat (alloc_to_start al) \<le> unat (headroom ha)"
proof (cases "is_owned_by p (ha_host_id ha) \<and> may_start_runners p")
  case True
  then obtain cfg where cfg: "policy_mode p = Autoscale cfg" using may_start_mode by blast
  then have "cfg_min_capacity cfg \<le> cfg_max_capacity cfg"
    using assms by (auto simp: policy_storable_def)
  then show ?thesis
    using host_allocate_granting [of p ha cfg d] True cfg by (metis min.cobounded2)
next
  case False
  then show ?thesis using host_allocate_refused [OF False, of d] by auto
qed

lemma host_allocate_frame:
  "host_allocate p d ha = Some (al, ha') \<Longrightarrow>
     ha_host_id ha' = ha_host_id ha \<and> ha_host_capacity ha' = ha_host_capacity ha \<and> ha_attempts ha' = ha_attempts ha"
  by (auto simp: host_allocate_def Let_def bind_eq_Some_conv split: if_splits)

section \<open>A whole pass\<close>

lemma allocate_all_ceiling:
  assumes "\<forall>(p, d) \<in> set rs. policy_storable p"
  shows "\<exists>als ha'. allocate_all rs ha = Some (als, ha') \<and> length als = length rs
    \<and> sum_list (map (\<lambda>al. unat (alloc_to_start al)) als) \<le> unat (headroom ha)"
  using assms
proof (induction rs arbitrary: ha)
  case Nil
  then show ?case by simp
next
  case (Cons r rs)
  obtain p d where r: "r = (p, d)" by (cases r)
  have "policy_storable p" using Cons.prems r by auto
  then obtain al where al: "host_allocate p d ha =
      Some (al, ha\<lparr>ha_active_total := saturating_add (ha_active_total ha) (alloc_to_start al)\<rparr>)"
    and g: "unat (alloc_to_start al) \<le> unat (headroom ha)"
    using host_allocate_total by blast
  let ?ha = "ha\<lparr>ha_active_total := saturating_add (ha_active_total ha) (alloc_to_start al)\<rparr>"
  obtain als ha' where rest: "allocate_all rs ?ha = Some (als, ha')" "length als = length rs"
    "sum_list (map (\<lambda>al. unat (alloc_to_start al)) als) \<le> unat (headroom ?ha)"
    using Cons.IH [of ?ha] Cons.prems by auto
  have "unat (headroom ?ha) + unat (alloc_to_start al) \<le> unat (headroom ha)"
    using g unat_lt_16 [of "ha_host_capacity ha"] by (simp add: unat_simps)
  then show ?case using al rest r by simp
qed

section \<open>The same demand on the next poll\<close>

lemma unassigned_counts: "unassigned policy a \<Longrightarrow> attempt_policy_id a = policy \<and> counts_against_capacity a"
  by (auto simp: unassigned_def counts_against_capacity_def state_counts_against_capacity_def is_terminal_def)

lemma filter_length_mono: "(\<And>x. P x \<Longrightarrow> Q x) \<Longrightarrow> length (filter P xs) \<le> length (filter Q xs)"
  by (induction xs) auto

lemma min_sub_pos: "min (x - y) (z - w) \<noteq> 0 \<Longrightarrow> y < x \<and> w < (z :: nat)"
  by (simp add: min_def split: if_splits)

text \<open>The arithmetic: \<open>a\<close> active attempts of the policy, \<open>u\<close> of them unassigned, \<open>n\<close> on the host; the
  grant \<open>g\<close> joins all three counts, and nothing more is wanted or nothing more fits.\<close>

lemma second_grant_zero:
  assumes u: "u \<le> a" and mx: "mx \<le> 65535" and mn: "mn \<le> mx" and cap: "cap \<le> 65535"
    and g: "g = to_start_spec d (min a 65535) (min u 65535) mn mx (cap - min n 65535)"
  shows "to_start_spec d (min (a + g) 65535) (min (u + g) 65535) mn mx (cap - min (n + g) 65535) = 0"
proof (cases "g = 0")
  case True
  then show ?thesis using g by simp
next
  case False
  let ?D = "desired_spec d (min a 65535) (min u 65535) mn mx"
  have "?D \<le> mx" using mn by (simp add: desired_spec_def clamp_nat_def)
  then have D1: "?D \<le> 65535" using mx by (rule order_trans)
  have "min (?D - min a 65535) (cap - min n 65535) \<noteq> 0"
    using False g unfolding to_start_spec_def by blast
  then have D: "min a 65535 < ?D" "min n 65535 < cap"
    using min_sub_pos by blast+
  have "a < 65535" "n < 65535"
    using order_less_le_trans [OF D(1) D1] order_less_le_trans [OF D(2) cap] by simp_all
  then have small: "min a 65535 = a" "min n 65535 = n" "min u 65535 = u" using u by simp_all
  obtain D' where D': "?D = D'" by blast
  have "g = min (D' - a) (cap - n)" using g small D' by (simp add: to_start_spec_def)
  then have "g \<le> D' - a" "g \<le> cap - n" "g = D' - a \<or> g = cap - n"
    by (simp_all add: min_def)
  then have sums: "a + g \<le> 65535" "n + g \<le> 65535" "u + g \<le> 65535"
      and z: "D' - (a + g) = 0 \<or> cap - (n + g) = 0"
    using D1 D cap u D' unfolding small by linarith+
  have "desired_spec d (a + g) (u + g) mn mx = ?D"
    using small by (simp add: desired_spec_def)
  moreover have "min (a + g) 65535 = a + g" "min (n + g) 65535 = n + g" "min (u + g) 65535 = u + g"
    using sums by simp_all
  ultimately show ?thesis using z D' unfolding to_start_spec_def by fastforce
qed

lemma granting_to_start:
  assumes "is_owned_by p (host_id h)" "may_start_runners p" "policy_mode p = Autoscale cfg"
    "cfg_min_capacity cfg \<le> cfg_max_capacity cfg" "host_allocate p d (from_attempts h as) = Some (al, ha')"
  shows "unat (alloc_to_start al) = to_start_spec (unat d)
    (min (length (filter (\<lambda>a. attempt_policy_id a = policy_id p \<and> counts_against_capacity a) as)) 65535)
    (min (length (filter (unassigned (policy_id p)) as)) 65535)
    (unat (cfg_min_capacity cfg)) (unat (cfg_max_capacity cfg))
    (unat (host_capacity h) - min (length (filter counts_against_capacity as)) 65535)"
proof -
  have "ha_host_id (from_attempts h as) = host_id h" "ha_attempts (from_attempts h as) = as"
      "unat (headroom (from_attempts h as)) =
        unat (host_capacity h) - min (length (filter counts_against_capacity as)) 65535"
    by (simp_all add: from_attempts_def unat_simps)
  then show ?thesis
    using host_allocate_grantingD [OF assms(5)] assms(1-4)
    by (simp add: unat_active_count_for unat_unassigned_supply)
qed

lemma next_poll_starts_nothing:
  assumes st: "policy_storable p"
    and first: "host_allocate p d (from_attempts h as) = Some (al, ha1)"
    and ns: "length ns = unat (alloc_to_start al)" "\<forall>a \<in> set ns. unassigned (policy_id p) a"
    and second: "host_allocate p d (from_attempts h (as @ ns)) = Some (al2, ha2)"
  shows "alloc_to_start al2 = 0"
proof (cases "is_owned_by p (host_id h) \<and> may_start_runners p")
  case False
  then show ?thesis
    using host_allocate_refused [of p "from_attempts h (as @ ns)" d] second by (auto simp: from_attempts_def)
next
  case True
  then obtain cfg where cfg: "policy_mode p = Autoscale cfg" "cfg_min_capacity cfg \<le> cfg_max_capacity cfg"
    using may_start_mode st by (auto simp: policy_storable_def)
  have all: "filter (unassigned (policy_id p)) ns = ns" "filter counts_against_capacity ns = ns"
      "filter (\<lambda>a. attempt_policy_id a = policy_id p \<and> counts_against_capacity a) ns = ns"
    using ns(2) unassigned_counts by (auto simp: filter_id_conv)
  note grant = granting_to_start [OF True [THEN conjunct1] True [THEN conjunct2] cfg]
  have "length (filter (unassigned (policy_id p)) as)
      \<le> length (filter (\<lambda>a. attempt_policy_id a = policy_id p \<and> counts_against_capacity a) as)"
    using unassigned_counts by (intro filter_length_mono) blast
  moreover have "unat (cfg_max_capacity cfg) \<le> 65535" "unat (host_capacity h) \<le> 65535"
      "unat (cfg_min_capacity cfg) \<le> unat (cfg_max_capacity cfg)"
    using unat_lt_16 [of "cfg_max_capacity cfg"] unat_lt_16 [of "host_capacity h"] cfg(2)
    by (simp_all add: word_le_nat_alt)
  ultimately have "unat (alloc_to_start al2) = 0"
    unfolding grant [OF second] filter_append length_append all ns(1)
    by (intro second_grant_zero grant [OF first])
  then show ?thesis by (simp add: unat_eq_0)
qed

section \<open>A concrete host, policy and attempt\<close>

definition sample_labels :: routing_labels where
  "sample_labels = \<lparr>rl_host_label = Label (lit ''rm-home-win-x64''), rl_additional = []\<rparr>"

definition sample_policy :: scale_policy where
  "sample_policy =
     (new_for_host_label 7 (OrganizationTarget (Org (Name (lit ''acme'')))) 1 3 (HostLabel (lit ''home''))
       (Autoscale \<lparr>cfg_routing_labels = sample_labels, cfg_min_capacity = 0, cfg_max_capacity = 2\<rparr>)
       RetainRunnerPackage)\<lparr>policy_enabled := True, policy_state := Active\<rparr>"

definition sample_host :: host where
  "sample_host =
     \<lparr>host_id = 3, host_display_name = lit ''home'', host_os = Windows, host_architecture = X64,
      host_capacity = 3, host_service_start_mode = Boot, host_refresh_interval = refresh_default,
      host_runner_root_override = None, host_created_at = 0\<rparr>"

definition sample_attempt :: "attempt_id \<Rightarrow> runner_attempt" where
  "sample_attempt i = allocate i 7 (lit ''/run/a'') 100"

lemmas sample_defs = sample_labels_def sample_policy_def sample_host_def sample_attempt_def
  new_for_host_label_def allocate_def allocate_in_def

lemma sample_policy_props:
  "policy_storable sample_policy" "policy_id sample_policy = 7" "is_owned_by sample_policy 3"
  "may_start_runners sample_policy" "owns_runners sample_policy"
  "policy_mode sample_policy = Autoscale \<lparr>cfg_routing_labels = sample_labels, cfg_min_capacity = 0, cfg_max_capacity = 2\<rparr>"
  by (simp_all add: sample_policy_def new_for_host_label_def policy_storable_def selector_ok_def
      is_owned_by_def may_start_runners_def owns_runners_def admits_new_runners_def
      workspace_policy_is_persistent_def kind_is_persistent_def)

lemma sample_allocation:
  "\<exists>al. host_allocate sample_policy 1 (from_attempts sample_host []) = Some (al,
      (from_attempts sample_host [])\<lparr>ha_active_total := saturating_add 0 (alloc_to_start al)\<rparr>)
    \<and> unat (alloc_to_start al) = 1"
proof -
  have "active_count [] = 0" by (simp add: active_count_def count_where_def)
  then show ?thesis
    using host_allocate_granting [of sample_policy "from_attempts sample_host []"
        "\<lparr>cfg_routing_labels = sample_labels, cfg_min_capacity = 0, cfg_max_capacity = 2\<rparr>" 1]
    by (auto simp: from_attempts_def sample_host_def sample_policy_props active_count_for_def
        count_where_def unassigned_supply_def desired_spec_def clamp_nat_def unat_simps)
qed

section \<open>Properties\<close>

text \<open>C3. The host ceiling (D9): whatever policies are asked for in one pass, in whatever order
  and with whatever demand, the allocator answers every request without panicking, and the
  grants of the pass together never exceed the host capacity less the attempts already
  holding a slot.\<close>

theorem host_ceiling_holds:
  assumes "\<forall>(p, d) \<in> set rs. policy_storable p"
  shows "\<exists>als ha. allocate_all rs (from_attempts h as) = Some (als, ha) \<and> length als = length rs
    \<and> sum_list (map (\<lambda>al. unat (alloc_to_start al)) als)
        \<le> unat (host_capacity h) - length (filter counts_against_capacity as)"
proof -
  have "unat (headroom (from_attempts h as)) = unat (host_capacity h) - length (filter counts_against_capacity as)"
    using unat_lt_16 [of "host_capacity h"] by (auto simp: from_attempts_def unat_simps)
  then show ?thesis
    using allocate_all_ceiling [OF assms, of "from_attempts h as"] by simp
qed

theorem host_ceiling_holds_witness:
  "\<exists>als ha. allocate_all [(sample_policy, 9), (sample_policy, 9)] (from_attempts sample_host [sample_attempt 1])
      = Some (als, ha) \<and> sum_list (map (\<lambda>al. unat (alloc_to_start al)) als) \<le> 2"
  using host_ceiling_holds [of "[(sample_policy, 9), (sample_policy, 9)]" sample_host "[sample_attempt 1]"]
  by (auto simp: sample_policy_props sample_host_def sample_attempt_def allocate_def allocate_in_def
      counts_against_capacity_def state_counts_against_capacity_def is_terminal_def simp del: allocate_all.simps)

text \<open>C4. The per-policy ceiling (D7): a grant never takes the policy past its \<open>max_capacity\<close>; with
  more attempts than that already in flight nothing is started.\<close>

theorem policy_ceiling_holds:
  assumes "policy_storable p" "policy_mode p = Autoscale cfg"
    and "host_allocate p d (from_attempts h as) = Some (al, ha)" "alloc_to_start al \<noteq> 0"
  shows "length (filter (\<lambda>a. attempt_policy_id a = policy_id p \<and> counts_against_capacity a) as)
     + unat (alloc_to_start al) \<le> unat (cfg_max_capacity cfg)"
proof -
  have own: "is_owned_by p (host_id h)" "may_start_runners p"
    using assms(3,4) host_allocate_refused [of p "from_attempts h as" d] by (auto simp: from_attempts_def)
  have range: "cfg_min_capacity cfg \<le> cfg_max_capacity cfg"
    using assms(1,2) by (auto simp: policy_storable_def)
  define act where "act = length (filter (\<lambda>a. attempt_policy_id a = policy_id p \<and> counts_against_capacity a) as)"
  define D where "D = desired_spec (unat d) (min act 65535) (min (length (filter (unassigned (policy_id p)) as)) 65535)
      (unat (cfg_min_capacity cfg)) (unat (cfg_max_capacity cfg))"
  have "unat (alloc_to_start al) \<le> D - min act 65535"
    unfolding granting_to_start [OF own assms(2) range assms(3)] act_def [symmetric] to_start_spec_def
      D_def [symmetric] by (rule min.cobounded1)
  moreover have "unat (alloc_to_start al) \<noteq> 0"
    using assms(4) by (simp add: unat_eq_0)
  moreover have "D \<le> unat (cfg_max_capacity cfg)"
    using range unfolding D_def desired_spec_def clamp_nat_def word_le_nat_alt by (simp only: max.bounded_iff min.cobounded1)
  ultimately have "act + unat (alloc_to_start al) \<le> unat (cfg_max_capacity cfg)"
    using unat_lt_16 [of "cfg_max_capacity cfg"] by (cases "act \<le> 65535") simp_all
  then show ?thesis by (simp add: act_def)
qed

theorem policy_ceiling_holds_witness:
  "\<exists>al ha. host_allocate sample_policy 1 (from_attempts sample_host []) = Some (al, ha)
     \<and> 0 + unat (alloc_to_start al) \<le> 2"
proof -
  obtain al where al: "host_allocate sample_policy 1 (from_attempts sample_host []) = Some (al,
      (from_attempts sample_host [])\<lparr>ha_active_total := saturating_add 0 (alloc_to_start al)\<rparr>)"
    "unat (alloc_to_start al) = 1"
    using sample_allocation by blast
  then have "alloc_to_start al \<noteq> 0" by auto
  then show ?thesis
    using policy_ceiling_holds [OF sample_policy_props(1) sample_policy_props(6) al(1)] al(1) by simp
qed



text \<open>C8. A queued job seen on two consecutive polls is served once: launch what the first poll
  granted, ask again with the same demand, and the second grant is zero.\<close>

theorem repeated_poll_starts_nothing:
  assumes "policy_storable p"
    and "host_allocate p d (from_attempts h as) = Some (al, ha1)"
    and "length ns = unat (alloc_to_start al)" "\<forall>a \<in> set ns. unassigned (policy_id p) a"
    and "host_allocate p d (from_attempts h (as @ ns)) = Some (al2, ha2)"
  shows "alloc_to_start al2 = 0"
  using next_poll_starts_nothing assms .

theorem repeated_poll_starts_nothing_witness:
  "\<exists>al2 ha2. host_allocate sample_policy 1 (from_attempts sample_host [sample_attempt 1]) = Some (al2, ha2)
     \<and> alloc_to_start al2 = 0"
proof -
  obtain al where al: "host_allocate sample_policy 1 (from_attempts sample_host []) = Some (al,
      (from_attempts sample_host [])\<lparr>ha_active_total := saturating_add 0 (alloc_to_start al)\<rparr>)"
    "unat (alloc_to_start al) = 1"
    using sample_allocation by blast
  have ns: "length [sample_attempt 1] = unat (alloc_to_start al)" "\<forall>a \<in> set [sample_attempt 1]. unassigned (policy_id sample_policy) a"
    using al(2) by (simp_all add: sample_attempt_def allocate_def allocate_in_def unassigned_def sample_policy_props)
  obtain al2 ha2 where "host_allocate sample_policy 1 (from_attempts sample_host ([] @ [sample_attempt 1])) = Some (al2, ha2)"
    using host_allocate_total [OF sample_policy_props(1)] by blast
  then show ?thesis
    using repeated_poll_starts_nothing [OF sample_policy_props(1) al(1) ns] by auto
qed

text \<open>A policy of another host, a monitor-only policy, and one that is disabled or not active
  start nothing and spend no headroom, and the allocation says which of the three applied.\<close>

theorem refused_policy_starts_nothing:
  assumes "\<not> is_owned_by p (ha_host_id ha) \<or> \<not> owns_runners p \<or> \<not> policy_enabled p \<or> policy_state p \<noteq> Active"
  shows "\<exists>al. host_allocate p d ha = Some (al, ha) \<and> alloc_to_start al = 0 \<and> alloc_desired al = 0
     \<and> alloc_limiting_factor al =
         (if \<not> is_owned_by p (ha_host_id ha) then ForeignHostLimit
          else if \<not> owns_runners p then MonitorOnlyLimit else NotReconciling)"
  using assms
  by (intro host_allocate_refused) (auto simp: may_start_runners_def owns_runners_def admits_new_runners_def)

theorem refused_policy_starts_nothing_witness:
  "\<exists>al. host_allocate (sample_policy\<lparr>policy_state := Draining\<rparr>) 4 (from_attempts sample_host []) =
       Some (al, from_attempts sample_host []) \<and> alloc_to_start al = 0 \<and> alloc_limiting_factor al = NotReconciling"
  using refused_policy_starts_nothing [of "sample_policy\<lparr>policy_state := Draining\<rparr>" "from_attempts sample_host []" 4]
  by (auto simp: from_attempts_def sample_host_def sample_policy_def new_for_host_label_def is_owned_by_def owns_runners_def)

end
