(* ===== verification/Rate_Limit.thy ===== *)
theory Rate_Limit
  imports Workspace
begin

text \<open>
  GitHub's refusals and the quiet period they open: the error types of \<open>crates/github/src/lib.rs\<close>
  and \<open>rest.rs\<close>, how a rate limit is recognised and how long it asks for (\<open>RateLimited\<close>), what a
  failed read is summarised to (\<open>RefreshState\<close>), and the hold the demand gateway keeps on behalf
  of every target loop of the host (\<open>held\<close>, \<open>hold_for\<close> and \<open>clear_hold\<close> of \<open>demand.rs\<close>).

  A \<open>Duration\<close> is a natural number of nanoseconds saturating at \<open>DURATION_MAX\<close>; a header map is
  an association list; the inventory a ready state carries is a type parameter. \<open>latest\<close> is the
  last instant of the timestamp type, past which the checked addition answers \<open>None\<close>.
\<close>

section \<open>Durations\<close>

type_synonym duration = nat

definition DURATION_MAX :: duration where
  "DURATION_MAX = (2 ^ 64 - 1) * 1000000000 + 999999999"

definition from_secs :: "nat \<Rightarrow> duration" where
  "from_secs n = n * 1000000000"

definition as_secs :: "duration \<Rightarrow> nat" where
  "as_secs d = d div 1000000000"

definition duration_mul :: "duration \<Rightarrow> u32 \<Rightarrow> duration" where
  "duration_mul d k = min (d * unat k) DURATION_MAX"

definition duration_add :: "duration \<Rightarrow> duration \<Rightarrow> duration" where
  "duration_add a b = min (a + b) DURATION_MAX"

text \<open>\<open>TimeDelta::to_std\<close> refuses a negative difference; \<open>checked_add_signed\<close> refuses an instant
  past the end of the type; \<open>timestamp\<close> is the whole second, rounded down.\<close>

definition to_std :: "elapsed \<Rightarrow> duration option" where
  "to_std e = (if e < 0 then None else Some (nat e))"

definition checked_add_signed :: "timestamp \<Rightarrow> timestamp \<Rightarrow> duration \<Rightarrow> timestamp option" where
  "checked_add_signed latest t d = (if t + int d \<le> latest then Some (t + int d) else None)"

definition unix_secs :: "timestamp \<Rightarrow> int" where
  "unix_secs t = t div 1000000000"

section \<open>Header values\<close>

type_synonym headers = "(ustr \<times> ustr) list"

definition digits_value :: "ustr \<Rightarrow> nat" where
  "digits_value ds = foldl (\<lambda>n c. 10 * n + (c - 48)) 0 ds"

text \<open>\<open>str::parse::<u64>\<close>: an optional plus sign, then at least one digit, within the type.\<close>

definition parse_u64 :: "ustr \<Rightarrow> u64 option" where
  "parse_u64 s =
     (let ds = (case s of [] \<Rightarrow> [] | c # cs \<Rightarrow> if c = ch CHR ''+'' then cs else s) in
      if ds = [] \<or> \<not> list_all is_ascii_digit ds \<or> digits_value ds \<ge> 2 ^ 64 then None
      else Some (of_nat (digits_value ds)))"

definition header_u64 :: "headers \<Rightarrow> ustr \<Rightarrow> u64 option" where
  "header_u64 hs nm = Option.bind (map_of hs nm) (\<lambda>v. parse_u64 (trim v))"

definition header_retry_after :: "headers \<Rightarrow> duration option" where
  "header_retry_after hs = map_option (\<lambda>n. from_secs (unat n)) (header_u64 hs (lit ''retry-after''))"

section \<open>Errors\<close>

datatype github_error =
    AuthenticationFailedError
  | AuthenticationLockout duration
  | Forbidden ustr ustr "ustr option" headers
  | Status u16 ustr ustr "ustr option" headers
  | Transport
  | Decode ustr ustr
  | Malformed ustr ustr
  | Config ustr

record rate_limit_evidence =
  ev_remaining :: "u64 option"
  ev_reset_unix_secs :: "u64 option"
  ev_retry_after :: "duration option"

datatype rate_limit_kind = Primary | Secondary

record rate_limited =
  rl_kind :: rate_limit_kind
  rl_retry_after :: "duration option"
  rl_remaining :: "u64 option"
  rl_reset_unix_secs :: "u64 option"

datatype inventory_error =
    RateLimitedError rate_limited
  | CancelledError
  | Github github_error

datatype 's refresh_state =
    Ready 's
  | RateLimitedState rate_limited
  | Unauthorized
  | LockedOut duration
  | ForbiddenState "ustr option"
  | Offline
  | FailedState "u16 option" ustr
  | CancelledState

fun error_headers :: "github_error \<Rightarrow> headers option" where
  "error_headers (Forbidden _ _ _ hs) = Some hs"
| "error_headers (Status _ _ _ _ hs) = Some hs"
| "error_headers _ = None"

definition error_retry_after :: "github_error \<Rightarrow> duration option" where
  "error_retry_after e = Option.bind (error_headers e) header_retry_after"

definition error_rate_limit :: "github_error \<Rightarrow> rate_limit_evidence option" where
  "error_rate_limit e =
     Option.bind (error_headers e) (\<lambda>hs.
       let remaining = header_u64 hs (lit ''x-ratelimit-remaining'');
           reset = header_u64 hs (lit ''x-ratelimit-reset'')
       in if remaining = None \<and> reset = None then None
          else Some \<lparr>ev_remaining = remaining, ev_reset_unix_secs = reset, ev_retry_after = error_retry_after e\<rparr>)"

section \<open>Recognising a rate limit\<close>

definition DEFAULT_RATE_LIMIT_BACKOFF :: duration where
  "DEFAULT_RATE_LIMIT_BACKOFF = from_secs 60"

definition MAX_RATE_LIMIT_BACKOFF :: duration where
  "MAX_RATE_LIMIT_BACKOFF = from_secs (15 * 60)"

definition detect :: "github_error \<Rightarrow> rate_limited option" where
  "detect e =
     (case (case e of
              Status status _ _ message _ \<Rightarrow> Some (status, message)
            | Forbidden _ _ message _ \<Rightarrow> Some (403, message)
            | _ \<Rightarrow> None) of
        None \<Rightarrow> None
      | Some (status, message) \<Rightarrow>
          if status \<noteq> 403 \<and> status \<noteq> 429 then None
          else
            (let evidence = error_rate_limit e;
                 remaining = Option.bind evidence ev_remaining;
                 says_rate_limit = (case message of None \<Rightarrow> False
                   | Some m \<Rightarrow> str_contains (to_ascii_lowercase m) (lit ''rate limit''))
             in if status \<noteq> 429 \<and> \<not> says_rate_limit then None
                else Some \<lparr>rl_kind = (if remaining = Some 0 then Primary else Secondary),
                           rl_retry_after = error_retry_after e, rl_remaining = remaining,
                           rl_reset_unix_secs = Option.bind evidence ev_reset_unix_secs\<rparr>))"

definition delay_from :: "rate_limited \<Rightarrow> timestamp \<Rightarrow> duration" where
  "delay_from limit now =
     (let requested =
            (case rl_retry_after limit of
               Some d \<Rightarrow> Some d
             | None \<Rightarrow>
                 Option.bind (rl_reset_unix_secs limit) (\<lambda>reset.
                   if unat reset \<ge> 2 ^ 63 then None
                   else
                     (let seconds = int (unat reset) - unix_secs now in
                      if seconds < 0 then None else Some (from_secs (nat seconds)))));
          requested = (case requested of
             Some d \<Rightarrow> if d > 0 then d else DEFAULT_RATE_LIMIT_BACKOFF
           | None \<Rightarrow> DEFAULT_RATE_LIMIT_BACKOFF)
      in min requested MAX_RATE_LIMIT_BACKOFF)"

fun is_rate_limited :: "inventory_error \<Rightarrow> bool" where
  "is_rate_limited (RateLimitedError _) = True"
| "is_rate_limited _ = False"

fun is_offline :: "inventory_error \<Rightarrow> bool" where
  "is_offline (Github Transport) = True"
| "is_offline _ = False"

text \<open>\<open>render\<close> is the \<open>Display\<close> of a gateway error.\<close>

fun from_error :: "(github_error \<Rightarrow> ustr) \<Rightarrow> inventory_error \<Rightarrow> 's refresh_state" where
  "from_error render (RateLimitedError limit) = RateLimitedState limit"
| "from_error render CancelledError = CancelledState"
| "from_error render (Github e) =
     (case e of
        AuthenticationFailedError \<Rightarrow> Unauthorized
      | AuthenticationLockout retry_after \<Rightarrow> LockedOut retry_after
      | Forbidden _ _ message _ \<Rightarrow> ForbiddenState message
      | Transport \<Rightarrow> Offline
      | Status status _ _ _ _ \<Rightarrow> FailedState (Some status) (render e)
      | _ \<Rightarrow> FailedState None (render e))"

definition from_result :: "(github_error \<Rightarrow> ustr) \<Rightarrow> inventory_error + 's \<Rightarrow> 's refresh_state" where
  "from_result render r = (case r of Inr snapshot \<Rightarrow> Ready snapshot | Inl e \<Rightarrow> from_error render e)"

fun retry_delay :: "'s refresh_state \<Rightarrow> timestamp \<Rightarrow> duration option" where
  "retry_delay (RateLimitedState limit) now = Some (delay_from limit now)"
| "retry_delay (LockedOut retry_after) now = Some retry_after"
| "retry_delay _ now = None"

section \<open>The shared quiet period\<close>

definition HOLD_MEMORY :: duration where
  "HOLD_MEMORY = from_secs (60 * 60)"

record rate_limit_hold =
  hold_until :: timestamp
  hold_limit :: rate_limited
  hold_consecutive :: u32

definition held :: "rate_limit_hold option \<Rightarrow> timestamp \<Rightarrow> rate_limited option" where
  "held hold now =
     Option.bind hold (\<lambda>h.
     Option.bind (to_std (hold_until h - now)) (\<lambda>d.
       let left = min d MAX_RATE_LIMIT_BACKOFF in
       if left = 0 then None else Some ((hold_limit h)\<lparr>rl_retry_after := Some left\<rparr>)))"

definition live_hold :: "rate_limit_hold option \<Rightarrow> timestamp \<Rightarrow> rate_limit_hold option" where
  "live_hold previous now = Option.bind previous (\<lambda>p. if hold_until p > now then Some p else None)"

definition recent_hold :: "rate_limit_hold option \<Rightarrow> timestamp \<Rightarrow> rate_limit_hold option" where
  "recent_hold hold now = Option.bind hold (\<lambda>p. if now - hold_until p < int HOLD_MEMORY then Some p else None)"

definition episode :: "rate_limit_kind \<Rightarrow> rate_limit_hold option \<Rightarrow> rate_limit_hold option \<Rightarrow> u32" where
  "episode kind previous live =
     (case (kind, previous, live) of
        (Primary, _, _) \<Rightarrow> 0
      | (Secondary, _, Some l) \<Rightarrow> max (hold_consecutive l) 1
      | (Secondary, Some p, None) \<Rightarrow> saturating_add (hold_consecutive p) 1
      | (Secondary, None, None) \<Rightarrow> 1)"

definition episode_wait :: "u32 \<Rightarrow> duration \<Rightarrow> duration" where
  "episode_wait consecutive wait =
     (if consecutive > 1
      then min (max wait (duration_mul DEFAULT_RATE_LIMIT_BACKOFF
                            (push_bit (unat (min (consecutive - 1) 10)) 1))) MAX_RATE_LIMIT_BACKOFF
      else wait)"

definition hold_for ::
  "timestamp \<Rightarrow> rate_limited \<Rightarrow> timestamp \<Rightarrow> rate_limit_hold option \<Rightarrow> rate_limited \<times> rate_limit_hold" where
  "hold_for latest limit now hold =
     (let previous = recent_hold hold now;
          live = live_hold previous now;
          consecutive_secondary = episode (rl_kind limit) previous live;
          wait = episode_wait consecutive_secondary (delay_from limit now);
          until = (case checked_add_signed latest now wait of Some t \<Rightarrow> t | None \<Rightarrow> now);
          (until, wait) = (case live of
             Some l \<Rightarrow>
               if hold_until l > until
               then (hold_until l, case to_std (hold_until l - now) of Some d \<Rightarrow> d | None \<Rightarrow> wait)
               else (until, wait)
           | None \<Rightarrow> (until, wait))
      in (limit\<lparr>rl_retry_after := Some wait\<rparr>,
          \<lparr>hold_until = until, hold_limit = limit,
           hold_consecutive = max consecutive_secondary
             (case live of None \<Rightarrow> 0 | Some l \<Rightarrow> hold_consecutive l)\<rparr>))"

definition clear_hold :: "timestamp \<Rightarrow> rate_limit_hold option \<Rightarrow> rate_limit_hold option" where
  "clear_hold now hold =
     (case hold of Some h \<Rightarrow> if hold_until h \<le> now then None else hold | None \<Rightarrow> None)"

section \<open>Bounds on a wait\<close>

lemmas backoff_defs = DEFAULT_RATE_LIMIT_BACKOFF_def MAX_RATE_LIMIT_BACKOFF_def HOLD_MEMORY_def from_secs_def

lemma delay_from_bounds: "0 < delay_from limit now" "delay_from limit now \<le> MAX_RATE_LIMIT_BACKOFF"
  by (auto simp: delay_from_def backoff_defs Let_def split: option.splits)

lemma unat_episode_factor:
  "unat (2 ^ unat (min (c - 1) 10) :: u32) = 2 ^ min (unat (c - 1)) 10" for c :: u32
proof -
  have "unat (min (c - 1) 10) = min (unat (c - 1)) 10" by (simp add: unat_min)
  moreover have "unat (2 ^ k :: u32) = 2 ^ k" if "k \<le> 10" for k
  proof -
    have "(2 :: nat) ^ k < 2 ^ 32" using that by (intro power_strict_increasing) auto
    moreover have "(2 :: u32) ^ k = of_nat (2 ^ k)" by simp
    ultimately show ?thesis by (simp only: unat_of_nat) simp
  qed
  ultimately show ?thesis by simp
qed

lemma episode_wait_bounds:
  assumes "w \<le> MAX_RATE_LIMIT_BACKOFF"
  shows "w \<le> episode_wait c w" "episode_wait c w \<le> MAX_RATE_LIMIT_BACKOFF"
  using assms by (auto simp: episode_wait_def)

lemma episode_wait_doubles:
  assumes "1 < unat c"
  shows "min MAX_RATE_LIMIT_BACKOFF (2 ^ min (unat c - 1) 10 * DEFAULT_RATE_LIMIT_BACKOFF) \<le> episode_wait c w"
proof -
  have "1 < c" "unat (c - 1) = unat c - 1"
    using assms by (simp_all add: word_less_nat_alt unat_sub word_le_nat_alt)
  moreover have "DEFAULT_RATE_LIMIT_BACKOFF * 2 ^ min (unat c - 1) 10 \<le> DURATION_MAX"
  proof -
    have "(2 :: nat) ^ min (unat c - 1) 10 \<le> 2 ^ 10" by (intro power_increasing) auto
    then have "DEFAULT_RATE_LIMIT_BACKOFF * 2 ^ min (unat c - 1) 10 \<le> DEFAULT_RATE_LIMIT_BACKOFF * 2 ^ 10"
      by (rule mult_le_mono2)
    then show ?thesis by (simp add: DURATION_MAX_def backoff_defs)
  qed
  ultimately show ?thesis
    by (simp add: episode_wait_def duration_mul_def unat_episode_factor mult.commute le_max_iff_disj)
qed

lemma held_iff: "held (Some h) t \<noteq> None \<longleftrightarrow> t < hold_until h"
  by (auto simp: held_def to_std_def Let_def backoff_defs)

lemma live_hold_Some: "live_hold (recent_hold hold now) now = Some p \<longleftrightarrow> hold = Some p \<and> now < hold_until p"
  by (auto simp: live_hold_def recent_hold_def backoff_defs Option.bind_eq_Some_conv split: if_splits)

lemma hold_for_until:
  assumes "hold_for latest limit now hold = (r, h)" "now + int MAX_RATE_LIMIT_BACKOFF \<le> latest"
  obtains w where "rl_retry_after r = Some w" "hold_until h = now + int w" "delay_from limit now \<le> w"
    "\<And>p. hold = Some p \<Longrightarrow> now < hold_until p \<Longrightarrow> hold_until p \<le> hold_until h"
    "episode_wait (episode (rl_kind limit) (recent_hold hold now) (live_hold (recent_hold hold now) now))
       (delay_from limit now) \<le> w"
proof -
  define c where "c = episode (rl_kind limit) (recent_hold hold now) (live_hold (recent_hold hold now) now)"
  define w0 where "w0 = episode_wait c (delay_from limit now)"
  have w0: "delay_from limit now \<le> w0" "now + int w0 \<le> latest"
    using episode_wait_bounds [OF delay_from_bounds(2) [of limit now], where c = c] assms(2)
    unfolding w0_def by linarith+
  have eq: "hold_for latest limit now hold =
     (let (until, wait) = (case live_hold (recent_hold hold now) now of
             Some l \<Rightarrow> if hold_until l > now + int w0
               then (hold_until l, case to_std (hold_until l - now) of Some d \<Rightarrow> d | None \<Rightarrow> w0)
               else (now + int w0, w0)
           | None \<Rightarrow> (now + int w0, w0))
      in (limit\<lparr>rl_retry_after := Some wait\<rparr>,
          \<lparr>hold_until = until, hold_limit = limit,
           hold_consecutive = max c (case live_hold (recent_hold hold now) now of None \<Rightarrow> 0 | Some l \<Rightarrow> hold_consecutive l)\<rparr>))"
    using w0(2) unfolding hold_for_def Let_def c_def [symmetric] w0_def [symmetric]
    by (simp add: checked_add_signed_def split: option.split)
  show thesis
  proof (cases "live_hold (recent_hold hold now) now")
    case None
    then have "\<And>p. hold = Some p \<Longrightarrow> \<not> now < hold_until p" using live_hold_Some [of hold now] by auto
    then show thesis using that [of w0] assms(1) w0 None by (auto simp: eq w0_def c_def)
  next
    case (Some l)
    then have l: "hold = Some l" "now < hold_until l" by (auto simp: live_hold_Some)
    show thesis
    proof (cases "hold_until l > now + int w0")
      case True
      then have "rl_retry_after r = Some (nat (hold_until l - now))" "hold_until h = hold_until l"
        using assms(1) Some l(2) unfolding eq by (auto simp: to_std_def)
      then show thesis
        using True w0 l by (intro that [of "nat (hold_until l - now)"]) (auto simp: w0_def c_def)
    next
      case False
      then have "rl_retry_after r = Some w0" "hold_until h = now + int w0"
        using assms(1) Some unfolding eq by auto
      then show thesis using False w0 l by (intro that [of w0]) (auto simp: w0_def c_def)
    qed
  qed
qed

lemma hold_for_consecutive:
  "hold_consecutive (snd (hold_for latest limit now hold)) =
     max (episode (rl_kind limit) (recent_hold hold now) (live_hold (recent_hold hold now) now))
       (case live_hold (recent_hold hold now) now of None \<Rightarrow> 0 | Some l \<Rightarrow> hold_consecutive l)"
  by (simp add: hold_for_def Let_def split_def)

text \<open>A run of secondary limits: each answer arrives after the hold the previous one opened has
  ended, and within the hour after which an ended hold is forgotten.\<close>

fun still_limited :: "timestamp \<Rightarrow> rate_limit_hold \<Rightarrow> (rate_limited \<times> timestamp) list \<Rightarrow> bool" where
  "still_limited latest h [] = True"
| "still_limited latest h ((l, now) # rest) \<longleftrightarrow>
     rl_kind l = Secondary \<and> hold_until h \<le> now \<and> now < hold_until h + int HOLD_MEMORY
     \<and> now + int MAX_RATE_LIMIT_BACKOFF \<le> latest
     \<and> still_limited latest (snd (hold_for latest l now (Some h))) rest"

definition hold_after :: "timestamp \<Rightarrow> rate_limit_hold \<Rightarrow> (rate_limited \<times> timestamp) list \<Rightarrow> rate_limit_hold" where
  "hold_after latest h ls = fold (\<lambda>(l, now) h. snd (hold_for latest l now (Some h))) ls h"

lemma next_episode:
  assumes "rl_kind l = Secondary" "hold_until h \<le> now" "now < hold_until h + int HOLD_MEMORY"
  shows "episode (rl_kind l) (recent_hold (Some h) now) (live_hold (recent_hold (Some h) now) now)
      = saturating_add (hold_consecutive h) 1"
    and "hold_consecutive (snd (hold_for latest l now (Some h))) = saturating_add (hold_consecutive h) 1"
proof -
  have "recent_hold (Some h) now = Some h" "live_hold (Some h) now = None"
    using assms(2,3) by (auto simp: recent_hold_def live_hold_def)
  then show "episode (rl_kind l) (recent_hold (Some h) now) (live_hold (recent_hold (Some h) now) now)
      = saturating_add (hold_consecutive h) 1"
    and "hold_consecutive (snd (hold_for latest l now (Some h))) = saturating_add (hold_consecutive h) 1"
    using assms(1) by (simp_all add: episode_def hold_for_consecutive)
qed

lemma still_limited_append:
  "still_limited latest h (xs @ ys) \<longleftrightarrow> still_limited latest h xs \<and> still_limited latest (hold_after latest h xs) ys"
  by (induction latest h xs rule: still_limited.induct) (simp_all add: hold_after_def)

lemma hold_after_consecutive:
  "still_limited latest h ls \<Longrightarrow>
     unat (hold_consecutive (hold_after latest h ls)) = min (unat (hold_consecutive h) + length ls) (2 ^ 32 - 1)"
proof (induction ls arbitrary: h)
  case Nil
  then show ?case using unat_lt_32 [of "hold_consecutive h"] by (simp add: hold_after_def)
next
  case (Cons x ls)
  obtain l now where x: "x = (l, now)" by (cases x)
  have "unat (hold_consecutive (snd (hold_for latest l now (Some h)))) = min (unat (hold_consecutive h) + 1) (2 ^ 32 - 1)"
    using Cons.prems next_episode(2) [of l h now latest] by (simp add: x unat_saturating_add)
  with Cons show ?case by (auto simp: x hold_after_def)
qed

section \<open>Properties\<close>

text \<open>A recognised rate limit opens one quiet period for the whole host: the wait handed to the
  caller is positive and at least what GitHub asked for, requests are held back at exactly the
  instants before its end (also after the end-of-hold clean-up), and a limit that arrives during
  a quiet period never shortens it.\<close>

theorem quiet_period_opens:
  assumes "hold_for latest limit now hold = (r, h)" "now + int MAX_RATE_LIMIT_BACKOFF \<le> latest"
  shows "(\<exists>w. rl_retry_after r = Some w \<and> 0 < w \<and> delay_from limit now \<le> w \<and> hold_until h = now + int w)
    \<and> (\<forall>t. held (Some h) t \<noteq> None \<longleftrightarrow> t < hold_until h)
    \<and> (\<forall>t t'. t' \<le> t \<longrightarrow> (held (clear_hold t' (Some h)) t \<noteq> None \<longleftrightarrow> t < hold_until h))
    \<and> (\<forall>p. hold = Some p \<longrightarrow> now < hold_until p \<longrightarrow> hold_until p \<le> hold_until h)"
proof -
  obtain w where w: "rl_retry_after r = Some w" "hold_until h = now + int w" "delay_from limit now \<le> w"
    and live: "\<And>p. hold = Some p \<Longrightarrow> now < hold_until p \<Longrightarrow> hold_until p \<le> hold_until h"
    using hold_for_until [OF assms] by blast
  have "held (clear_hold t' (Some h)) t \<noteq> None \<longleftrightarrow> t < hold_until h" if "t' \<le> t" for t t'
    using that held_iff [of h t] by (auto simp: clear_hold_def held_def)
  then show ?thesis
    using w live held_iff delay_from_bounds(1) [of limit now] by auto
qed

definition sample_limit :: rate_limited where
  "sample_limit = \<lparr>rl_kind = Secondary, rl_retry_after = None, rl_remaining = None, rl_reset_unix_secs = None\<rparr>"

theorem quiet_period_opens_witness:
  "held (Some (snd (hold_for (10 ^ 18) sample_limit 0 None))) 59999999999 \<noteq> None
   \<and> held (Some (snd (hold_for (10 ^ 18) sample_limit 0 None))) 60000000000 = None"
proof -
  define p where "p = hold_for (10 ^ 18) sample_limit 0 None"
  have p: "hold_for (10 ^ 18) sample_limit 0 None = (fst p, snd p)" by (simp add: p_def)
  have "hold_until (snd p) = 60000000000"
    by (simp add: p_def hold_for_def sample_limit_def recent_hold_def live_hold_def episode_def episode_wait_def
        delay_from_def checked_add_signed_def backoff_defs Let_def)
  moreover have "\<forall>t. held (Some (snd p)) t \<noteq> None \<longleftrightarrow> t < hold_until (snd p)"
    using quiet_period_opens [OF p] by (simp add: backoff_defs)
  ultimately show ?thesis unfolding p_def [symmetric] by fastforce
qed

text \<open>Repeated secondary limits back off exponentially: in a run of \<open>n + 1\<close> of them, each
  arriving after the hold before it ended, the run is counted exactly and the last one silences
  the host for at least \<open>60 * 2 ^ n\<close> seconds, up to fifteen minutes. A limit that arrives while a hold is
  in force is the same episode and leaves the count alone.\<close>

theorem secondary_limits_double:
  assumes "still_limited latest h (ls @ [(l, now)])" "hold_consecutive h = 1"
  shows "unat (hold_consecutive (hold_after latest h (ls @ [(l, now)]))) = min (length ls + 2) (2 ^ 32 - 1)
    \<and> hold_until (hold_after latest h (ls @ [(l, now)])) \<ge>
        now + int (min MAX_RATE_LIMIT_BACKOFF (2 ^ min (length ls + 1) 10 * DEFAULT_RATE_LIMIT_BACKOFF))
    \<and> (\<forall>l' t. rl_kind l' = Secondary \<longrightarrow> t < hold_until h \<longrightarrow>
         hold_consecutive (snd (hold_for latest l' t (Some h))) = hold_consecutive h)"
proof -
  let ?h = "hold_after latest h ls"
  have lim: "still_limited latest h ls" "rl_kind l = Secondary" "hold_until ?h \<le> now"
      "now < hold_until ?h + int HOLD_MEMORY" "now + int MAX_RATE_LIMIT_BACKOFF \<le> latest"
    using assms(1) by (auto simp: still_limited_append)
  obtain r h' where h': "hold_for latest l now (Some ?h) = (r, h')" by fastforce
  define c where "c = saturating_add (hold_consecutive ?h) 1"
  have c: "unat c = min (length ls + 2) (2 ^ 32 - 1)"
    using hold_after_consecutive [OF lim(1)] assms(2) by (simp add: c_def unat_saturating_add)
  then have big: "1 < unat c" "min (unat c - 1) 10 = min (length ls + 1) 10" by simp_all
  obtain w where w: "hold_until h' = now + int w" "episode_wait c (delay_from l now) \<le> w"
    using hold_for_until [OF h' lim(5)] next_episode(1) [OF lim(2-4)] by (metis c_def)
  have "int (min MAX_RATE_LIMIT_BACKOFF (2 ^ min (length ls + 1) 10 * DEFAULT_RATE_LIMIT_BACKOFF)) \<le> int w"
    using order_trans [OF episode_wait_doubles [OF big(1)] w(2)] big(2) by (simp only: of_nat_le_iff)
  moreover have "hold_after latest h (ls @ [(l, now)]) = h'"
    using h' by (simp add: hold_after_def)
  moreover have "hold_consecutive (snd (hold_for latest l' t (Some h))) = hold_consecutive h"
    if "rl_kind l' = Secondary" "t < hold_until h" for l' t
    using that live_hold_Some [of "Some h" t h] assms(2)
    by (simp add: hold_for_consecutive episode_def split: option.split)
  ultimately show ?thesis
    using w(1) next_episode(2) [OF lim(2-4), of latest] h' c by (simp add: c_def)
qed

theorem secondary_limits_double_witness:
  "hold_until (hold_after (10 ^ 18) (snd (hold_for (10 ^ 18) sample_limit 0 None)) ([] @ [(sample_limit, 60000000000)]))
     \<ge> 180000000000"
proof -
  let ?h = "snd (hold_for (10 ^ 18) sample_limit 0 None)"
  have "hold_until ?h = 60000000000" "hold_consecutive ?h = 1"
    by (simp_all add: hold_for_def sample_limit_def recent_hold_def live_hold_def episode_def episode_wait_def
        delay_from_def checked_add_signed_def backoff_defs Let_def)
  then show ?thesis
    using secondary_limits_double [of "10 ^ 18" ?h "[]" sample_limit 60000000000]
    by (simp add: backoff_defs, simp add: sample_limit_def)
qed

end
