(* ===== verification/Traffic.thy ===== *)
theory Traffic
  imports Rate_Limit
begin

text \<open>
  Traffic accounting, \<open>crates/github/src/traffic.rs\<close>: a ring of sixty one-minute buckets that
  counts every response the client received by class, the newest reading of the account's
  hourly quota, and how hard that reading says to slow down. The state behind the mutex is the
  record \<open>api_traffic\<close>; a status code is its number.
\<close>

section \<open>Data\<close>

definition SECONDARY_POINTS_PER_MINUTE :: u32 where "SECONDARY_POINTS_PER_MINUTE = 900"
definition LOW_PRIMARY_REMAINING_PERCENT :: u64 where "LOW_PRIMARY_REMAINING_PERCENT = 20"
definition CRITICAL_PRIMARY_REMAINING_PERCENT :: u64 where "CRITICAL_PRIMARY_REMAINING_PERCENT = 5"
definition WINDOW_MINUTES :: nat where "WINDOW_MINUTES = 60"

record rate_limit_snapshot =
  snap_limit :: u64
  snap_remaining :: u64
  snap_used :: "u64 option"
  snap_reset_unix_secs :: u64
  snap_observed_at :: timestamp

datatype primary_pressure = Normal | Low | Critical

record minute_bucket =
  epoch_minute :: int
  bucket_full :: u32
  bucket_not_modified :: u32
  bucket_failed :: u32

record api_traffic =
  minutes :: "minute_bucket list"
  first_seen :: "timestamp option"
  latest_snapshot :: "rate_limit_snapshot option"

record traffic_summary =
  observed_minutes :: u32
  sum_full :: u32
  sum_not_modified :: u32
  sum_failed :: u32
  peak_requests_per_minute :: u32
  sum_rate_limit :: "rate_limit_snapshot option"

section \<open>The quota reading\<close>

definition from_headers :: "headers \<Rightarrow> timestamp \<Rightarrow> rate_limit_snapshot option" where
  "from_headers hs now =
     (if (case map_of hs (lit ''x-ratelimit-resource'') of None \<Rightarrow> False
          | Some r \<Rightarrow> to_ascii_lowercase (trim r) \<noteq> lit ''core'') then None
      else
        Option.bind (header_u64 hs (lit ''x-ratelimit-limit'')) (\<lambda>limit.
        Option.bind (header_u64 hs (lit ''x-ratelimit-remaining'')) (\<lambda>remaining.
        Option.bind (header_u64 hs (lit ''x-ratelimit-reset'')) (\<lambda>reset.
          Some \<lparr>snap_limit = limit, snap_remaining = remaining,
                snap_used = header_u64 hs (lit ''x-ratelimit-used''),
                snap_reset_unix_secs = reset, snap_observed_at = now\<rparr>))))"

definition reset_in :: "rate_limit_snapshot \<Rightarrow> timestamp \<Rightarrow> duration" where
  "reset_in s now =
     (let reset = min (int (unat (snap_reset_unix_secs s))) (2 ^ 63 - 1) in
      from_secs (nat (min (reset - unix_secs now) (2 ^ 63 - 1))))"

definition pressure :: "rate_limit_snapshot \<Rightarrow> timestamp \<Rightarrow> primary_pressure" where
  "pressure s now =
     (if snap_limit s = 0 \<or> reset_in s now = 0 then Normal
      else
        (let percent = saturating_mul (snap_remaining s) 100 div snap_limit s in
         if percent < CRITICAL_PRIMARY_REMAINING_PERCENT then Critical
         else if percent < LOW_PRIMARY_REMAINING_PERCENT then Low
         else Normal))"

fun stretch_factor :: "primary_pressure \<Rightarrow> u32" where
  "stretch_factor Normal = 1"
| "stretch_factor Low = 2"
| "stretch_factor Critical = 4"

section \<open>Recording and summing\<close>

definition empty_minute :: minute_bucket where
  "empty_minute = \<lparr>epoch_minute = 0, bucket_full = 0, bucket_not_modified = 0, bucket_failed = 0\<rparr>"

definition bucket_total :: "minute_bucket \<Rightarrow> u32" where
  "bucket_total b = saturating_add (saturating_add (bucket_full b) (bucket_not_modified b)) (bucket_failed b)"

definition new_traffic :: api_traffic where
  "new_traffic =
     \<lparr>minutes = replicate WINDOW_MINUTES empty_minute, first_seen = None, latest_snapshot = None\<rparr>"

definition is_success :: "u16 \<Rightarrow> bool" where
  "is_success status \<longleftrightarrow> 200 \<le> status \<and> status < 300"

definition minute_of :: "timestamp \<Rightarrow> int" where
  "minute_of t = unix_secs t div 60"

definition slot_of :: "timestamp \<Rightarrow> nat" where
  "slot_of t = nat (minute_of t mod int WINDOW_MINUTES)"

definition count_response :: "u16 \<Rightarrow> timestamp \<Rightarrow> minute_bucket \<Rightarrow> minute_bucket" where
  "count_response status now bucket =
     (let b = (if epoch_minute bucket \<noteq> minute_of now
               then empty_minute\<lparr>epoch_minute := minute_of now\<rparr> else bucket)
      in if status = 304 then b\<lparr>bucket_not_modified := saturating_add (bucket_not_modified b) 1\<rparr>
         else if is_success status then b\<lparr>bucket_full := saturating_add (bucket_full b) 1\<rparr>
         else b\<lparr>bucket_failed := saturating_add (bucket_failed b) 1\<rparr>)"

definition traffic_record :: "u16 \<Rightarrow> headers \<Rightarrow> timestamp \<Rightarrow> api_traffic \<Rightarrow> api_traffic" where
  "traffic_record status hs now tr =
     (let snapshot = (if is_success status \<or> status = 304 then from_headers hs now else None);
          slot = slot_of now
      in tr\<lparr>first_seen := (case first_seen tr of None \<Rightarrow> Some now | s \<Rightarrow> s),
            minutes := (minutes tr)[slot := count_response status now (minutes tr ! slot)],
            latest_snapshot := (case snapshot of None \<Rightarrow> latest_snapshot tr | s \<Rightarrow> s)\<rparr>)"

definition in_window :: "int \<Rightarrow> minute_bucket \<Rightarrow> bool" where
  "in_window current b \<longleftrightarrow> epoch_minute b > current - int WINDOW_MINUTES \<and> epoch_minute b \<le> current"

definition add_minute :: "int \<Rightarrow> minute_bucket \<Rightarrow> traffic_summary \<Rightarrow> traffic_summary" where
  "add_minute current b s =
     (if in_window current b
      then s\<lparr>sum_full := saturating_add (sum_full s) (bucket_full b),
             sum_not_modified := saturating_add (sum_not_modified s) (bucket_not_modified b),
             sum_failed := saturating_add (sum_failed s) (bucket_failed b),
             peak_requests_per_minute := max (peak_requests_per_minute s) (bucket_total b)\<rparr>
      else s)"

definition summary :: "timestamp \<Rightarrow> api_traffic \<Rightarrow> traffic_summary" where
  "summary now tr =
     (let current = minute_of now;
          s = fold (add_minute current) (minutes tr)
                \<lparr>observed_minutes = 0, sum_full = 0, sum_not_modified = 0, sum_failed = 0,
                 peak_requests_per_minute = 0, sum_rate_limit = latest_snapshot tr\<rparr>
      in s\<lparr>observed_minutes :=
             (case first_seen tr of
                None \<Rightarrow> 0
              | Some first \<Rightarrow>
                  of_int (max 0 (min (int WINDOW_MINUTES) (current - minute_of first + 1))))\<rparr>)"

definition summary_total :: "traffic_summary \<Rightarrow> u32" where
  "summary_total s = saturating_add (saturating_add (sum_full s) (sum_not_modified s)) (sum_failed s)"

definition not_modified_percent :: "traffic_summary \<Rightarrow> u32 option" where
  "not_modified_percent s =
     (let total = summary_total s in
      if total > 0
      then Some (let q = unat (sum_not_modified s) * 100 div unat total in if q < 2 ^ 32 then of_nat q else 100)
      else None)"

definition per_hour :: "traffic_summary \<Rightarrow> u32 \<Rightarrow> u32" where
  "per_hour s n =
     (if observed_minutes s = 0 then 0
      else saturating_of_nat (unat n * 60 div unat (observed_minutes s)))"

definition secondary_share_percent :: "u32 \<Rightarrow> u32" where
  "secondary_share_percent requests_per_minute =
     saturating_mul requests_per_minute 100 div SECONDARY_POINTS_PER_MINUTE"

section \<open>One slot of the ring\<close>

text \<open>The events a ring has been given, in order. Slot \<open>i\<close> holds the fold of the events that fall
  on it, whatever happened to the others.\<close>

type_synonym response = "u16 \<times> headers \<times> timestamp"

definition resp_time :: "response \<Rightarrow> timestamp" where "resp_time e = snd (snd e)"

definition recorded :: "response list \<Rightarrow> api_traffic" where
  "recorded es = fold (\<lambda>(status, hs, now). traffic_record status hs now) es new_traffic"

definition slot_bucket :: "response list \<Rightarrow> minute_bucket" where
  "slot_bucket es = fold (\<lambda>(status, hs, now). count_response status now) es empty_minute"

lemma slot_of_less [simp]: "slot_of t < 60"
  by (simp add: slot_of_def WINDOW_MINUTES_def nat_less_iff)

lemma recorded_snoc:
  "recorded (es @ [(status, hs, now)]) = traffic_record status hs now (recorded es)"
  by (simp add: recorded_def)

lemma ring_slots:
  "length (minutes (recorded es)) = 60
   \<and> (\<forall>i < 60. minutes (recorded es) ! i = slot_bucket (filter (\<lambda>e. slot_of (resp_time e) = i) es))"
proof (induction es rule: rev_induct)
  case Nil
  then show ?case by (simp add: recorded_def new_traffic_def WINDOW_MINUTES_def slot_bucket_def)
next
  case (snoc e es)
  obtain status hs now where e: "e = (status, hs, now)" by (cases e)
  show ?case
    using snoc by (simp add: e recorded_snoc traffic_record_def Let_def nth_list_update resp_time_def slot_bucket_def)
qed

text \<open>With times that do not go back, a slot keeps the newest minute it has seen and that
  minute's counts.\<close>

definition in_minute :: "int \<Rightarrow> response \<Rightarrow> bool" where
  "in_minute m e \<longleftrightarrow> minute_of (resp_time e) = m"

definition resp_not_modified :: "response \<Rightarrow> bool" where "resp_not_modified e \<longleftrightarrow> fst e = 304"
definition resp_full :: "response \<Rightarrow> bool" where "resp_full e \<longleftrightarrow> is_success (fst e)"
definition resp_failed :: "response \<Rightarrow> bool" where
  "resp_failed e \<longleftrightarrow> \<not> resp_not_modified e \<and> \<not> resp_full e"

definition tally_in :: "(response \<Rightarrow> bool) \<Rightarrow> int \<Rightarrow> response list \<Rightarrow> nat" where
  "tally_in P m es = length (filter (\<lambda>e. P e \<and> in_minute m e) es)"

lemmas resp_defs = resp_not_modified_def resp_full_def resp_failed_def is_success_def

lemma tally_in_le: "tally_in P m es \<le> length es"
  by (simp add: tally_in_def)

lemma saturating_add_one:
  "n + 1 < 2 ^ 32 \<Longrightarrow> saturating_add (of_nat n) (1 :: u32) = of_nat (n + 1)"
  by (simp add: saturating_add_def unat_of_nat)

lemma tally_in_later: "(\<And>e. e \<in> set es \<Longrightarrow> minute_of (resp_time e) < m) \<Longrightarrow> tally_in P m es = 0"
  by (fastforce simp: tally_in_def in_minute_def filter_empty_conv)

lemma tally_in_snoc [simp]:
  "tally_in P m (es @ [e]) = tally_in P m es + (if P e \<and> in_minute m e then 1 else 0)"
  by (simp add: tally_in_def)

lemma resp_class:
  "resp_not_modified (status, hs, t) \<longleftrightarrow> status = 304"
  "resp_full (status, hs, t) \<longleftrightarrow> is_success status"
  "resp_failed (status, hs, t) \<longleftrightarrow> status \<noteq> 304 \<and> \<not> is_success status"
  "in_minute m (status, hs, t) \<longleftrightarrow> minute_of t = m"
  "\<not> is_success 304"
  by (simp_all add: resp_defs in_minute_def resp_time_def)

lemma sorted_map_last: "sorted (map f xs) \<Longrightarrow> x \<in> set xs \<Longrightarrow> f x \<le> f (last xs)"
  by (induction xs rule: rev_induct) (auto simp: sorted_append)

lemma slot_bucket_newest:
  assumes "sorted (map (\<lambda>e. minute_of (resp_time e)) es)" "es \<noteq> []" "length es < 2 ^ 32"
  shows "slot_bucket es =
    (let m = minute_of (resp_time (last es)) in
     \<lparr>epoch_minute = m, bucket_full = of_nat (tally_in resp_full m es),
      bucket_not_modified = of_nat (tally_in resp_not_modified m es),
      bucket_failed = of_nat (tally_in resp_failed m es)\<rparr>)"
  using assms
proof (induction es rule: rev_induct)
  case Nil
  then show ?case by simp
next
  case (snoc e es)
  obtain status hs now where e: "e = (status, hs, now)" by (cases e)
  let ?m = "minute_of now"
  have step: "slot_bucket (es @ [e]) = count_response status now (slot_bucket es)"
    by (simp add: slot_bucket_def e)
  have lens: "tally_in P ?m es + 1 < 2 ^ 32" for P
    using tally_in_le [of P ?m es] snoc.prems(3) by simp
  note facts = count_response_def Let_def e resp_class resp_time_def
  show ?case
  proof (cases "es \<noteq> [] \<and> minute_of (resp_time (last es)) = ?m")
    case True
    then have "slot_bucket es = \<lparr>epoch_minute = ?m, bucket_full = of_nat (tally_in resp_full ?m es),
        bucket_not_modified = of_nat (tally_in resp_not_modified ?m es),
        bucket_failed = of_nat (tally_in resp_failed ?m es)\<rparr>"
      using snoc by (simp add: sorted_append Let_def)
    then show ?thesis
      unfolding step using saturating_add_one [OF lens] by (auto simp: facts add.commute)
  next
    case False
    have old: "epoch_minute (slot_bucket es) \<noteq> ?m \<or> es = []"
      using snoc False by (cases "es = []") (auto simp: sorted_append Let_def)
    have "minute_of (resp_time x) < ?m" if "x \<in> set es" for x
    proof -
      have "es \<noteq> []" using that by auto
      have "minute_of (resp_time x) \<le> minute_of (resp_time (last es))"
        using snoc.prems(1) that by (intro sorted_map_last) (auto simp: sorted_append)
      moreover have "minute_of (resp_time (last es)) \<le> ?m"
        using snoc.prems(1) \<open>es \<noteq> []\<close> by (simp add: sorted_append e resp_time_def)
      ultimately show ?thesis using False \<open>es \<noteq> []\<close> by simp
    qed
    then have none: "tally_in P ?m es = 0" for P by (rule tally_in_later)
    have one: "saturating_add 0 (1 :: u32) = 1" by (simp add: saturating_add_def)
    show ?thesis
    proof (cases "es = [] \<and> ?m = 0")
      case True
      then show ?thesis
        unfolding step using one by (auto simp: facts slot_bucket_def empty_minute_def tally_in_def)
    next
      case False
      then have "epoch_minute (slot_bucket es) \<noteq> ?m"
        using old by (auto simp: slot_bucket_def empty_minute_def)
      then show ?thesis
        unfolding step using one none by (simp add: facts empty_minute_def)
    qed
  qed
qed

section \<open>The window\<close>

text \<open>Every slot meets the window of the last sixty minutes in exactly one minute.\<close>

definition slot_minute :: "int \<Rightarrow> nat \<Rightarrow> int" where
  "slot_minute current i = current - (current - int i) mod 60"

lemma slot_minute_window: "slot_minute current i \<in> {current - 59..current}"
  by (simp add: slot_minute_def)

lemma slot_minute_slot: "i < 60 \<Longrightarrow> slot_minute current i mod 60 = int i"
proof -
  assume "i < 60"
  have "(current - (current - int i) mod 60) mod 60 = int i mod 60"
    by (simp add: mod_diff_right_eq)
  then show ?thesis using \<open>i < 60\<close> by (simp add: slot_minute_def)
qed

lemma window_minute_unique:
  assumes "m \<in> {current - 59..current}" "m mod 60 = int i"
  shows "m = slot_minute current i"
proof -
  have "(current - m) mod 60 = (current - int i) mod 60"
    by (metis assms(2) mod_diff_right_eq)
  moreover have "(current - m) mod 60 = current - m"
    using assms(1) by (intro mod_pos_pos_trivial) auto
  ultimately show ?thesis by (simp add: slot_minute_def)
qed

definition window_tally :: "(response \<Rightarrow> bool) \<Rightarrow> int \<Rightarrow> response list \<Rightarrow> nat" where
  "window_tally P current es =
     length (filter (\<lambda>e. P e \<and> minute_of (resp_time e) \<in> {current - 59..current}) es)"

lemma window_tally_sum: "(\<Sum>i<60. tally_in P (slot_minute current i) es) = window_tally P current es"
proof (induction es)
  case Nil
  then show ?case by (simp add: window_tally_def tally_in_def)
next
  case (Cons e es)
  let ?m = "minute_of (resp_time e)"
  have one: "(\<Sum>i<60. if slot_minute current i = ?m then 1 else 0 :: nat) = (if ?m \<in> {current - 59..current} then 1 else 0)"
  proof (cases "?m \<in> {current - 59..current}")
    case True
    let ?i = "nat (?m mod 60)"
    have "slot_minute current i = ?m \<longleftrightarrow> i = ?i" if "i < 60" for i
      using that True window_minute_unique [OF True, of ?i] slot_minute_slot [OF that, of current] by auto
    then have "(\<Sum>i<60. if slot_minute current i = ?m then 1 else 0 :: nat) = (\<Sum>i<60. if i = ?i then 1 else 0)"
      by (intro sum.cong) auto
    moreover have "?i < 60" by (simp add: nat_less_iff)
    ultimately show ?thesis using True by simp
  next
    case False
    then have "slot_minute current i \<noteq> ?m" for i using slot_minute_window [of current i] by auto
    then show ?thesis using False by simp
  qed
  have "(\<Sum>i<60. tally_in P (slot_minute current i) (e # es)) =
      (\<Sum>i<60. tally_in P (slot_minute current i) es + (if P e then (if slot_minute current i = ?m then 1 else 0) else 0))"
    by (intro sum.cong) (auto simp: tally_in_def in_minute_def)
  also have "\<dots> = window_tally P current es + (if P e \<and> ?m \<in> {current - 59..current} then 1 else 0)"
    using Cons.IH one by (cases "P e") (simp_all add: sum.distrib)
  finally show ?case by (simp add: window_tally_def)
qed

lemma tally_in_slot:
  "m mod 60 = int i \<Longrightarrow> tally_in P m (filter (\<lambda>e. slot_of (resp_time e) = i) es) = tally_in P m es"
  by (induction es) (auto simp: tally_in_def in_minute_def slot_of_def WINDOW_MINUTES_def)

lemma minute_slot: "slot_of t = i \<Longrightarrow> minute_of t mod 60 = int i"
  by (auto simp: slot_of_def WINDOW_MINUTES_def)

lemma tally_in_classes:
  "tally_in resp_full m es + tally_in resp_not_modified m es + tally_in resp_failed m es = tally_in (\<lambda>_. True) m es"
  by (induction es) (auto simp: tally_in_def resp_class)

lemma slot_contribution:
  assumes sorted: "sorted (map (\<lambda>e. minute_of (resp_time e)) es)"
    and past: "\<forall>e \<in> set es. minute_of (resp_time e) \<le> current"
    and len: "length es < 2 ^ 32" and i: "i < 60"
  defines "b \<equiv> slot_bucket (filter (\<lambda>e. slot_of (resp_time e) = i) es)" and "m \<equiv> slot_minute current i"
  shows "(if in_window current b then unat (bucket_full b) else 0) = tally_in resp_full m es"
    and "(if in_window current b then unat (bucket_not_modified b) else 0) = tally_in resp_not_modified m es"
    and "(if in_window current b then unat (bucket_failed b) else 0) = tally_in resp_failed m es"
    and "(if in_window current b then unat (bucket_total b) else 0) = tally_in (\<lambda>_. True) m es"
proof -
  let ?F = "filter (\<lambda>e. slot_of (resp_time e) = i) es"
  have F: "tally_in P m ?F = tally_in P m es" for P
    using slot_minute_slot [OF i, of current] by (simp add: m_def tally_in_slot)
  have small: "unat (of_nat (tally_in P k ?F) :: u32) = tally_in P k ?F" for P k
    using le_less_trans [OF order_trans [OF tally_in_le [of P k ?F] length_filter_le] len]
    by (simp add: unat_of_nat)
  have "(if in_window current b then unat (bucket_full b) else 0) = tally_in resp_full m es
    \<and> (if in_window current b then unat (bucket_not_modified b) else 0) = tally_in resp_not_modified m es
    \<and> (if in_window current b then unat (bucket_failed b) else 0) = tally_in resp_failed m es"
  proof (cases "?F = []")
    case True
    then have "tally_in P m es = 0" for P using F [of P] by (simp add: tally_in_def)
    moreover have "b = empty_minute" unfolding b_def True by (simp add: slot_bucket_def)
    ultimately show ?thesis by (simp add: empty_minute_def)
  next
    case False
    let ?l = "minute_of (resp_time (last ?F))"
    have srt: "sorted (map (\<lambda>e. minute_of (resp_time e)) ?F)" using sorted by (rule sorted_filter)
    have b: "b = \<lparr>epoch_minute = ?l, bucket_full = of_nat (tally_in resp_full ?l ?F),
        bucket_not_modified = of_nat (tally_in resp_not_modified ?l ?F),
        bucket_failed = of_nat (tally_in resp_failed ?l ?F)\<rparr>"
      using slot_bucket_newest [OF srt False le_less_trans [OF length_filter_le len]] by (simp add: b_def Let_def)
    have mem: "last ?F \<in> set es" "slot_of (resp_time (last ?F)) = i"
      using last_in_set [OF False] by auto
    then have l: "?l mod 60 = int i" "?l \<le> current" using minute_slot past by auto
    show ?thesis
    proof (cases "in_window current b")
      case True
      then have "?l = m"
        using l window_minute_unique [of ?l current i] by (auto simp: b in_window_def WINDOW_MINUTES_def m_def)
      then show ?thesis using True F small [of _ m] by (simp add: b)
    next
      case out: False
      then have "?l < m"
        using l(2) slot_minute_window [of current i] by (auto simp: b in_window_def WINDOW_MINUTES_def m_def)
      then have "tally_in P m ?F = 0" for P
        using sorted_map_last [OF srt] by (intro tally_in_later) fastforce
      then show ?thesis using out F by simp
    qed
  qed
  then show "(if in_window current b then unat (bucket_full b) else 0) = tally_in resp_full m es"
    and "(if in_window current b then unat (bucket_not_modified b) else 0) = tally_in resp_not_modified m es"
    and "(if in_window current b then unat (bucket_failed b) else 0) = tally_in resp_failed m es"
    and "(if in_window current b then unat (bucket_total b) else 0) = tally_in (\<lambda>_. True) m es"
    using tally_in_classes [of m es] tally_in_le [of "\<lambda>_. True" m es] len
    by (auto simp: bucket_total_def unat_saturating_add split: if_splits)
qed

definition contribution :: "int \<Rightarrow> (minute_bucket \<Rightarrow> u32) \<Rightarrow> minute_bucket \<Rightarrow> nat" where
  "contribution current f b = (if in_window current b then unat (f b) else 0)"

lemma fold_add_minute:
  shows "unat (sum_full (fold (add_minute current) bs s)) = min (unat (sum_full s) + sum_list (map (contribution current bucket_full) bs)) (2 ^ 32 - 1)"
    and "unat (sum_not_modified (fold (add_minute current) bs s))
      = min (unat (sum_not_modified s) + sum_list (map (contribution current bucket_not_modified) bs)) (2 ^ 32 - 1)"
    and "unat (sum_failed (fold (add_minute current) bs s)) = min (unat (sum_failed s) + sum_list (map (contribution current bucket_failed) bs)) (2 ^ 32 - 1)"
    and "unat (peak_requests_per_minute (fold (add_minute current) bs s))
      = fold max (map (contribution current bucket_total) bs) (unat (peak_requests_per_minute s))"
    and "sum_rate_limit (fold (add_minute current) bs s) = sum_rate_limit s"
proof (induction bs arbitrary: s)
  case Nil
  { case 1 then show ?case using unat_lt_32 [of "sum_full s"] by simp }
  { case 2 then show ?case using unat_lt_32 [of "sum_not_modified s"] by simp }
  { case 3 then show ?case using unat_lt_32 [of "sum_failed s"] by simp }
  { case 4 then show ?case by simp }
  { case 5 then show ?case by simp }
next
  case (Cons b bs)
  { case 1 then show ?case using Cons.IH(1) [of "add_minute current b s"] by (auto simp: add_minute_def contribution_def unat_saturating_add) }
  { case 2 then show ?case using Cons.IH(2) [of "add_minute current b s"] by (auto simp: add_minute_def contribution_def unat_saturating_add) }
  { case 3 then show ?case using Cons.IH(3) [of "add_minute current b s"] by (auto simp: add_minute_def contribution_def unat_saturating_add) }
  { case 4 then show ?case using Cons.IH(4) [of "add_minute current b s"] by (auto simp: add_minute_def contribution_def unat_max max.commute) }
  { case 5 then show ?case using Cons.IH(5) [of "add_minute current b s"] by (auto simp: add_minute_def) }
qed

lemma fold_max_Max: "xs \<noteq> [] \<Longrightarrow> fold max xs (0 :: nat) = Max (set xs)"
  using Max.set_eq_fold [of 0 xs] by simp

lemma slots_cover_window: "slot_minute current ` {..<60} = {current - 59..current}"
proof
  show "slot_minute current ` {..<60} \<subseteq> {current - 59..current}" using slot_minute_window by auto
  show "{current - 59..current} \<subseteq> slot_minute current ` {..<60}"
  proof
    fix m assume "m \<in> {current - 59..current}"
    then have "m = slot_minute current (nat (m mod 60))" by (intro window_minute_unique) simp_all
    moreover have "nat (m mod 60) \<in> {..<60}" by (simp add: nat_less_iff)
    ultimately show "m \<in> slot_minute current ` {..<60}" by blast
  qed
qed

lemma ring_contributions:
  assumes "sorted (map (\<lambda>e. minute_of (resp_time e)) es)"
    and "\<forall>e \<in> set es. minute_of (resp_time e) \<le> current" "length es < 2 ^ 32"
  shows "map (contribution current bucket_full) (minutes (recorded es)) = map (\<lambda>i. tally_in resp_full (slot_minute current i) es) [0..<60]"
    and "map (contribution current bucket_not_modified) (minutes (recorded es))
      = map (\<lambda>i. tally_in resp_not_modified (slot_minute current i) es) [0..<60]"
    and "map (contribution current bucket_failed) (minutes (recorded es)) = map (\<lambda>i. tally_in resp_failed (slot_minute current i) es) [0..<60]"
    and "map (contribution current bucket_total) (minutes (recorded es)) = map (\<lambda>i. tally_in (\<lambda>_. True) (slot_minute current i) es) [0..<60]"
  using ring_slots [of es] slot_contribution [OF assms]
  by (auto intro!: nth_equalityI simp: contribution_def simp del: if_split)

section \<open>Properties\<close>

text \<open>C26. The ring reports exactly the last hour: given responses in time order, none later than
  \<open>now\<close>, the summary's three counts are the numbers of full, unmodified and failed responses of
  the sixty minutes ending with the current one, its peak is the busiest of those minutes, and
  older responses, although their buckets may still be in the ring, are not counted.\<close>

theorem summary_is_last_hour:
  assumes "sorted (map resp_time es)" "\<forall>e \<in> set es. resp_time e \<le> now" "length es < 2 ^ 32"
  defines "current \<equiv> minute_of now" and "s \<equiv> summary now (recorded es)"
  shows "unat (sum_full s) = window_tally resp_full current es
    \<and> unat (sum_not_modified s) = window_tally resp_not_modified current es
    \<and> unat (sum_failed s) = window_tally resp_failed current es
    \<and> unat (peak_requests_per_minute s) = (MAX m \<in> {current - 59..current}. length (filter (in_minute m) es))"
proof -
  have mono: "minute_of a \<le> minute_of b" if "a \<le> b" for a b
    using that by (simp add: minute_of_def unix_secs_def zdiv_mono1)
  have "sorted (map minute_of (map resp_time es))"
    using assms(1) mono by (simp add: sorted_wrt_map) (metis (no_types, lifting) sorted_wrt_mono_rel)
  then have srt: "sorted (map (\<lambda>e. minute_of (resp_time e)) es)" by (simp add: comp_def)
  have past: "\<forall>e \<in> set es. minute_of (resp_time e) \<le> current"
    using assms(2) mono by (simp add: current_def)
  note ring = ring_contributions [OF srt past assms(3)]
  have le: "window_tally P current es \<le> 2 ^ 32 - 1" for P
  proof -
    have "window_tally P current es \<le> length es" by (simp add: window_tally_def)
    then show ?thesis using assms(3) by simp
  qed
  have sums: "sum_list (map (\<lambda>i. tally_in P (slot_minute current i) es) [0..<60]) = window_tally P current es" for P
    unfolding window_tally_sum [symmetric] by (simp only: interv_sum_list_conv_sum_set_nat atLeast0LessThan set_upt)
  have sel: "sum_full s = sum_full (fold (add_minute current) (minutes (recorded es)) s0)"
    "sum_not_modified s = sum_not_modified (fold (add_minute current) (minutes (recorded es)) s0)"
    "sum_failed s = sum_failed (fold (add_minute current) (minutes (recorded es)) s0)"
    "peak_requests_per_minute s = peak_requests_per_minute (fold (add_minute current) (minutes (recorded es)) s0)"
    if "s0 = \<lparr>observed_minutes = 0, sum_full = 0, sum_not_modified = 0, sum_failed = 0,
       peak_requests_per_minute = 0, sum_rate_limit = latest_snapshot (recorded es)\<rparr>" for s0
    using that by (simp_all add: s_def summary_def Let_def current_def)
  have "unat (sum_full s) = window_tally resp_full current es" "unat (sum_not_modified s) = window_tally resp_not_modified current es"
    "unat (sum_failed s) = window_tally resp_failed current es"
    unfolding sel [OF refl] fold_add_minute ring(1-3) sums using le by simp_all
  moreover have "unat (peak_requests_per_minute s) = (MAX m \<in> {current - 59..current}. length (filter (in_minute m) es))"
  proof -
    have "unat (peak_requests_per_minute s) = fold max (map (\<lambda>i. tally_in (\<lambda>_. True) (slot_minute current i) es) [0..<60]) 0"
      unfolding sel(4) [OF refl] fold_add_minute ring(4) by simp
    also have "\<dots> = Max ((\<lambda>i. tally_in (\<lambda>_. True) (slot_minute current i) es) ` {..<60})"
      by (subst fold_max_Max) (simp_all add: atLeast0LessThan)
    also have "\<dots> = (MAX m \<in> slot_minute current ` {..<60}. length (filter (in_minute m) es))"
      by (simp add: image_image tally_in_def)
    finally show ?thesis unfolding slots_cover_window .
  qed
  ultimately show ?thesis by blast
qed

theorem summary_is_last_hour_witness:
  "unat (sum_full (summary (4000 * 10 ^ 9) (recorded [(200, [], 0), (200, [], 3900 * 10 ^ 9), (304, [], 3950 * 10 ^ 9)]))) = 1"
proof -
  let ?es = "[(200, [], 0), (200, [], 3900 * 10 ^ 9), (304, [], 3950 * 10 ^ 9)] :: response list"
  have "\<forall>e \<in> set ?es. resp_time e \<le> 4000 * 10 ^ 9" by (auto simp: resp_time_def)
  moreover have "sorted (map resp_time ?es)" "length ?es < 2 ^ 32" by (simp_all add: resp_time_def)
  moreover have "window_tally resp_full (minute_of (4000 * 10 ^ 9)) ?es = 1"
    by (simp add: window_tally_def resp_class resp_time_def minute_of_def unix_secs_def) (simp add: is_success_def)
  ultimately show ?thesis using summary_is_last_hour [of ?es "4000 * 10 ^ 9"] by metis
qed

end
