(* ===== verification/Schedule.thy ===== *)
theory Schedule
  imports Traffic
begin

text \<open>
  When to come back: the poll schedule of \<open>crates/agent/src/reconcile.rs\<close> (\<open>PollSchedule\<close>,
  \<open>next_poll_with\<close>, the offline state), the retry bounds of \<open>lifecycle.rs\<close> (\<open>RetryPolicy\<close>) and the
  cleanup backoff built on them. The random fraction enters only through the two spreads it
  scales, floating-point products of a delay, which are the functions of the record \<open>jitter\<close>.
  Every delay ladder is an instance of the contract \<open>capped_backoff\<close>.
\<close>

section \<open>Data\<close>

definition MAX_OFFLINE_BACKOFF :: duration where "MAX_OFFLINE_BACKOFF = from_secs (15 * 60)"
definition MAX_BACKOFF_DOUBLINGS :: u32 where "MAX_BACKOFF_DOUBLINGS = 5"
definition MAX_IDLE_REQUESTS_PER_MINUTE_PER_TARGET :: u32 where
  "MAX_IDLE_REQUESTS_PER_MINUTE_PER_TARGET = 300"
definition GITHUB_CANCELS_QUEUED_JOBS_AFTER :: duration where
  "GITHUB_CANCELS_QUEUED_JOBS_AFTER = from_secs (24 * 60 * 60)"

text \<open>\<open>d.mul_f64(JITTER_RATIO * fraction)\<close> and \<open>d.mul_f64(RATE_LIMIT_JITTER_RATIO * fraction)\<close>.\<close>

record jitter =
  offline_spread :: "duration \<Rightarrow> duration"
  rate_limit_spread :: "duration \<Rightarrow> duration"

datatype poll_pace =
    NominalPace
  | IdlePace
  | StretchedPace primary_pressure
  | RateLimitedPace rate_limit_kind
  | LockedOutPace
  | OfflinePace u32
  | BlockedPace

record next_poll =
  poll_delay :: duration
  poll_pace :: poll_pace

record poll_schedule =
  ps_interval :: refresh_interval
  ps_idle :: duration
  ps_consecutive_offline :: u32
  ps_offline_since :: "timestamp option"

record poll_conditions =
  cond_quiet :: bool
  cond_quota :: "rate_limit_snapshot option"
  cond_requests_per_pass :: u32

record offline_state =
  off_consecutive :: u32
  off_retry_in :: duration
  off_offline_for :: "duration option"

record retry_policy =
  max_attempts :: u32
  retry_initial :: duration
  retry_maximum :: duration

section \<open>Paces\<close>

fun is_throttled :: "poll_pace \<Rightarrow> bool" where
  "is_throttled NominalPace = False"
| "is_throttled IdlePace = False"
| "is_throttled _ = True"

fun poll_pace_str :: "poll_pace \<Rightarrow> ustr" where
  "poll_pace_str NominalPace = lit ''nominal''"
| "poll_pace_str IdlePace = lit ''idle''"
| "poll_pace_str (StretchedPace Normal) = lit ''nominal''"
| "poll_pace_str (StretchedPace Low) = lit ''stretched_low_budget''"
| "poll_pace_str (StretchedPace Critical) = lit ''stretched_critical_budget''"
| "poll_pace_str (RateLimitedPace Primary) = lit ''rate_limited_primary''"
| "poll_pace_str (RateLimitedPace Secondary) = lit ''rate_limited_secondary''"
| "poll_pace_str LockedOutPace = lit ''locked_out''"
| "poll_pace_str (OfflinePace _) = lit ''offline''"
| "poll_pace_str BlockedPace = lit ''blocked''"

section \<open>The schedule\<close>

definition idle_floor :: duration where "idle_floor = from_secs (unat IDLE_MIN_SECS)"

definition schedule_floor :: duration where "schedule_floor = from_secs (unat REFRESH_MIN_SECS)"

definition nominal_of :: "refresh_interval \<Rightarrow> duration" where
  "nominal_of i = from_secs (unat (refresh_as_secs i))"

definition nominal :: "poll_schedule \<Rightarrow> duration" where
  "nominal s = nominal_of (ps_interval s)"

definition schedule_new :: "refresh_interval \<Rightarrow> poll_schedule" where
  "schedule_new interval =
     \<lparr>ps_interval = interval, ps_idle = nominal_of interval, ps_consecutive_offline = 0, ps_offline_since = None\<rparr>"

definition set_intervals :: "refresh_interval \<Rightarrow> duration \<Rightarrow> poll_schedule \<Rightarrow> poll_schedule" where
  "set_intervals interval idle s =
     (let s = s\<lparr>ps_interval := interval\<rparr> in s\<lparr>ps_idle := max (min idle (nominal s)) idle_floor\<rparr>)"

definition with_idle :: "duration \<Rightarrow> poll_schedule \<Rightarrow> poll_schedule" where
  "with_idle idle s = set_intervals (ps_interval s) idle s"

definition offline_for :: "timestamp \<Rightarrow> poll_schedule \<Rightarrow> duration option" where
  "offline_for now s = Option.bind (ps_offline_since s) (\<lambda>since. to_std (now - since))"

definition recovered :: "poll_schedule \<Rightarrow> poll_schedule" where
  "recovered s = s\<lparr>ps_consecutive_offline := 0, ps_offline_since := None\<rparr>"

text \<open>\<open>nominal * 2^doublings\<close>, capped, before jitter.\<close>

definition offline_capped :: "duration \<Rightarrow> u32 \<Rightarrow> duration" where
  "offline_capped nom consecutive =
     (let doublings = min (saturating_sub consecutive 1) MAX_BACKOFF_DOUBLINGS;
          grown = duration_mul nom (push_bit (unat doublings) 1)
      in min grown MAX_OFFLINE_BACKOFF)"

definition offline_delay :: "duration \<Rightarrow> jitter \<Rightarrow> poll_schedule \<Rightarrow> duration" where
  "offline_delay nom j s =
     (let capped = offline_capped nom (ps_consecutive_offline s) in
      max (duration_add capped (offline_spread j capped)) schedule_floor)"

definition idle_floor_for :: "u32 \<Rightarrow> duration" where
  "idle_floor_for requests_per_pass =
     from_secs (unat requests_per_pass * 60 div unat MAX_IDLE_REQUESTS_PER_MINUTE_PER_TARGET)"

definition retry_floor :: "'s refresh_state \<Rightarrow> timestamp \<Rightarrow> duration" where
  "retry_floor state now = (case retry_delay state now of Some d \<Rightarrow> d | None \<Rightarrow> schedule_floor)"

definition answered_poll :: "poll_conditions \<Rightarrow> timestamp \<Rightarrow> poll_schedule \<Rightarrow> next_poll" where
  "answered_poll conditions now s =
     (let nom = nominal s;
          pr = (case cond_quota conditions of None \<Rightarrow> Normal | Some quota \<Rightarrow> pressure quota now)
      in case (pr \<noteq> Normal, cond_quota conditions) of
           (True, Some quota) \<Rightarrow>
             \<lparr>poll_delay = min (duration_mul nom (stretch_factor pr)) (max (reset_in quota now) nom),
              poll_pace = StretchedPace pr\<rparr>
         | _ \<Rightarrow>
             if cond_quiet conditions \<and> ps_idle s < nom
             then \<lparr>poll_delay = max (ps_idle s) (idle_floor_for (cond_requests_per_pass conditions)), poll_pace = IdlePace\<rparr>
             else \<lparr>poll_delay = nom, poll_pace = NominalPace\<rparr>)"

definition next_poll_with ::
  "'s refresh_state option \<Rightarrow> poll_conditions \<Rightarrow> timestamp \<Rightarrow> jitter \<Rightarrow> poll_schedule \<Rightarrow> next_poll \<times> poll_schedule" where
  "next_poll_with failure conditions now j s =
     (case failure of
        None \<Rightarrow> (let s = recovered s in (answered_poll conditions now s, s))
      | Some state \<Rightarrow>
          (case state of
             Offline \<Rightarrow>
               (let s = s\<lparr>ps_consecutive_offline := saturating_add (ps_consecutive_offline s) 1,
                          ps_offline_since := (case ps_offline_since s of None \<Rightarrow> Some now | t \<Rightarrow> t)\<rparr>
                in (\<lparr>poll_delay = offline_delay (nominal s) j s, poll_pace = OfflinePace (ps_consecutive_offline s)\<rparr>, s))
           | RateLimitedState limit \<Rightarrow>
               (let wait = max (retry_floor state now) (nominal s)
                in (\<lparr>poll_delay = duration_add wait (rate_limit_spread j wait), poll_pace = RateLimitedPace (rl_kind limit)\<rparr>,
                    recovered s))
           | LockedOut _ \<Rightarrow>
               (\<lparr>poll_delay = max (retry_floor state now) (nominal s), poll_pace = LockedOutPace\<rparr>, recovered s)
           | _ \<Rightarrow> (\<lparr>poll_delay = nominal s, poll_pace = BlockedPace\<rparr>, recovered s)))"

definition default_conditions :: poll_conditions where
  "default_conditions = \<lparr>cond_quiet = False, cond_quota = None, cond_requests_per_pass = 0\<rparr>"

definition next_poll_of :: "'s refresh_state option \<Rightarrow> timestamp \<Rightarrow> jitter \<Rightarrow> poll_schedule \<Rightarrow> next_poll \<times> poll_schedule" where
  "next_poll_of failure now j s = next_poll_with failure default_conditions now j s"

section \<open>The offline state\<close>

definition offline_state_new :: "u32 \<Rightarrow> duration \<Rightarrow> offline_state" where
  "offline_state_new consecutive retry_in =
     \<lparr>off_consecutive = consecutive, off_retry_in = retry_in, off_offline_for = None\<rparr>"

definition offline_since_set :: "duration \<Rightarrow> offline_state \<Rightarrow> offline_state" where
  "offline_since_set d o' = o'\<lparr>off_offline_for := Some d\<rparr>"

definition has_outlasted_the_queue :: "offline_state \<Rightarrow> bool" where
  "has_outlasted_the_queue o' =
     (case off_offline_for o' of None \<Rightarrow> False | Some d \<Rightarrow> d \<ge> GITHUB_CANCELS_QUEUED_JOBS_AFTER)"

section \<open>Retry policies and the cleanup backoff\<close>

definition retry_bounded :: "u32 \<Rightarrow> duration \<Rightarrow> duration \<Rightarrow> retry_policy" where
  "retry_bounded n initial maximum = \<lparr>max_attempts = n, retry_initial = initial, retry_maximum = maximum\<rparr>"

definition policy_delay :: "retry_policy \<Rightarrow> u32 \<Rightarrow> duration" where
  "policy_delay p failure_index =
     (let shift = min (saturating_sub failure_index 1) 31 in
      min (duration_mul (retry_initial p) (push_bit (unat shift) 1)) (retry_maximum p))"

definition CLEAN_RETRY_INITIAL :: duration where "CLEAN_RETRY_INITIAL = from_secs 30"
definition CLEAN_RETRY_MAXIMUM :: duration where "CLEAN_RETRY_MAXIMUM = from_secs (30 * 60)"

definition CLEAN_SCHEDULE :: retry_policy where
  "CLEAN_SCHEDULE = retry_bounded (- 1) CLEAN_RETRY_INITIAL CLEAN_RETRY_MAXIMUM"

record clean_retry =
  clean_failures_seen :: u32
  not_before :: timestamp

type_synonym clean_backoff = "(attempt_id, clean_retry) btree_map"

definition is_due :: "clean_backoff \<Rightarrow> attempt_id \<Rightarrow> timestamp \<Rightarrow> bool" where
  "is_due b attempt now = (case btm_get b attempt of None \<Rightarrow> True | Some r \<Rightarrow> now \<ge> not_before r)"

definition clean_failed :: "attempt_id \<Rightarrow> timestamp \<Rightarrow> clean_backoff \<Rightarrow> clean_backoff" where
  "clean_failed attempt now b =
     (let failures = (case btm_get b attempt of None \<Rightarrow> 1 | Some r \<Rightarrow> saturating_add (clean_failures_seen r) 1);
          delay = policy_delay CLEAN_SCHEDULE failures
      in btm_insert attempt \<lparr>clean_failures_seen = failures, not_before = now + int delay\<rparr> b)"

definition clean_succeeded :: "attempt_id \<Rightarrow> clean_backoff \<Rightarrow> clean_backoff" where
  "clean_succeeded attempt b = btm_remove attempt b"

definition clean_retain :: "attempt_id list \<Rightarrow> clean_backoff \<Rightarrow> clean_backoff" where
  "clean_retain present b = filter (\<lambda>(a, _). a \<in> set present) b"

section \<open>The delay ladders\<close>

lemmas schedule_consts = MAX_OFFLINE_BACKOFF_def CLEAN_RETRY_INITIAL_def CLEAN_RETRY_MAXIMUM_def idle_floor_def
  schedule_floor_def REFRESH_MIN_SECS_def IDLE_MIN_SECS_def from_secs_def

lemma unat_doubling: "k \<le> 31 \<Longrightarrow> unat (push_bit k (1 :: u32)) = 2 ^ k"
proof -
  assume "k \<le> 31"
  then have "(2 :: nat) ^ k < 2 ^ 32" by (intro power_strict_increasing) auto
  moreover have "push_bit k (1 :: u32) = of_nat (2 ^ k)" by simp
  ultimately show ?thesis by (simp only: unat_of_nat) simp
qed

lemma min_twice_cap: "min (2 * min a c) c = min (2 * a) (c :: nat)"
  by linarith

text \<open>The wait after the \<open>n\<close>-th failure of a ladder that doubles \<open>base\<close> at most \<open>most\<close> times.\<close>

definition ladder :: "nat \<Rightarrow> nat \<Rightarrow> nat \<Rightarrow> nat \<Rightarrow> nat" where
  "ladder base cap most n = min (base * 2 ^ min (n - 1) most) cap"

lemma ladder_backoff: "capped_backoff (ladder base cap most) base cap"
proof
  show "ladder base cap most 1 = min base cap" by (simp add: ladder_def)
  show "ladder base cap most (Suc n) = min (2 * ladder base cap most n) cap \<or> ladder base cap most (Suc n) = ladder base cap most n"
    if "1 \<le> n" for n
  proof (cases "n \<le> most")
    case True
    then have "min (Suc n - 1) most = Suc (min (n - 1) most)" using that by simp
    then show ?thesis by (simp only: ladder_def power_Suc min_twice_cap) (simp add: mult.left_commute)
  next
    case False
    then have "min (Suc n - 1) most = min (n - 1) most" using that by simp
    then show ?thesis unfolding ladder_def by metis
  qed
qed

lemma offline_capped_ladder:
  assumes "nom \<le> from_secs 65535"
  shows "offline_capped nom c = ladder nom MAX_OFFLINE_BACKOFF 5 (unat c)"
proof -
  let ?d = "min (saturating_sub c 1) MAX_BACKOFF_DOUBLINGS"
  have d: "unat ?d = min (unat c - 1) 5"
    by (simp add: unat_min unat_saturating_sub MAX_BACKOFF_DOUBLINGS_def)
  have "(2 :: nat) ^ min (unat c - 1) 5 \<le> 2 ^ 5" by (intro power_increasing) auto
  then have "nom * 2 ^ min (unat c - 1) 5 \<le> from_secs 65535 * 2 ^ 5" by (intro mult_mono assms) auto
  then have "nom * 2 ^ min (unat c - 1) 5 \<le> DURATION_MAX" by (simp add: DURATION_MAX_def from_secs_def)
  then show ?thesis
    using unat_doubling [of "min (unat c - 1) 5"]
    by (simp add: offline_capped_def Let_def d duration_mul_def ladder_def del: push_bit_of_1 push_bit_numeral)
qed

lemma nominal_bound: "nominal_of i \<le> from_secs 65535"
  using unat_lt_16 [of "refresh_as_secs i"] by (simp add: nominal_of_def from_secs_def)

lemma clean_delay_ladder: "policy_delay CLEAN_SCHEDULE c = ladder CLEAN_RETRY_INITIAL CLEAN_RETRY_MAXIMUM 31 (unat c)"
proof -
  let ?d = "min (saturating_sub c 1) 31"
  have d: "unat ?d = min (unat c - 1) 31" by (simp add: unat_min unat_saturating_sub)
  have "(2 :: nat) ^ min (unat c - 1) 31 \<le> 2 ^ 31" by (intro power_increasing) auto
  then have "CLEAN_RETRY_INITIAL * 2 ^ min (unat c - 1) 31 \<le> CLEAN_RETRY_INITIAL * 2 ^ 31" by (rule mult_le_mono2)
  also have "\<dots> \<le> DURATION_MAX" by (simp add: DURATION_MAX_def schedule_consts)
  finally have "CLEAN_RETRY_INITIAL * 2 ^ min (unat c - 1) 31 \<le> DURATION_MAX" .
  then show ?thesis
    using unat_doubling [of "min (unat c - 1) 31"]
    by (simp add: policy_delay_def Let_def d duration_mul_def ladder_def CLEAN_SCHEDULE_def retry_bounded_def
        del: push_bit_of_1 push_bit_numeral)
qed

interpretation offline: capped_backoff "ladder (nominal s) MAX_OFFLINE_BACKOFF 5" "nominal s" MAX_OFFLINE_BACKOFF for s
  by (rule ladder_backoff)

interpretation clean_retries: capped_backoff "ladder CLEAN_RETRY_INITIAL CLEAN_RETRY_MAXIMUM 31" CLEAN_RETRY_INITIAL CLEAN_RETRY_MAXIMUM
  by (rule ladder_backoff)

section \<open>Well-formed schedules\<close>

definition schedule_wf :: "poll_schedule \<Rightarrow> bool" where
  "schedule_wf s \<longleftrightarrow>
     REFRESH_MIN_SECS \<le> refresh_as_secs (ps_interval s) \<and> idle_floor \<le> ps_idle s \<and> ps_idle s \<le> nominal s"

lemma nominal_ge_floor: "REFRESH_MIN_SECS \<le> refresh_as_secs i \<Longrightarrow> schedule_floor \<le> nominal_of i"
  by (simp add: nominal_of_def schedule_floor_def from_secs_def word_le_nat_alt)

lemma floors: "idle_floor \<le> schedule_floor" "schedule_floor \<le> MAX_OFFLINE_BACKOFF"
  by (simp_all add: schedule_consts)

lemma schedule_new_wf: "refresh_from_secs n = Inr i \<Longrightarrow> schedule_wf (schedule_new i)"
  using nominal_ge_floor [of i] floors(1)
  by (auto simp: schedule_wf_def schedule_new_def refresh_from_secs_def nominal_def not_less split: if_splits)

lemma set_intervals_wf: "REFRESH_MIN_SECS \<le> refresh_as_secs i \<Longrightarrow> schedule_wf (set_intervals i idle s)"
  using nominal_ge_floor [of i] floors(1)
  by (simp add: schedule_wf_def set_intervals_def Let_def nominal_def)

lemma nominal_props:
  assumes "schedule_wf s"
  shows "schedule_floor \<le> nominal s" "nominal s \<le> DURATION_MAX" "nominal s \<le> from_secs 65535"
  using assms nominal_ge_floor nominal_bound [of "ps_interval s"]
  by (auto simp: schedule_wf_def nominal_def DURATION_MAX_def from_secs_def)

lemma recovered_simps [simp]:
  "nominal (recovered s) = nominal s" "ps_idle (recovered s) = ps_idle s" "schedule_wf (recovered s) = schedule_wf s"
  by (simp_all add: recovered_def nominal_def schedule_wf_def)

lemma duration_add_ge: "a \<le> DURATION_MAX \<Longrightarrow> a \<le> duration_add a b"
  by (simp add: duration_add_def)

lemma duration_mul_ge: "d \<le> DURATION_MAX \<Longrightarrow> 1 \<le> unat k \<Longrightarrow> d \<le> duration_mul d k"
  by (simp add: duration_mul_def)

lemma stretch_ge_1: "1 \<le> unat (stretch_factor p)"
  by (cases p) simp_all

text \<open>The three ways a poll that was answered can be paced.\<close>

lemma answered_poll_cases:
  assumes wf: "schedule_wf s"
  obtains (stretched) p where "poll_pace (answered_poll c now s) = StretchedPace p" "nominal s \<le> poll_delay (answered_poll c now s)"
  | (idle) "answered_poll c now s =
      \<lparr>poll_delay = max (ps_idle s) (idle_floor_for (cond_requests_per_pass c)), poll_pace = IdlePace\<rparr>" "cond_quiet c" "ps_idle s < nominal s"
  | (nominal) "answered_poll c now s = \<lparr>poll_delay = nominal s, poll_pace = NominalPace\<rparr>"
proof (cases "\<exists>quota. cond_quota c = Some quota \<and> pressure quota now \<noteq> Normal")
  case True
  then obtain quota where q: "cond_quota c = Some quota" "pressure quota now \<noteq> Normal" by blast
  then have "poll_pace (answered_poll c now s) = StretchedPace (pressure quota now)"
    "poll_delay (answered_poll c now s) =
      min (duration_mul (nominal s) (stretch_factor (pressure quota now))) (max (reset_in quota now) (nominal s))"
    by (simp_all add: answered_poll_def Let_def)
  then show thesis
    using stretched duration_mul_ge [OF nominal_props(2) [OF wf] stretch_ge_1, of "pressure quota now"] by simp
next
  case False
  have "answered_poll c now s =
    (if cond_quiet c \<and> ps_idle s < nominal s
     then \<lparr>poll_delay = max (ps_idle s) (idle_floor_for (cond_requests_per_pass c)), poll_pace = IdlePace\<rparr>
     else \<lparr>poll_delay = nominal s, poll_pace = NominalPace\<rparr>)"
  proof (cases "cond_quota c")
    case None
    then show ?thesis by (simp add: answered_poll_def Let_def)
  next
    case (Some quota)
    then have "pressure quota now = Normal" using False by auto
    then show ?thesis using Some by (simp add: answered_poll_def Let_def)
  qed
  then show thesis using idle nominal by (cases "cond_quiet c \<and> ps_idle s < nominal s") auto
qed

section \<open>A run of unreachable polls\<close>

definition offline_run :: "jitter \<Rightarrow> poll_conditions \<Rightarrow> timestamp list \<Rightarrow> poll_schedule \<Rightarrow> poll_schedule" where
  "offline_run j c ts s = fold (\<lambda>t s. snd (next_poll_with (Some (Offline :: unit refresh_state)) c t j s)) ts s"

lemma offline_poll_state:
  "snd (next_poll_with (Some Offline) c t j s) =
     s\<lparr>ps_consecutive_offline := saturating_add (ps_consecutive_offline s) 1,
       ps_offline_since := (case ps_offline_since s of None \<Rightarrow> Some t | u \<Rightarrow> u)\<rparr>"
  by (simp add: next_poll_with_def Let_def)

lemma offline_poll_paced:
  "next_poll_with (Some Offline) c t j s = (np, s') \<Longrightarrow>
     poll_delay np = offline_delay (nominal s') j s' \<and> poll_pace np = OfflinePace (ps_consecutive_offline s')"
  by (auto simp: next_poll_with_def Let_def)

lemma offline_run_state:
  assumes "length ts < 2 ^ 32" "ps_consecutive_offline s = 0" "ps_offline_since s = None"
  shows "offline_run j c ts s =
    s\<lparr>ps_consecutive_offline := of_nat (length ts), ps_offline_since := (case ts of [] \<Rightarrow> None | t # _ \<Rightarrow> Some t)\<rparr>"
  using assms
proof (induction ts rule: rev_induct)
  case Nil
  then show ?case by (simp add: offline_run_def)
next
  case (snoc t ts)
  have "saturating_add (of_nat (length ts)) (1 :: u32) = of_nat (length ts + 1)"
    using snoc.prems(1) by (intro saturating_add_one) simp
  then show ?case
    using snoc by (cases ts) (simp_all add: offline_run_def offline_poll_state add.commute)
qed

lemma ladder_floor: "1 \<le> n \<Longrightarrow> schedule_wf s \<Longrightarrow> schedule_floor \<le> ladder (nominal s) MAX_OFFLINE_BACKOFF 5 n"
  using offline.delay_ge_base [of n s] nominal_props(1) [of s] floors(2) by simp

section \<open>Properties\<close>

text \<open>No poll comes too soon: whatever a pass met, the next delay is at least the five-second
  idle floor, at least the thirty-second floor unless the target was quiet, at least the active
  interval after every answer that is a failure, and at least the time GitHub asked for after a
  rate limit or a lockout. The schedule stays well formed.\<close>

theorem poll_delay_floors:
  assumes wf: "schedule_wf s" and nxt: "next_poll_with failure c now j s = (np, s')"
  shows "schedule_wf s' \<and> idle_floor \<le> poll_delay np
    \<and> (poll_pace np \<noteq> IdlePace \<longrightarrow> schedule_floor \<le> poll_delay np)
    \<and> (\<forall>state d. failure = Some state \<longrightarrow> retry_delay state now = Some d \<longrightarrow> d \<le> DURATION_MAX \<longrightarrow> d \<le> poll_delay np)
    \<and> (\<forall>state. failure = Some state \<longrightarrow> state \<noteq> Offline \<longrightarrow> nominal s \<le> poll_delay np)"
proof (cases failure)
  case None
  with nxt have np: "np = answered_poll c now (recovered s)" "s' = recovered s"
    by (auto simp: next_poll_with_def Let_def)
  have wf': "schedule_wf (recovered s)" using wf by simp
  show ?thesis
    using wf' np None nominal_props(1) [OF wf] floors(1) wf
    by (cases rule: answered_poll_cases [OF wf', of c now]) (auto simp: schedule_wf_def)
next
  case (Some state)
  note le = nominal_props [OF wf] floors
  show ?thesis
  proof (cases state)
    case Offline
    let ?s = "snd (next_poll_with (Some state) c now j s)"
    have "poll_delay np = offline_delay (nominal s) j ?s" "poll_pace np = OfflinePace (ps_consecutive_offline ?s)"
      "s' = ?s" "schedule_wf ?s"
      using nxt wf Some Offline by (auto simp: next_poll_with_def Let_def nominal_def schedule_wf_def)
    then show ?thesis
      using Some Offline le by (auto simp: offline_delay_def Let_def)
  next
    case (RateLimitedState limit)
    let ?w = "max (delay_from limit now) (nominal s)"
    have "?w \<le> DURATION_MAX"
      using delay_from_bounds(2) [of limit now] le(2) by (simp add: DURATION_MAX_def backoff_defs)
    moreover have "poll_delay np = duration_add ?w (rate_limit_spread j ?w)" "s' = recovered s"
      using nxt Some RateLimitedState by (auto simp: next_poll_with_def Let_def retry_floor_def)
    ultimately have "?w \<le> poll_delay np" "s' = recovered s" by (simp_all only: duration_add_ge)
    then show ?thesis using Some RateLimitedState le wf by auto
  qed (use nxt Some le wf in \<open>auto simp: next_poll_with_def retry_floor_def\<close>)
qed

definition quarter_jitter :: jitter where
  "quarter_jitter = \<lparr>offline_spread = (\<lambda>d. d div 4), rate_limit_spread = (\<lambda>d. d div 20)\<rparr>"

lemma default_schedule_wf: "schedule_wf (schedule_new refresh_default)"
  by (rule schedule_new_wf [of 60])
    (simp add: refresh_from_secs_def refresh_default_def REFRESH_DEFAULT_SECS_def REFRESH_MIN_SECS_def)

theorem poll_delay_floors_witness:
  "schedule_floor \<le> poll_delay (fst (next_poll_with (Some (LockedOut 7 :: unit refresh_state)) default_conditions 0
     quarter_jitter (schedule_new refresh_default)))"
proof -
  let ?p = "next_poll_with (Some (LockedOut 7 :: unit refresh_state)) default_conditions 0 quarter_jitter (schedule_new refresh_default)"
  have "?p = (fst ?p, snd ?p)" by simp
  from poll_delay_floors [OF default_schedule_wf this] have "poll_pace (fst ?p) \<noteq> IdlePace \<longrightarrow> schedule_floor \<le> poll_delay (fst ?p)"
    by blast
  moreover have "poll_pace (fst ?p) = LockedOutPace" by (simp add: next_poll_with_def)
  ultimately show ?thesis by simp
qed

text \<open>C24. An outage backs off and is timed from its first poll: the delay after the \<open>n\<close>-th
  unreachable poll is the active interval doubled \<open>n - 1\<close> times (five at most) under a
  fifteen-minute ceiling, plus at most half of that in jitter; the run is counted exactly, its
  length is measured from the first failed poll, and the first answer ends it.\<close>

theorem outage_backs_off:
  assumes wf: "schedule_wf s" and fresh: "ps_consecutive_offline s = 0" "ps_offline_since s = None"
    and len: "length ts + 1 < 2 ^ 32" and spread: "\<And>d. offline_spread j d \<le> d div 2"
    and nxt: "next_poll_with (Some (Offline :: unit refresh_state)) c t j (offline_run j c ts s) = (np, s')"
  defines "capped \<equiv> ladder (nominal s) MAX_OFFLINE_BACKOFF 5 (length ts + 1)"
  shows "poll_pace np = OfflinePace (of_nat (length ts + 1))
    \<and> capped \<le> poll_delay np \<and> poll_delay np \<le> capped + capped div 2 \<and> poll_delay np \<le> from_secs 1350
    \<and> offline_for now s' = to_std (now - hd (ts @ [t]))
    \<and> (let s'' = snd (next_poll_with (None :: unit refresh_state option) c now j s') in
         ps_consecutive_offline s'' = 0 \<and> offline_for now s'' = None)"
proof -
  have s': "s' = offline_run j c (ts @ [t]) s" using nxt by (simp add: offline_run_def)
  have run: "offline_run j c (ts @ [t]) s =
      s\<lparr>ps_consecutive_offline := of_nat (length ts + 1), ps_offline_since := Some (hd (ts @ [t]))\<rparr>"
    using offline_run_state [of "ts @ [t]" s j c] len fresh by (cases ts) simp_all
  have np: "poll_delay np = offline_delay (nominal s) j s'" "poll_pace np = OfflinePace (ps_consecutive_offline s')"
    using offline_poll_paced [OF nxt] run by (simp_all add: s' nominal_def)
  have "unat (of_nat (length ts + 1) :: u32) = length ts + 1" using len by (simp only: unat_of_nat) simp
  then have cap: "offline_capped (nominal s) (ps_consecutive_offline s') = capped"
    using offline_capped_ladder [OF nominal_props(3) [OF wf]] by (simp add: capped_def s' run)
  have top: "capped \<le> MAX_OFFLINE_BACKOFF" "schedule_floor \<le> capped"
    using offline.delay_le_cap [of "length ts + 1" s] ladder_floor [OF _ wf, of "length ts + 1"] by (simp_all add: capped_def)
  have delay: "poll_delay np = capped + offline_spread j capped"
    using top spread [of capped] np(1) cap
    by (simp add: offline_delay_def Let_def duration_add_def DURATION_MAX_def schedule_consts)
  have "poll_delay np \<le> from_secs 1350"
    using delay spread [of capped] top(1) by (simp add: schedule_consts)
  then show ?thesis
    using delay spread [of capped] np(2)
    by (simp add: s' run offline_for_def next_poll_with_def Let_def recovered_def)
qed

theorem outage_backs_off_witness:
  "poll_pace (fst (next_poll_with (Some (Offline :: unit refresh_state)) default_conditions 60 quarter_jitter
     (offline_run quarter_jitter default_conditions [0] (schedule_new refresh_default)))) = OfflinePace 2"
proof -
  let ?p = "next_poll_with (Some (Offline :: unit refresh_state)) default_conditions 60 quarter_jitter
     (offline_run quarter_jitter default_conditions [0] (schedule_new refresh_default))"
  have p: "?p = (fst ?p, snd ?p)" by simp
  have "ps_consecutive_offline (schedule_new refresh_default) = 0" "ps_offline_since (schedule_new refresh_default) = None"
    by (simp_all add: schedule_new_def)
  moreover have "\<And>d. offline_spread quarter_jitter d \<le> d div 2" by (simp add: quarter_jitter_def)
  ultimately have "poll_pace (fst ?p) = OfflinePace (of_nat (length [0 :: timestamp] + 1))"
    using outage_backs_off [OF default_schedule_wf _ _ _ _ p] by simp
  then show ?thesis by simp
qed

text \<open>A failing cleanup is retried, but not in a flood: after a failure at \<open>now\<close> the attempt is
  not due before the ladder's delay has passed and is due from then on, the delay is between
  thirty seconds and thirty minutes and never shrinks while failures continue, other attempts
  are unaffected, and success forgets the failures.\<close>

theorem cleanup_retry_backs_off:
  fixes b :: clean_backoff and a a' :: attempt_id and now t :: timestamp
  defines "n \<equiv> (case btm_get b a of None \<Rightarrow> 1 | Some r \<Rightarrow> min (unat (clean_failures_seen r) + 1) (2 ^ 32 - 1))"
    and "w \<equiv> \<lambda>n. ladder CLEAN_RETRY_INITIAL CLEAN_RETRY_MAXIMUM 31 n"
  shows "(is_due (clean_failed a now b) a t \<longleftrightarrow> now + int (w n) \<le> t)
    \<and> CLEAN_RETRY_INITIAL \<le> w n \<and> w n \<le> CLEAN_RETRY_MAXIMUM
    \<and> (\<forall>r. btm_get b a = Some r \<longrightarrow> 1 \<le> unat (clean_failures_seen r) \<longrightarrow> w (unat (clean_failures_seen r)) \<le> w n)
    \<and> (a' \<noteq> a \<longrightarrow> is_due (clean_failed a now b) a' t = is_due b a' t)
    \<and> is_due (clean_succeeded a b) a t"
proof -
  let ?c = "case btm_get b a of None \<Rightarrow> 1 | Some r \<Rightarrow> saturating_add (clean_failures_seen r) (1 :: u32)"
  have c: "unat ?c = n" by (simp add: n_def unat_saturating_add split: option.split)
  have n: "1 \<le> n" by (simp add: n_def split: option.split)
  have "clean_failed a now b = btm_insert a \<lparr>clean_failures_seen = ?c, not_before = now + int (w n)\<rparr> b"
    using clean_delay_ladder [of ?c] c by (simp add: clean_failed_def Let_def w_def)
  moreover have "CLEAN_RETRY_INITIAL \<le> w n" "w n \<le> CLEAN_RETRY_MAXIMUM"
    using clean_retries.delay_ge_base [OF n] clean_retries.delay_le_cap [OF n] by (simp_all add: w_def schedule_consts)
  moreover have "w (unat (clean_failures_seen r)) \<le> w n" if "btm_get b a = Some r" "1 \<le> unat (clean_failures_seen r)" for r
    using that clean_retries.delay_mono [OF that(2), of n] unat_lt_32 [of "clean_failures_seen r"] by (simp add: n_def w_def)
  ultimately show ?thesis
    by (auto simp: is_due_def clean_succeeded_def)
qed

theorem cleanup_retry_backs_off_witness:
  "is_due (clean_failed 7 0 []) 7 30000000000 \<and> \<not> is_due (clean_failed 7 0 []) 7 29999999999"
proof -
  have "ladder CLEAN_RETRY_INITIAL CLEAN_RETRY_MAXIMUM 31 1 = 30000000000" by (simp add: ladder_def schedule_consts)
  then show ?thesis
    using cleanup_retry_backs_off [where b = "[]" and a = 7 and now = 0] by (simp add: btm_get_def)
qed

section \<open>Where the documentation and the schedule part\<close>

text \<open>At the sixty-second default the ceiling is reached on the fifth consecutive failure.\<close>

lemma offline_cap_reached_on_fifth:
  "offline_capped (nominal_of refresh_default) 4 < MAX_OFFLINE_BACKOFF
   \<and> offline_capped (nominal_of refresh_default) 5 = MAX_OFFLINE_BACKOFF"
  using offline_capped_ladder [OF nominal_bound, of refresh_default]
  by (simp add: ladder_def schedule_consts nominal_of_def refresh_default_def REFRESH_DEFAULT_SECS_def)

text \<open>With an active interval above the ceiling, an unreachable target is polled sooner than a
  healthy one: the ceiling applies to the interval as well as to its growth.\<close>

lemma offline_polls_sooner_than_nominal:
  assumes "MAX_OFFLINE_BACKOFF < nominal_of i"
  shows "offline_capped (nominal_of i) 1 = MAX_OFFLINE_BACKOFF" "offline_capped (nominal_of i) 1 < nominal_of i"
  using assms offline_capped_ladder [OF nominal_bound, of i 1] by (simp_all add: ladder_def)

text \<open>A quiet target with enough repositories is polled later than a busy one.\<close>

lemma quiet_polls_later_than_nominal:
  "poll_delay (answered_poll \<lparr>cond_quiet = True, cond_quota = None, cond_requests_per_pass = 400\<rparr> now
     (with_idle (from_secs 10) (schedule_new refresh_default))) = from_secs 80
   \<and> nominal (with_idle (from_secs 10) (schedule_new refresh_default)) = from_secs 60"
  by (simp add: answered_poll_def with_idle_def set_intervals_def schedule_new_def nominal_def nominal_of_def
      refresh_default_def REFRESH_DEFAULT_SECS_def schedule_consts idle_floor_for_def
      MAX_IDLE_REQUESTS_PER_MINUTE_PER_TARGET_def Let_def)

end
