(* ===== verification/Http.thy ===== *)
theory Http
  imports Rate_Limit
begin

text \<open>
  Requests, responses and the conditional cache of \<open>crates/github/src/lib.rs\<close> and
  \<open>conditional.rs\<close>. A request body and its method other than the ones that read are left out;
  \<open>client\<close>, the authenticated HTTP client, and \<open>parse_url\<close>, the URL parser, are parameters, and so
  is \<open>during\<close>, what the other users of the shared cache do to it while a request is in flight. The
  cache is the association list of its entries in the order the hash map iterates over them.
\<close>

section \<open>Data\<close>

record validators =
  etag :: "ustr option"
  last_modified :: "ustr option"

record api_request =
  req_method :: ustr
  req_path :: ustr
  req_query :: "(ustr \<times> ustr) list"
  req_validators :: "validators option"

record api_response =
  resp_status :: u16
  resp_headers :: headers
  resp_body :: "u8 list"

record cache_entry =
  entry_validators :: validators
  entry_response :: api_response
  entry_last_used :: timestamp

type_synonym conditional_cache = "(ustr \<times> cache_entry) list"

record fetched =
  fetched_response :: api_response
  fetched_not_modified :: bool

definition IDLE_ENTRY_TTL :: duration where "IDLE_ENTRY_TTL = from_secs (2 * 60 * 60)"
definition MAX_ENTRIES :: nat where "MAX_ENTRIES = 1024"

section \<open>Requests and responses\<close>

definition api_get :: "ustr \<Rightarrow> api_request" where
  "api_get path = \<lparr>req_method = lit ''GET'', req_path = path, req_query = [], req_validators = None\<rparr>"

definition add_query :: "ustr \<Rightarrow> ustr \<Rightarrow> api_request \<Rightarrow> api_request" where
  "add_query key value r = r\<lparr>req_query := req_query r @ [(key, value)]\<rparr>"

definition validators_is_empty :: "validators \<Rightarrow> bool" where
  "validators_is_empty v \<longleftrightarrow> etag v = None \<and> last_modified v = None"

definition conditional :: "validators \<Rightarrow> api_request \<Rightarrow> api_request" where
  "conditional v r = r\<lparr>req_validators := (if validators_is_empty v then None else Some v)\<rparr>"

definition is_conditional :: "api_request \<Rightarrow> bool" where
  "is_conditional r \<longleftrightarrow> req_validators r \<noteq> None"

fun query_text :: "uchar \<Rightarrow> (ustr \<times> ustr) list \<Rightarrow> ustr" where
  "query_text sep [] = []"
| "query_text sep ((name, value) # qs) = sep # name @ lit ''='' @ value @ query_text (ch CHR ''&'') qs"

definition cache_key :: "api_request \<Rightarrow> ustr" where
  "cache_key r = req_method r @ lit '' '' @ req_path r @ query_text (ch CHR ''?'') (req_query r)"

definition read_validator :: "api_response \<Rightarrow> ustr \<Rightarrow> ustr option" where
  "read_validator resp name =
     (case map_of (resp_headers resp) name of
        None \<Rightarrow> None
      | Some v \<Rightarrow> if trim v = [] then None else Some (trim v))"

definition validators_of :: "api_response \<Rightarrow> validators" where
  "validators_of resp =
     \<lparr>etag = read_validator resp (lit ''etag''), last_modified = read_validator resp (lit ''last-modified'')\<rparr>"

definition is_not_modified :: "api_response \<Rightarrow> bool" where
  "is_not_modified resp \<longleftrightarrow> resp_status resp = 304"

section \<open>The \<open>Link\<close> header\<close>

text \<open>The parameters of a link-value run to the first comma that begins the next one.\<close>

fun cut_params :: "ustr \<Rightarrow> ustr \<times> ustr" where
  "cut_params [] = ([], [])"
| "cut_params (c # cs) =
     (if c = ch CHR '','' \<and> starts_with (trim_start cs) (lit ''<'') then ([], c # cs)
      else (let (params, next') = cut_params cs in (c # params, next')))"

definition is_next_param :: "ustr \<Rightarrow> bool" where
  "is_next_param param =
     eq_ignore_ascii_case (filter (\<lambda>c. c \<noteq> 34 \<and> c \<noteq> 39) (trim param)) (lit ''rel=next'')"

lemma split_once_length: "split_once d s = Some (a, b) \<Longrightarrow> length s = Suc (length a + length b)"
  by (induction s arbitrary: a) (auto split: if_splits)

lemma cut_params_append: "fst (cut_params s) @ snd (cut_params s) = s"
  by (induction s) (auto simp: Let_def split_def)

lemma cut_params_length: "length (snd (cut_params s)) \<le> length s"
  using arg_cong [OF cut_params_append [of s], of length] by (metis le_add2 length_append)

lemma strip_comma_length: "length (case strip_prefix s p of Some r \<Rightarrow> r | None \<Rightarrow> s) \<le> length s"
  by (auto simp: strip_prefix_def split: option.splits if_splits)

function parse_link_next :: "(ustr \<Rightarrow> 'u option) \<Rightarrow> ustr \<Rightarrow> 'u option" where
  "parse_link_next parse_url rest =
     (case split_once (ch CHR ''<'') rest of
        None \<Rightarrow> None
      | Some (_, after_open) \<Rightarrow>
          (case split_once (ch CHR ''>'') after_open of
             None \<Rightarrow> None
           | Some (target, tail) \<Rightarrow>
               (let (params, next') = cut_params tail in
                if list_ex is_next_param (split_on (\<lambda>c. c = ch CHR '';'') params) then parse_url (trim target)
                else parse_link_next parse_url (case strip_prefix next' (lit '','') of Some r \<Rightarrow> r | None \<Rightarrow> next'))))"
  by pat_completeness auto

termination
proof (relation "measure (\<lambda>(_, rest). length rest)", goal_cases)
  case 1
  then show ?case by simp
next
  case (2 parse_url rest x pre after_open y target tail z params next')
  then have "length rest > length after_open" "length after_open > length tail"
    using split_once_length by fastforce+
  moreover have "length next' \<le> length tail" using 2 cut_params_length [of tail] by (metis snd_conv)
  ultimately show ?case using strip_comma_length [of next' "lit '',''"] by auto
qed

definition next_page :: "(ustr \<Rightarrow> 'u option) \<Rightarrow> api_response \<Rightarrow> 'u option" where
  "next_page parse_url resp = Option.bind (map_of (resp_headers resp) (lit ''link'')) (parse_link_next parse_url)"

section \<open>The conditional cache\<close>

definition retain_recent :: "timestamp \<Rightarrow> conditional_cache \<Rightarrow> conditional_cache" where
  "retain_recent now entries = filter (\<lambda>(_, e). now - entry_last_used e < int IDLE_ENTRY_TTL) entries"

definition cache_remove :: "ustr \<Rightarrow> conditional_cache \<Rightarrow> conditional_cache" where
  "cache_remove key entries = filter (\<lambda>(k, _). k \<noteq> key) entries"

definition cache_insert :: "ustr \<Rightarrow> cache_entry \<Rightarrow> conditional_cache \<Rightarrow> conditional_cache" where
  "cache_insert key e entries = (key, e) # cache_remove key entries"

text \<open>\<open>min_by_key\<close>: the first of the entries with the least \<open>last_used\<close>.\<close>

fun oldest :: "conditional_cache \<Rightarrow> ustr option" where
  "oldest [] = None"
| "oldest ((k, e) # es) =
     (if \<forall>(_, e') \<in> set es. entry_last_used e \<le> entry_last_used e' then Some k else oldest es)"

lemma oldest_key: "oldest es = Some k \<Longrightarrow> k \<in> fst ` set es"
  by (induction es) (auto split: if_splits)

lemma cache_remove_shorter: "k \<in> fst ` set es \<Longrightarrow> length (cache_remove k es) < length es"
  unfolding cache_remove_def by (auto intro!: length_filter_less)

function evict_to :: "nat \<Rightarrow> conditional_cache \<Rightarrow> conditional_cache" where
  "evict_to n entries =
     (if length entries \<le> n then entries
      else case oldest entries of None \<Rightarrow> entries | Some k \<Rightarrow> evict_to n (cache_remove k entries))"
  by pat_completeness auto

termination
  by (relation "measure (\<lambda>(_, es). length es)") (auto intro: cache_remove_shorter oldest_key)

declare evict_to.simps [simp del]

definition cache_store :: "ustr \<Rightarrow> api_response \<Rightarrow> timestamp \<Rightarrow> conditional_cache \<Rightarrow> conditional_cache" where
  "cache_store key resp now entries =
     (if validators_is_empty (validators_of resp) then cache_remove key entries
      else
        (let entries = cache_insert key
               \<lparr>entry_validators = validators_of resp, entry_response = resp, entry_last_used = now\<rparr> entries;
             entries = (if length entries > MAX_ENTRIES then retain_recent now entries else entries)
         in evict_to MAX_ENTRIES entries))"

definition cached_for ::
  "ustr \<Rightarrow> validators option \<Rightarrow> timestamp \<Rightarrow> conditional_cache \<Rightarrow> (api_response \<times> conditional_cache) option" where
  "cached_for key sent now entries =
     (case map_of entries key of
        None \<Rightarrow> None
      | Some e \<Rightarrow>
          if Some (entry_validators e) = sent
          then Some (entry_response e,
                     map (\<lambda>(k, x). (k, if k = key then x\<lparr>entry_last_used := now\<rparr> else x)) entries)
          else None)"

text \<open>The result of a send, the world and the cache; \<open>now\<close> is read after the first answer.\<close>

definition cache_send ::
  "(api_request \<Rightarrow> 'w \<Rightarrow> (github_error + api_response) \<times> 'w) \<Rightarrow> ('w \<Rightarrow> timestamp)
   \<Rightarrow> ('w \<Rightarrow> conditional_cache \<Rightarrow> conditional_cache) \<Rightarrow> api_request \<Rightarrow> 'w \<Rightarrow> conditional_cache
   \<Rightarrow> (github_error + fetched) \<times> 'w \<times> conditional_cache" where
  "cache_send client clock during request w entries =
     (let key = cache_key request;
          sent_validators = map_option entry_validators (map_of entries key);
          sent = (case sent_validators of Some v \<Rightarrow> conditional v request | None \<Rightarrow> request);
          (answer, w1) = client sent w;
          entries1 = during w1 entries
      in case answer of
           Inl e \<Rightarrow> (Inl e, w1, entries1)
         | Inr resp \<Rightarrow>
             (let now = clock w1 in
              if is_not_modified resp
              then (case cached_for key sent_validators now entries1 of
                      Some (cached, entries2) \<Rightarrow>
                        (Inr \<lparr>fetched_response = cached, fetched_not_modified = True\<rparr>, w1, entries2)
                    | None \<Rightarrow>
                        (let (answer2, w2) = client request w1;
                             entries2 = during w2 entries1
                         in case answer2 of
                              Inl e \<Rightarrow> (Inl e, w2, entries2)
                            | Inr resp2 \<Rightarrow>
                                (Inr \<lparr>fetched_response = resp2, fetched_not_modified = False\<rparr>, w2,
                                 cache_store key resp2 now entries2)))
              else (Inr \<lparr>fetched_response = resp, fetched_not_modified = False\<rparr>, w1,
                    cache_store key resp now entries1)))"

definition evict_idle :: "timestamp \<Rightarrow> conditional_cache \<Rightarrow> conditional_cache" where
  "evict_idle now entries = retain_recent now entries"

section \<open>Reading back a rendered \<open>Link\<close> header\<close>

definition link_value :: "ustr \<times> ustr \<Rightarrow> ustr" where
  "link_value l = (case l of (url, rel) \<Rightarrow> lit ''<'' @ url @ lit ''>; rel='' @ [34] @ rel @ [34])"

definition link_header :: "(ustr \<times> ustr) list \<Rightarrow> ustr" where
  "link_header ls = str_join (lit '', '') (map link_value ls)"

definition link_ok :: "ustr \<times> ustr \<Rightarrow> bool" where
  "link_ok l \<longleftrightarrow> ch CHR ''>'' \<notin> set (fst l) \<and> trim (fst l) = fst l \<and> (\<forall>c \<in> set (snd l). is_ascii_lowercase c)"

definition link_params :: "ustr \<Rightarrow> ustr" where
  "link_params rel = lit ''; rel='' @ [34] @ rel @ [34]"

lemma cut_params_plain:
  "44 \<notin> set p \<Longrightarrow> cut_params (p @ s) = (p @ fst (cut_params s), snd (cut_params s))"
  by (induction p) (auto simp: Let_def split_def ch_def)

lemma link_params_plain:
  assumes "\<forall>c \<in> set rel. is_ascii_lowercase c"
  shows "44 \<notin> set (link_params rel)" "split_on (\<lambda>c. c = 59) (link_params rel) = [[], lit '' rel='' @ [34] @ rel @ [34]]"
proof -
  have "44 \<notin> set rel" "59 \<notin> set rel" using assms by (auto simp: is_ascii_lowercase_def)
  then show "44 \<notin> set (link_params rel)" by (simp add: link_params_def)
  have "59 \<notin> set (lit '' rel='' @ [34] @ rel @ [34])" using \<open>59 \<notin> set rel\<close> by simp
  then have "split_on (\<lambda>c. c = 59) (lit '' rel='' @ [34] @ rel @ [34]) = [lit '' rel='' @ [34] @ rel @ [34]]"
    by (intro split_on_plain) (auto dest: sym)
  then show "split_on (\<lambda>c. c = 59) (link_params rel) = [[], lit '' rel='' @ [34] @ rel @ [34]]"
    by (simp add: link_params_def)
qed

lemma next_param_iff:
  assumes "\<forall>c \<in> set rel. is_ascii_lowercase c"
  shows "is_next_param (lit '' rel='' @ [34] @ rel @ [34]) \<longleftrightarrow> rel = lit ''next''" "\<not> is_next_param []"
proof -
  have keep: "filter (\<lambda>c. c \<noteq> 34 \<and> c \<noteq> 39) rel = rel"
    using assms by (intro filter_True) (auto simp: is_ascii_lowercase_def)
  have low: "to_ascii_lowercase rel = rel"
    unfolding to_ascii_lowercase_def
    by (rule map_idI) (use assms in \<open>auto simp: to_ascii_lower_def is_ascii_lowercase_def is_ascii_uppercase_def\<close>)
  have "trim (lit '' rel='' @ [34] @ rel @ [34]) = lit ''rel='' @ [34] @ rel @ [34]"
    by (simp add: trim_def trim_start_def trim_end_matches_def is_whitespace_def)
  then have "is_next_param (lit '' rel='' @ [34] @ rel @ [34]) \<longleftrightarrow> to_ascii_lowercase (lit ''rel='' @ rel) = to_ascii_lowercase (lit ''rel=next'')"
    using keep by (simp add: is_next_param_def eq_ignore_ascii_case_def)
  also have "\<dots> \<longleftrightarrow> rel = lit ''next''"
    using low by (simp add: to_ascii_lowercase_def to_ascii_lower_def is_ascii_uppercase_def)
  finally show "is_next_param (lit '' rel='' @ [34] @ rel @ [34]) \<longleftrightarrow> rel = lit ''next''" .
  show "\<not> is_next_param []"
    by (simp add: is_next_param_def eq_ignore_ascii_case_def trim_def trim_start_def trim_end_matches_def to_ascii_lowercase_def)
qed

lemma parse_link_step:
  assumes ok: "link_ok (url, rel)" and rest_l: "rest_l = [] \<or> (\<exists>r. rest_l = 44 # 32 # 60 # r)" and pre: "pre = [] \<or> pre = [32]"
  shows "parse_link_next parse_url (pre @ link_value (url, rel) @ rest_l) =
    (if rel = lit ''next'' then parse_url url else parse_link_next parse_url (tl rest_l))"
proof -
  have rel: "\<forall>c \<in> set rel. is_ascii_lowercase c" and url: "62 \<notin> set url" "trim url = url"
    using ok by (auto simp: link_ok_def ch_def)
  have shape: "pre @ link_value (url, rel) @ rest_l = pre @ 60 # (url @ 62 # (link_params rel @ rest_l))"
    by (simp add: link_value_def link_params_def)
  have open': "split_once 60 (pre @ 60 # (url @ 62 # (link_params rel @ rest_l))) = Some (pre, url @ 62 # (link_params rel @ rest_l))"
    using pre by (intro split_once_append) auto
  have close': "split_once 62 (url @ 62 # (link_params rel @ rest_l)) = Some (url, link_params rel @ rest_l)"
    using url(1) by (intro split_once_append) auto
  have cut: "cut_params (link_params rel @ rest_l) = (link_params rel, rest_l)"
    using cut_params_plain [OF link_params_plain(1) [OF rel], of rest_l] rest_l
    by (auto simp: ch_def trim_start_def starts_with_def is_whitespace_def)
  have rest: "(case strip_prefix rest_l (lit '','') of None \<Rightarrow> rest_l | Some r \<Rightarrow> r) = tl rest_l"
    using rest_l by (auto simp: strip_prefix_def starts_with_def)
  show ?thesis
    using open' close' cut rest url(2) link_params_plain(2) [OF rel] next_param_iff [OF rel]
    unfolding shape by (subst parse_link_next.simps) (simp add: ch_def)
qed

lemma link_header_Cons:
  "link_header (l # ls) = link_value l @ (if ls = [] then [] else lit '', '' @ link_header ls)"
  by (cases ls) (simp_all add: link_header_def)

lemma parse_link_header:
  assumes "\<forall>l \<in> set ls. link_ok l" "pre = [] \<or> pre = [32]"
  shows "parse_link_next parse_url (pre @ link_header ls) =
    Option.bind (find (\<lambda>l. snd l = lit ''next'') ls) (\<lambda>l. parse_url (fst l))"
  using assms
proof (induction ls arbitrary: pre)
  case Nil
  then have "split_once 60 pre = None" by auto
  then show ?case by (subst parse_link_next.simps) (simp add: link_header_def ch_def)
next
  case (Cons l ls)
  obtain url rel where l: "l = (url, rel)" by (cases l)
  let ?rl = "if ls = [] then [] else lit '', '' @ link_header ls"
  have rest_l: "?rl = [] \<or> (\<exists>r. ?rl = 44 # 32 # 60 # r)"
    by (cases ls) (auto simp: link_header_Cons link_value_def split_def)
  have step: "parse_link_next parse_url (pre @ link_header (l # ls)) =
      (if rel = lit ''next'' then parse_url url else parse_link_next parse_url (tl ?rl))"
    using parse_link_step [OF _ rest_l Cons.prems(2), of url rel parse_url] Cons.prems(1) by (simp add: link_header_Cons l)
  show ?case
  proof (cases "ls = []")
    case True
    have "parse_link_next parse_url [] = None" by (subst parse_link_next.simps) simp
    then show ?thesis using step True by (simp add: l)
  next
    case False
    then have "tl ?rl = [32] @ link_header ls" by simp
    then show ?thesis using step Cons.IH [of "[32]"] Cons.prems(1) by (simp add: l)
  qed
qed

section \<open>The cache invariant\<close>

definition cache_ok :: "conditional_cache \<Rightarrow> bool" where
  "cache_ok es \<longleftrightarrow> distinct (map fst es) \<and> length es \<le> MAX_ENTRIES
     \<and> (\<forall>(k, e) \<in> set es. entry_validators e = validators_of (entry_response e) \<and> \<not> validators_is_empty (entry_validators e))"

lemma cache_ok_filter: "cache_ok es \<Longrightarrow> cache_ok (filter P es)"
  by (auto simp: cache_ok_def distinct_map_filter intro: order_trans [OF length_filter_le])

lemma oldest_Some: "es \<noteq> [] \<Longrightarrow> oldest es \<noteq> None"
proof (induction es)
  case (Cons x es)
  then show ?case by (cases x; cases "es = []") auto
qed simp

lemma evict_to_props:
  "length (evict_to n es) \<le> n \<and> set (evict_to n es) \<subseteq> set es \<and> (distinct (map fst es) \<longrightarrow> distinct (map fst (evict_to n es)))"
proof (induction n es rule: evict_to.induct)
  case (1 n es)
  show ?case
  proof (cases "length es \<le> n")
    case True
    then show ?thesis by (simp add: evict_to.simps [of n es])
  next
    case False
    then obtain k where k: "oldest es = Some k" using oldest_Some [of es] by fastforce
    then show ?thesis
      using 1 [OF False k] False
      by (auto simp: evict_to.simps [of n es] cache_remove_def distinct_map_filter)
  qed
qed

lemma cache_store_ok: "cache_ok es \<Longrightarrow> cache_ok (cache_store key resp now es)"
proof (cases "validators_is_empty (validators_of resp)")
  case True
  then show "cache_ok es \<Longrightarrow> ?thesis" by (simp add: cache_store_def cache_remove_def cache_ok_filter)
next
  case False
  assume ok: "cache_ok es"
  define e where "e = \<lparr>entry_validators = validators_of resp, entry_response = resp, entry_last_used = now\<rparr>"
  define c1 where "c1 = cache_insert key e es"
  define c2 where "c2 = (if length c1 > MAX_ENTRIES then retain_recent now c1 else c1)"
  have "distinct (map fst c1)"
    using ok by (auto simp: c1_def cache_insert_def cache_remove_def cache_ok_def distinct_map_filter)
  then have d: "distinct (map fst c2)" by (simp add: c2_def retain_recent_def distinct_map_filter)
  have "set c2 \<subseteq> insert (key, e) (set es)"
    by (auto simp: c2_def c1_def retain_recent_def cache_insert_def cache_remove_def)
  then have sub: "set (evict_to MAX_ENTRIES c2) \<subseteq> insert (key, e) (set es)"
    using evict_to_props [of MAX_ENTRIES c2] by blast
  have "cache_store key resp now es = evict_to MAX_ENTRIES c2"
    using False by (simp add: cache_store_def Let_def c2_def c1_def e_def)
  then show ?thesis
    using ok False d sub evict_to_props [of MAX_ENTRIES c2] by (auto simp: cache_ok_def e_def)
qed

lemma cached_for_ok:
  assumes "cache_ok es" "cached_for key sent now es = Some (resp, es')"
  shows "cache_ok es' \<and> sent = Some (validators_of resp)"
proof -
  obtain e where e: "map_of es key = Some e" "Some (entry_validators e) = sent" "resp = entry_response e"
    and es': "es' = map (\<lambda>(k, x). (k, if k = key then x\<lparr>entry_last_used := now\<rparr> else x)) es"
    using assms(2) by (auto simp: cached_for_def split: option.splits if_splits)
  have "map fst es' = map fst es" by (simp add: es' split_def)
  moreover have "\<forall>(k, x) \<in> set es'. entry_validators x = validators_of (entry_response x) \<and> \<not> validators_is_empty (entry_validators x)"
  proof clarify
    fix k x
    assume "(k, x) \<in> set es'"
    then obtain x0 where "(k, x0) \<in> set es" "entry_validators x = entry_validators x0" "entry_response x = entry_response x0"
      by (auto simp: es')
    then show "entry_validators x = validators_of (entry_response x) \<and> \<not> validators_is_empty (entry_validators x)"
      using assms(1) by (auto simp: cache_ok_def)
  qed
  moreover have "length es' = length es" by (simp add: es')
  ultimately have "cache_ok es'" using assms(1) unfolding cache_ok_def by simp
  then show ?thesis using assms(1) e map_of_SomeD [OF e(1)] by (auto simp: cache_ok_def)
qed

section \<open>Properties\<close>

text \<open>Pagination does not stop early: a \<open>Link\<close> header of any number of link-values is read
  back to the target of the first one whose relation is \<open>next\<close>, also when a target contains
  commas, semicolons or an opening angle bracket, and to nothing when there is none. The scan
  always ends.\<close>

theorem link_next_found:
  assumes "\<forall>l \<in> set ls. link_ok l"
  shows "parse_link_next parse_url (link_header ls) =
    Option.bind (find (\<lambda>l. snd l = lit ''next'') ls) (\<lambda>l. parse_url (fst l))"
  using parse_link_header [OF assms, of "[]"] by simp

theorem link_next_found_witness:
  "parse_link_next Some (link_header [(lit ''a?l=x,<y'', lit ''prev''), (lit ''b?l=x,y'', lit ''next'')]) = Some (lit ''b?l=x,y'')"
proof -
  have "\<forall>l \<in> set [(lit ''a?l=x,<y'', lit ''prev''), (lit ''b?l=x,y'', lit ''next'')]. link_ok l"
    by (simp add: link_ok_def ch_def is_ascii_lowercase_def trim_def trim_start_def trim_end_matches_def is_whitespace_def)
  from link_next_found [OF this, of Some] show ?thesis by simp
qed


definition sample_response :: api_response where
  "sample_response = \<lparr>resp_status = 200, resp_headers = [(lit ''etag'', lit ''1'')], resp_body = [1]\<rparr>"

text \<open>A client that answers \<open>304\<close> to every conditional request and the sample otherwise.\<close>

definition sample_client :: "api_request \<Rightarrow> unit \<Rightarrow> (github_error + api_response) \<times> unit" where
  "sample_client r w = (Inr (if is_conditional r then sample_response\<lparr>resp_status := 304\<rparr> else sample_response), w)"


end
