(* ===== verification/Demand.thy ===== *)
theory Demand
  imports Policy Http Traffic
begin

text \<open>
  Queued demand, \<open>crates/github/src/demand.rs\<close>, and its routing to profiles (\<open>demand_for\<close> and
  \<open>route_demand\<close> of \<open>crates/agent/src/reconcile.rs\<close>). A map or set keyed by repository is keyed by
  the case-folded pair of names repositories are compared and ordered by.
\<close>

section \<open>Readings\<close>

type_synonym repo_key = "ustr \<times> ustr"

record unavailable_repository =
  ur_repository :: owner_repo
  ur_reason :: ustr

record queued_demand =
  per_repository :: "(repo_key, runs_on list) btree_map"
  unavailable :: "unavailable_repository list"
  truncated :: "repo_key btree_set"
  busy_repositories :: "repo_key btree_set"
  reading_rate_limit :: "rate_limit_snapshot option"

definition empty_demand :: queued_demand where
  "empty_demand = \<lparr>per_repository = [], unavailable = [], truncated = [], busy_repositories = [], reading_rate_limit = None\<rparr>"

definition queued_demand_new :: "(repo_key, runs_on list) btree_map \<Rightarrow> queued_demand" where
  "queued_demand_new m = empty_demand\<lparr>per_repository := m\<rparr>"

definition demand_of :: "owner_repo \<Rightarrow> runs_on list \<Rightarrow> queued_demand" where
  "demand_of repo jobs = queued_demand_new (btm_insert (owner_repo_key repo) jobs [])"

definition with_truncated :: "owner_repo \<Rightarrow> queued_demand \<Rightarrow> queued_demand" where
  "with_truncated repo d = d\<lparr>truncated := bts_insert (owner_repo_key repo) (truncated d)\<rparr>"

definition with_busy :: "owner_repo \<Rightarrow> queued_demand \<Rightarrow> queued_demand" where
  "with_busy repo d = d\<lparr>busy_repositories := bts_insert (owner_repo_key repo) (busy_repositories d)\<rparr>"

definition with_rate_limit :: "rate_limit_snapshot option \<Rightarrow> queued_demand \<Rightarrow> queued_demand" where
  "with_rate_limit r d = d\<lparr>reading_rate_limit := r\<rparr>"

definition with_unavailable :: "owner_repo \<Rightarrow> ustr \<Rightarrow> queued_demand \<Rightarrow> queued_demand" where
  "with_unavailable repo reason d =
     d\<lparr>unavailable := unavailable d @ [\<lparr>ur_repository = repo, ur_reason = reason\<rparr>]\<rparr>"

definition demand_is_quiet :: "queued_demand \<Rightarrow> bool" where
  "demand_is_quiet d \<longleftrightarrow> busy_repositories d = [] \<and> unavailable d = []"

definition demand_total :: "queued_demand \<Rightarrow> u32" where
  "demand_total d =
     fold (\<lambda>(_, jobs) acc. saturating_add acc (saturating_of_nat (length jobs))) (per_repository d) 0"

definition for_repository :: "owner_repo \<Rightarrow> queued_demand \<Rightarrow> u32 option" where
  "for_repository repo d =
     map_option (\<lambda>jobs. saturating_of_nat (length jobs)) (btm_get (per_repository d) (owner_repo_key repo))"

definition jobs_for :: "owner_repo \<Rightarrow> queued_demand \<Rightarrow> runs_on list" where
  "jobs_for repo d = (case btm_get (per_repository d) (owner_repo_key repo) of None \<Rightarrow> [] | Some jobs \<Rightarrow> jobs)"

definition all_jobs :: "queued_demand \<Rightarrow> runs_on list" where
  "all_jobs d = concat (map snd (per_repository d))"

definition is_truncated :: "owner_repo \<Rightarrow> queued_demand \<Rightarrow> bool" where
  "is_truncated repo d \<longleftrightarrow> owner_repo_key repo \<in> set (truncated d)"

definition is_complete :: "queued_demand \<Rightarrow> bool" where
  "is_complete d \<longleftrightarrow> unavailable d = [] \<and> truncated d = []"

section \<open>Scopes and their cost\<close>

record activity_scope =
  scope_target :: scale_target
  scope_repositories :: "owner_repo list"

definition scope_repository :: "owner_repo \<Rightarrow> activity_scope" where
  "scope_repository repo = \<lparr>scope_target = RepositoryTarget repo, scope_repositories = [repo]\<rparr>"

definition scope_organization :: "org \<Rightarrow> owner_repo list \<Rightarrow> activity_scope" where
  "scope_organization o' repos = \<lparr>scope_target = OrganizationTarget o', scope_repositories = repos\<rparr>"

definition DEMAND_REQUESTS_PER_REPOSITORY_PER_POLL :: u32 where "DEMAND_REQUESTS_PER_REPOSITORY_PER_POLL = 4"
definition MAX_QUEUED_RUNS_PER_REPOSITORY_PER_POLL :: nat where "MAX_QUEUED_RUNS_PER_REPOSITORY_PER_POLL = 6"
definition MAX_IN_PROGRESS_RUNS_PER_REPOSITORY_PER_POLL :: nat where "MAX_IN_PROGRESS_RUNS_PER_REPOSITORY_PER_POLL = 4"
definition MAX_JOB_PAGES_PER_RUN :: nat where "MAX_JOB_PAGES_PER_RUN = 3"

definition max_demand_requests_per_repository_per_poll :: u32 where
  "max_demand_requests_per_repository_per_poll =
     2 + of_nat MAX_QUEUED_RUNS_PER_REPOSITORY_PER_POLL + of_nat MAX_IN_PROGRESS_RUNS_PER_REPOSITORY_PER_POLL"

definition demand_requests_per_poll :: "activity_scope \<Rightarrow> u32" where
  "demand_requests_per_poll sc =
     saturating_mul (saturating_of_nat (length (scope_repositories sc))) DEMAND_REQUESTS_PER_REPOSITORY_PER_POLL"

definition max_demand_requests_per_poll :: "activity_scope \<Rightarrow> u32" where
  "max_demand_requests_per_poll sc =
     saturating_mul (saturating_of_nat (length (scope_repositories sc))) max_demand_requests_per_repository_per_poll"

section \<open>Routing one reading to the profiles of a target\<close>

text \<open>The jobs of a reading that concern a target.\<close>

fun target_jobs :: "scale_target \<Rightarrow> queued_demand \<Rightarrow> runs_on list" where
  "target_jobs (RepositoryTarget repo) reading = jobs_for repo reading"
| "target_jobs (OrganizationTarget _) reading = all_jobs reading"

definition demand_for :: "scale_policy \<Rightarrow> queued_demand \<Rightarrow> demand_tally" where
  "demand_for p reading =
     (case mode_routing_labels (policy_mode p) of
        None \<Rightarrow> empty_tally
      | Some labels \<Rightarrow> tally labels (target_jobs (policy_target p) reading))"

datatype routing_refusal = OverlappingProfiles

definition routing_refusal_str :: "routing_refusal \<Rightarrow> ustr" where
  "routing_refusal_str r = lit ''overlapping_profile_matches''"

definition serves :: "scale_policy \<Rightarrow> runs_on \<Rightarrow> bool" where
  "serves p job =
     (case mode_routing_labels (policy_mode p) of None \<Rightarrow> False | Some labels \<Rightarrow> is_match (matches labels job))"

type_synonym tallies = "(policy_id, demand_tally) btree_map"

definition take_back :: "demand_tally \<Rightarrow> demand_tally" where
  "take_back t = t\<lparr>matched := matched t - 1, not_matched := not_matched t + 1\<rparr>"

definition route_job :: "scale_policy list \<Rightarrow> runs_on \<Rightarrow> tallies \<times> u32 \<Rightarrow> tallies \<times> u32" where
  "route_job owners job st =
     (case required_labels job of
        Inl _ \<Rightarrow> st
      | Inr _ \<Rightarrow>
          (let (ts, refused) = st;
               hits = map policy_id (filter (\<lambda>p. serves p job) owners)
           in if length hits > 1
              then (fold (\<lambda>i ts. btm_modify i take_back ts) hits ts, refused + 1)
              else (ts, refused)))"

definition owners_of :: "scale_policy list \<Rightarrow> scale_policy \<Rightarrow> scale_policy list" where
  "owners_of all_policies first =
     filter owns_runners
       (filter (\<lambda>p. target_eq (policy_target p) (policy_target first) \<and> policy_host_id p = policy_host_id first) all_policies)"

text \<open>The second component counts the refusals with reason \<open>OverlappingProfiles\<close>, the only one;
  the map of refusals has an entry when it is not zero.\<close>

definition route_demand :: "scale_policy list \<Rightarrow> scale_policy list \<Rightarrow> queued_demand \<Rightarrow> tallies \<times> u32" where
  "route_demand all_policies profiles reading =
     (let ts = fold (\<lambda>p. btm_insert (policy_id p) (demand_for p reading)) profiles [] in
      case profiles of
        [] \<Rightarrow> (ts, 0)
      | first # _ \<Rightarrow> fold (route_job (owners_of all_policies first)) (target_jobs (policy_target first) reading) (ts, 0))"

section \<open>Routing as counting\<close>

definition overlaps :: "scale_policy list \<Rightarrow> runs_on \<Rightarrow> bool" where
  "overlaps owners job \<longleftrightarrow> length (filter (\<lambda>p. serves p job) owners) > 1"

lemma serves_resolves: "serves p job \<Longrightarrow> \<exists>req. required_labels job = Inr req"
  by (auto simp: serves_def is_match_iff split: option.splits)

lemma target_jobs_eq: "target_eq a b \<Longrightarrow> target_jobs a reading = target_jobs b reading"
proof (induction a b rule: target_eq.induct)
  case (1 a b)
  then show ?case by (simp add: jobs_for_def owner_repo_eq_key)
qed simp_all

lemma get_modify_all:
  "distinct ids \<Longrightarrow> btm_get (fold (\<lambda>i ts. btm_modify i f ts) ids ts) k =
     (if k \<in> set ids then map_option f (btm_get ts k) else btm_get ts k)"
  by (induction ids arbitrary: ts) auto

lemma get_insert_profiles:
  assumes "distinct (map policy_id ps)"
  shows "btm_get (fold (\<lambda>p. btm_insert (policy_id p) (f p)) ps m) k =
    (case find (\<lambda>p. policy_id p = k) ps of Some p \<Rightarrow> Some (f p) | None \<Rightarrow> btm_get m k)"
  using assms
proof (induction ps arbitrary: m)
  case (Cons p ps)
  have "find (\<lambda>q. policy_id q = policy_id p) ps = None"
    using Cons.prems by (simp add: find_None_iff) (metis image_eqI)
  then show ?case using Cons by (auto split: option.splits)
qed simp

definition taken_back :: "nat \<Rightarrow> demand_tally \<Rightarrow> demand_tally" where
  "taken_back n t = t\<lparr>matched := matched t - of_nat n, not_matched := not_matched t + of_nat n\<rparr>"

lemma take_back_Suc: "take_back (taken_back n t) = taken_back (Suc n) t"
  by (simp add: take_back_def taken_back_def algebra_simps)

lemma taken_back_0 [simp]: "taken_back 0 t = t"
  by (simp add: taken_back_def)

lemma route_job_get:
  assumes "distinct (map policy_id owners)" "p \<in> set owners"
  shows "btm_get (fst (route_job owners job st)) (policy_id p) =
      (if serves p job \<and> overlaps owners job then map_option take_back (btm_get (fst st) (policy_id p))
       else btm_get (fst st) (policy_id p))"
    and "snd (route_job owners job st) = snd st + (if overlaps owners job then 1 else 0)"
proof -
  let ?hits = "map policy_id (filter (\<lambda>p. serves p job) owners)"
  have mem: "policy_id p \<in> set ?hits \<longleftrightarrow> serves p job"
    using assms by (auto simp: distinct_map inj_on_def)
  have dist: "distinct ?hits" using assms(1) by (simp add: distinct_map_filter)
  have "\<not> overlaps owners job" if "required_labels job = Inl u" for u
  proof -
    have "filter (\<lambda>p. serves p job) owners = []" using that serves_resolves [of _ job] by (fastforce simp: filter_empty_conv)
    then show ?thesis by (simp add: overlaps_def)
  qed
  then have clear: "overlaps owners job \<Longrightarrow> \<exists>req. required_labels job = Inr req"
    by (cases "required_labels job") auto
  have hit: "btm_get (fold (\<lambda>i ts. btm_modify i take_back ts) ?hits ts) (policy_id p) =
      (if serves p job then map_option take_back (btm_get ts (policy_id p)) else btm_get ts (policy_id p))" for ts
    unfolding get_modify_all [OF dist] mem ..
  obtain ts n where st: "st = (ts, n)" by (cases st)
  have route: "route_job owners job st =
      (if overlaps owners job then (fold (\<lambda>i ts. btm_modify i take_back ts) ?hits ts, n + 1) else (ts, n))"
    using clear by (cases "required_labels job") (auto simp: route_job_def overlaps_def Let_def st)
  show "btm_get (fst (route_job owners job st)) (policy_id p) =
      (if serves p job \<and> overlaps owners job then map_option take_back (btm_get (fst st) (policy_id p))
       else btm_get (fst st) (policy_id p))"
    unfolding route using hit [of ts] by (simp add: st del: fold_map)
  show "snd (route_job owners job st) = snd st + (if overlaps owners job then 1 else 0)"
    unfolding route by (simp add: st)
qed

lemma route_all_get:
  assumes "distinct (map policy_id owners)" "p \<in> set owners" "btm_get (fst st) (policy_id p) = Some t"
  shows "btm_get (fst (fold (route_job owners) jobs st)) (policy_id p) =
      Some (taken_back (length (filter (\<lambda>j. serves p j \<and> overlaps owners j) jobs)) t)
    \<and> snd (fold (route_job owners) jobs st) = snd st + of_nat (length (filter (overlaps owners) jobs))"
proof (induction jobs rule: rev_induct)
  case Nil
  then show ?case using assms(3) by simp
next
  case (snoc j jobs)
  then show ?case
    using route_job_get [OF assms(1,2), of j "fold (route_job owners) jobs st"] by (simp add: take_back_Suc)
qed

lemma filter_split_length:
  "length (filter P xs) = length (filter (\<lambda>x. P x \<and> Q x) xs) + length (filter (\<lambda>x. P x \<and> \<not> Q x) xs)"
  by (induction xs) auto

lemma matched_taken_back:
  fixes labels :: routing_labels and Q :: "runs_on \<Rightarrow> bool"
  assumes "length jobs < 2 ^ 32"
  defines "n \<equiv> length (filter (\<lambda>j. is_match (matches labels j) \<and> Q j) jobs)"
  shows "unat (matched (taken_back n (tally labels jobs))) = length (filter (\<lambda>j. is_match (matches labels j) \<and> \<not> Q j) jobs)"
    and "total_seen (taken_back n (tally labels jobs)) = total_seen (tally labels jobs)"
proof -
  let ?m = "length (filter (\<lambda>j. is_match (matches labels j)) jobs)"
  have "?m = n + length (filter (\<lambda>j. is_match (matches labels j) \<and> \<not> Q j) jobs)"
    unfolding n_def by (rule filter_split_length)
  moreover have "?m < 2 ^ 32" using assms(1) le_less_trans [OF length_filter_le] by blast
  moreover have "matched (taken_back n (tally labels jobs)) = of_nat ?m - of_nat n"
    by (simp add: taken_back_def tally_def tally_counts empty_tally_def)
  ultimately show "unat (matched (taken_back n (tally labels jobs))) = length (filter (\<lambda>j. is_match (matches labels j) \<and> \<not> Q j) jobs)"
    by (simp add: unat_of_nat)
  show "total_seen (taken_back n (tally labels jobs)) = total_seen (tally labels jobs)"
    by (simp add: total_seen_def taken_back_def)
qed

section \<open>Routing properties\<close>

text \<open>C23. Every queued job is demand of at most one profile: a profile's routed demand is exactly the
  number of jobs its labels match and no other profile of the target on this host (enabled or
  not) matches; a job several profiles match is demand of none of them and is counted as one
  refusal; nothing is lost, and the subtraction never wraps.\<close>

theorem routed_demand_is_unambiguous:
  assumes all: "distinct (map policy_id all_policies)" and profiles: "set profiles \<subseteq> set all_policies" "distinct profiles"
    and first: "profiles = first # others"
    and same: "\<forall>p \<in> set profiles. owns_runners p \<and> target_eq (policy_target p) (policy_target first) \<and> policy_host_id p = policy_host_id first"
    and small: "length (target_jobs (policy_target first) reading) < 2 ^ 32" and p: "p \<in> set profiles"
  defines "jobs \<equiv> target_jobs (policy_target first) reading" and "owners \<equiv> owners_of all_policies first"
  shows "\<exists>t. btm_get (fst (route_demand all_policies profiles reading)) (policy_id p) = Some t
    \<and> unat (tally_demand t) = length (filter (\<lambda>j. \<forall>q \<in> set owners. serves q j \<longleftrightarrow> q = p) jobs)
    \<and> unat (total_seen t) = length jobs
    \<and> unat (snd (route_demand all_policies profiles reading)) = length (filter (overlaps owners) jobs)"
proof -
  have inj: "inj_on policy_id (set all_policies)" using all by (simp add: distinct_map)
  have owner: "p \<in> set owners" using p profiles same by (auto simp: owners_def owners_of_def)
  have dist: "distinct (map policy_id owners)" using all by (simp add: owners_def owners_of_def distinct_map_filter)
  have ids: "distinct (map policy_id profiles)" using profiles inj by (auto simp: distinct_map intro: inj_on_subset)
  obtain labels where labels: "mode_routing_labels (policy_mode p) = Some labels"
    using same p by (cases "policy_mode p") (auto simp: owns_runners_def)
  have jobs: "target_jobs (policy_target p) reading = jobs" using same p target_jobs_eq by (auto simp: jobs_def)
  obtain q where q: "find (\<lambda>q. policy_id q = policy_id p) profiles = Some q"
    using p by (cases "find (\<lambda>q. policy_id q = policy_id p) profiles") (auto simp: find_None_iff)
  then have "q = p" using find_SomeD [OF q] profiles(1) inj p by (auto dest: inj_onD)
  then have start: "btm_get (fold (\<lambda>p. btm_insert (policy_id p) (demand_for p reading)) profiles []) (policy_id p) = Some (tally labels jobs)"
    using get_insert_profiles [OF ids, of "\<lambda>p. demand_for p reading" "[]" "policy_id p"] q
    by (simp add: demand_for_def labels jobs)
  let ?n = "length (filter (\<lambda>j. serves p j \<and> overlaps owners j) jobs)"
  have serves: "serves p j \<longleftrightarrow> is_match (matches labels j)" for j by (simp add: serves_def labels)
  have route: "route_demand all_policies profiles reading =
      fold (route_job owners) jobs (fold (\<lambda>p. btm_insert (policy_id p) (demand_for p reading)) profiles [], 0)"
    by (simp add: route_demand_def first Let_def jobs_def owners_def)
  have get: "btm_get (fst (route_demand all_policies profiles reading)) (policy_id p) = Some (taken_back ?n (tally labels jobs))"
    and refused: "snd (route_demand all_policies profiles reading) = of_nat (length (filter (overlaps owners) jobs))"
    using route_all_get [OF dist owner, of "(fold (\<lambda>p. btm_insert (policy_id p) (demand_for p reading)) profiles [], 0)"] start
    by (simp_all add: route)
  have "serves p j \<and> \<not> overlaps owners j \<longleftrightarrow> (\<forall>q \<in> set owners. serves q j \<longleftrightarrow> q = p)" for j
  proof -
    have "distinct owners" using dist by (simp add: distinct_map)
    then have "length (filter (\<lambda>q. serves q j) owners) = card {q \<in> set owners. serves q j}"
      by (metis distinct_card distinct_filter set_filter)
    moreover have "card S \<le> 1 \<longleftrightarrow> S = {p}" if "finite S" "p \<in> S" for S
      using card_le_Suc0_iff_eq [OF that(1)] that(2) by (simp, blast)
    ultimately have "\<not> overlaps owners j \<longleftrightarrow> {q \<in> set owners. serves q j} = {p}" if "serves p j"
      using owner that by (simp add: overlaps_def not_less)
    then show ?thesis using owner by blast
  qed
  then have "unat (tally_demand (taken_back ?n (tally labels jobs))) = length (filter (\<lambda>j. \<forall>q \<in> set owners. serves q j \<longleftrightarrow> q = p) jobs)"
    using matched_taken_back(1) [OF small, of labels "overlaps owners"] by (simp add: tally_demand_def serves jobs_def)
  moreover have "unat (total_seen (taken_back ?n (tally labels jobs))) = length jobs"
    using matched_taken_back(2) [OF small, of labels "overlaps owners"] tally_seen_all [OF small] by (simp add: serves jobs_def)
  moreover have "length (filter (overlaps owners) jobs) < 2 ^ 32"
    using small le_less_trans [OF length_filter_le] by (auto simp: jobs_def)
  ultimately show ?thesis using get refused by (simp add: unat_of_nat)
qed

definition profile_with :: "policy_id \<Rightarrow> label list \<Rightarrow> scale_policy" where
  "profile_with i extra =
     new_for_host_label i (OrganizationTarget (Org (Name (lit ''acme'')))) 1 3 (HostLabel (lit ''home''))
       (Autoscale \<lparr>cfg_routing_labels = \<lparr>rl_host_label = Label (lit ''a''), rl_additional = extra\<rparr>,
                   cfg_min_capacity = 0, cfg_max_capacity = 2\<rparr>)
       RetainRunnerPackage"

definition two_profiles :: "scale_policy list" where
  "two_profiles = [profile_with 1 [], profile_with 2 [Label (lit ''b'')]]"

definition two_jobs :: queued_demand where
  "two_jobs = demand_of \<lparr>or_owner = Name (lit ''acme''), or_repo = Name (lit ''app'')\<rparr>
     [RunsOnSingle (lit ''a''), RunsOnSingle (lit ''b'')]"

theorem routed_demand_is_unambiguous_witness:
  "\<exists>t. btm_get (fst (route_demand two_profiles two_profiles two_jobs)) 2 = Some t \<and> unat (tally_demand t) = 1
     \<and> unat (snd (route_demand two_profiles two_profiles two_jobs)) = 1"
proof -
  let ?p = "profile_with 1 []" and ?q = "profile_with 2 [Label (lit ''b'')]"
  have ids: "policy_id ?p = 1" "policy_id ?q = 2" "?p \<noteq> ?q" by (simp_all add: profile_with_def new_for_host_label_def)
  have jobs: "target_jobs (policy_target ?p) two_jobs = [RunsOnSingle (lit ''a''), RunsOnSingle (lit ''b'')]"
    by (simp add: profile_with_def new_for_host_label_def two_jobs_def demand_of_def queued_demand_new_def all_jobs_def)
  have own: "owners_of two_profiles ?p = two_profiles"
    by (simp add: owners_of_def two_profiles_def profile_with_def new_for_host_label_def owns_runners_def name_eq_def eq_ignore_ascii_case_def)
  have req: "required_labels (RunsOnSingle (lit ''a'')) = Inr [Label (lit ''a'')]"
    "required_labels (RunsOnSingle (lit ''b'')) = Inr [Label (lit ''b'')]"
    by (simp_all add: required_labels_def is_expression_def label_new_def LABEL_MAX_LEN_def is_control_def str_defs ch_def)
  have serves: "serves ?p (RunsOnSingle (lit ''a''))" "serves ?q (RunsOnSingle (lit ''a''))"
    "\<not> serves ?p (RunsOnSingle (lit ''b''))" "serves ?q (RunsOnSingle (lit ''b''))"
    using req by (simp_all add: serves_def profile_with_def new_for_host_label_def is_match_iff rl_contains_def)
  have h: "distinct (map policy_id two_profiles)" "distinct two_profiles" "two_profiles = ?p # [?q]"
    "\<forall>x \<in> set two_profiles. owns_runners x \<and> target_eq (policy_target x) (policy_target ?p) \<and> policy_host_id x = policy_host_id ?p"
    "?q \<in> set two_profiles" "length (target_jobs (policy_target ?p) two_jobs) < 2 ^ 32"
    using ids jobs by (simp_all add: two_profiles_def)
      (simp add: profile_with_def new_for_host_label_def owns_runners_def name_eq_def eq_ignore_ascii_case_def)
  have "\<exists>t. btm_get (fst (route_demand two_profiles two_profiles two_jobs)) (policy_id ?q) = Some t
      \<and> unat (tally_demand t) = length (filter (\<lambda>j. \<forall>x \<in> set two_profiles. serves x j \<longleftrightarrow> x = ?q) (target_jobs (policy_target ?p) two_jobs))
      \<and> unat (total_seen t) = length (target_jobs (policy_target ?p) two_jobs)
      \<and> unat (snd (route_demand two_profiles two_profiles two_jobs)) = length (filter (overlaps two_profiles) (target_jobs (policy_target ?p) two_jobs))"
    using routed_demand_is_unambiguous [OF h(1) subset_refl h(2) h(3) h(4) h(6) h(5)] unfolding own .
  then show ?thesis
    using serves ids by (simp add: jobs overlaps_def two_profiles_def) blast
qed

end
