(* ===== verification/Gateway.thy ===== *)
theory Gateway
  imports Demand
begin

text \<open>
  The demand gateway, \<open>RestDemand\<close> of \<open>crates/github/src/demand.rs\<close>: one request behind the shared
  quiet period (\<open>get\<close>), the bounded walk from a repository's active runs to its queued jobs, the
  readings shared between target loops, and the poll over a scope. An asynchronous method is a
  function of the gateway's mutable fields and the world. The cancellation latch is read before
  every request, and \<open>env_cut_short\<close> says when it flips while a request is in flight, which abandons
  the request after it was counted. Decoding a body, parsing a URL and rendering an error for the operator are
  parameters of \<open>gateway_env\<close>, as is the client.
\<close>

section \<open>Data\<close>

definition QUEUED_RUN_STATUS :: ustr where "QUEUED_RUN_STATUS = lit ''queued''"
definition IN_PROGRESS_RUN_STATUS :: ustr where "IN_PROGRESS_RUN_STATUS = lit ''in_progress''"
definition QUEUED_JOB_STATUS :: ustr where "QUEUED_JOB_STATUS = lit ''queued''"
definition LATEST_JOBS_FILTER :: ustr where "LATEST_JOBS_FILTER = lit ''latest''"
definition PER_PAGE :: nat where "PER_PAGE = 100"

record repository_demand =
  rd_jobs :: "runs_on list"
  rd_exact :: bool
  rd_busy :: bool

record run_listing =
  listing_run_ids :: "u64 list"
  listing_complete :: bool
  listing_changed :: bool

record run_jobs =
  rj_jobs :: "runs_on list"
  rj_complete :: bool
  rj_changed :: bool

record queued_runs_page =
  page_total_count :: "u64 option"
  page_workflow_runs :: "u64 list"

record run_job =
  job_status :: ustr
  job_labels :: "ustr list"

record 'w gateway_env =
  env_client :: "api_request \<Rightarrow> 'w \<Rightarrow> (github_error + api_response) \<times> 'w"
  env_now :: "'w \<Rightarrow> timestamp"
  env_cancelled :: "'w \<Rightarrow> bool"
  env_cut_short :: "api_request \<Rightarrow> 'w \<Rightarrow> 'w option"
  env_during :: "'w \<Rightarrow> conditional_cache \<Rightarrow> conditional_cache"
  env_latest :: timestamp
  env_decode_runs :: "u8 list \<Rightarrow> github_error + queued_runs_page"
  env_decode_jobs :: "u8 list \<Rightarrow> github_error + run_job list"
  env_parse_url :: "ustr \<Rightarrow> ustr option"
  env_render :: "inventory_error \<Rightarrow> ustr"
  env_rate_limit :: "'w \<Rightarrow> rate_limit_snapshot option"

record rest_demand =
  gw_requests_issued :: u64
  gw_cache :: conditional_cache
  gw_window_ms :: u64
  gw_readings :: "(repo_key, timestamp \<times> repository_demand) btree_map"
  gw_hold :: "rate_limit_hold option"
  gw_reads :: u64
  gw_unchanged_reads :: u64
  gw_shared_reads :: u64
  gw_suppressed :: u64

definition rest_demand_new :: rest_demand where
  "rest_demand_new =
     \<lparr>gw_requests_issued = 0, gw_cache = [], gw_window_ms = 0, gw_readings = [], gw_hold = None,
      gw_reads = 0, gw_unchanged_reads = 0, gw_shared_reads = 0, gw_suppressed = 0\<rparr>"

type_synonym ('w, 'a) gw = "rest_demand \<times> 'w \<Rightarrow> (inventory_error + 'a) \<times> rest_demand \<times> 'w"

text \<open>The \<open>?\<close> operator: the first error ends the method, keeping the state it left.\<close>

definition gw_return :: "'a \<Rightarrow> ('w, 'a) gw" where
  "gw_return x st = (Inr x, st)"

definition gw_bind :: "('w, 'a) gw \<Rightarrow> ('a \<Rightarrow> ('w, 'b) gw) \<Rightarrow> ('w, 'b) gw" where
  "gw_bind m f st = (case m st of (Inl e, st') \<Rightarrow> (Inl e, st') | (Inr x, st') \<Rightarrow> f x st')"

definition gw_lift :: "github_error + 'a \<Rightarrow> ('w, 'a) gw" where
  "gw_lift r st = (map_err Github r, st)"

section \<open>One request\<close>

definition set_shared_window :: "duration \<Rightarrow> rest_demand \<Rightarrow> rest_demand" where
  "set_shared_window window g = g\<lparr>gw_window_ms := saturating_of_nat (window div 1000000)\<rparr>"

definition shared_window :: "rest_demand \<Rightarrow> duration" where
  "shared_window g = unat (gw_window_ms g) * 1000000"

definition forget_shared_reading :: "owner_repo \<Rightarrow> rest_demand \<Rightarrow> rest_demand" where
  "forget_shared_reading repo g = g\<lparr>gw_readings := btm_remove (owner_repo_key repo) (gw_readings g)\<rparr>"

definition classify :: "timestamp \<Rightarrow> github_error \<Rightarrow> timestamp \<Rightarrow> rest_demand \<Rightarrow> inventory_error \<times> rest_demand" where
  "classify latest e now g =
     (case detect e of
        None \<Rightarrow> (Github e, g)
      | Some limit \<Rightarrow>
          (let (held_limit, hold) = hold_for latest limit now (gw_hold g) in
           (RateLimitedError held_limit, g\<lparr>gw_hold := Some hold\<rparr>)))"

definition gw_get :: "'w gateway_env \<Rightarrow> api_request \<Rightarrow> ('w, fetched) gw" where
  "gw_get env request st =
     (let (g, w) = st in
      if env_cancelled env w then (Inl CancelledError, g, w)
      else case held (gw_hold g) (env_now env w) of
          Some limit \<Rightarrow> (Inl (RateLimitedError limit), g\<lparr>gw_suppressed := gw_suppressed g + 1\<rparr>, w)
        | None \<Rightarrow>
            (let g = g\<lparr>gw_requests_issued := gw_requests_issued g + 1\<rparr> in
             case env_cut_short env request w of
               Some w \<Rightarrow> (Inl CancelledError, g, w)
             | None \<Rightarrow>
            (let (r, w, cache) = cache_send (env_client env) (env_now env) (env_during env) request w (gw_cache g);
                 g = g\<lparr>gw_cache := cache\<rparr>
             in case r of
                  Inr f \<Rightarrow> (Inr f, g\<lparr>gw_hold := clear_hold (env_now env w) (gw_hold g)\<rparr>, w)
                | Inl e \<Rightarrow> (let (err, g) = classify (env_latest env) e (env_now env w) g in (Inl err, g, w)))))"

section \<open>One repository\<close>

definition repo_path :: "owner_repo \<Rightarrow> ustr \<Rightarrow> ustr" where
  "repo_path repo rest =
     lit ''/repos/'' @ name_str (or_owner repo) @ lit ''/'' @ name_str (or_repo repo) @ rest"

definition active_runs :: "'w gateway_env \<Rightarrow> owner_repo \<Rightarrow> ustr \<Rightarrow> nat \<Rightarrow> ('w, run_listing) gw" where
  "active_runs env repo status cap =
     gw_bind (gw_get env (add_query (lit ''per_page'') (decimal PER_PAGE)
                           (add_query (lit ''status'') status (api_get (repo_path repo (lit ''/actions/runs'')))))) (\<lambda>f.
       let has_next_page = next_page (env_parse_url env) (fetched_response f) \<noteq> None in
       gw_bind (gw_lift (env_decode_runs env (resp_body (fetched_response f)))) (\<lambda>page.
         gw_return \<lparr>listing_run_ids = take cap (page_workflow_runs page),
                    listing_complete = (length (page_workflow_runs page) \<le> cap \<and> \<not> has_next_page),
                    listing_changed = (\<not> fetched_not_modified f)\<rparr>))"

definition queued_of :: "run_job list \<Rightarrow> runs_on list" where
  "queued_of page = map (\<lambda>j. from_job_labels (job_labels j)) (filter (\<lambda>j. job_status j = QUEUED_JOB_STATUS) page)"

text \<open>The page walk; \<open>left\<close> is what remains of the page budget.\<close>

fun walk_jobs ::
  "'w gateway_env \<Rightarrow> nat \<Rightarrow> api_request \<Rightarrow> runs_on list \<Rightarrow> bool \<Rightarrow> ('w, run_jobs) gw" where
  "walk_jobs env 0 request jobs changed =
     gw_return \<lparr>rj_jobs = jobs, rj_complete = False, rj_changed = changed\<rparr>"
| "walk_jobs env (Suc left) request jobs changed =
     gw_bind (gw_get env request) (\<lambda>f.
       let changed = (changed \<or> \<not> fetched_not_modified f);
           following = next_page (env_parse_url env) (fetched_response f)
       in gw_bind (gw_lift (env_decode_jobs env (resp_body (fetched_response f)))) (\<lambda>page.
            case following of
              None \<Rightarrow> gw_return \<lparr>rj_jobs = jobs @ queued_of page, rj_complete = True, rj_changed = changed\<rparr>
            | Some url \<Rightarrow> walk_jobs env left (api_get url) (jobs @ queued_of page) changed))"

definition queued_jobs_of_run :: "'w gateway_env \<Rightarrow> owner_repo \<Rightarrow> u64 \<Rightarrow> ('w, run_jobs) gw" where
  "queued_jobs_of_run env repo run_id =
     walk_jobs env MAX_JOB_PAGES_PER_RUN
       (add_query (lit ''per_page'') (decimal PER_PAGE)
         (add_query (lit ''filter'') LATEST_JOBS_FILTER
           (api_get (repo_path repo (lit ''/actions/runs/'' @ decimal (unat run_id) @ lit ''/jobs''))))) [] False"

record reading_so_far =
  so_jobs :: "runs_on list"
  so_exact :: bool
  so_changed :: bool
  so_resolved :: "u64 list"

fun resolve_runs :: "'w gateway_env \<Rightarrow> owner_repo \<Rightarrow> u64 list \<Rightarrow> reading_so_far \<Rightarrow> ('w, reading_so_far) gw" where
  "resolve_runs env repo [] acc = gw_return acc"
| "resolve_runs env repo (run_id # ids) acc =
     (if run_id \<in> set (so_resolved acc) then resolve_runs env repo ids acc
      else gw_bind (queued_jobs_of_run env repo run_id) (\<lambda>run.
        resolve_runs env repo ids
          \<lparr>so_jobs = so_jobs acc @ rj_jobs run, so_exact = (so_exact acc \<and> rj_complete run),
           so_changed = (so_changed acc \<or> rj_changed run), so_resolved = so_resolved acc @ [run_id]\<rparr>))"

fun scan_statuses :: "'w gateway_env \<Rightarrow> owner_repo \<Rightarrow> (ustr \<times> nat) list \<Rightarrow> reading_so_far \<Rightarrow> ('w, reading_so_far) gw" where
  "scan_statuses env repo [] acc = gw_return acc"
| "scan_statuses env repo ((status, cap) # rest) acc =
     gw_bind (active_runs env repo status cap) (\<lambda>listing.
     gw_bind (resolve_runs env repo (listing_run_ids listing)
                (acc\<lparr>so_exact := so_exact acc \<and> listing_complete listing,
                     so_changed := so_changed acc \<or> listing_changed listing\<rparr>)) (\<lambda>acc.
     scan_statuses env repo rest acc))"

definition repository_queued :: "'w gateway_env \<Rightarrow> owner_repo \<Rightarrow> ('w, repository_demand) gw" where
  "repository_queued env repo =
     gw_bind (scan_statuses env repo
                [(QUEUED_RUN_STATUS, MAX_QUEUED_RUNS_PER_REPOSITORY_PER_POLL),
                 (IN_PROGRESS_RUN_STATUS, MAX_IN_PROGRESS_RUNS_PER_REPOSITORY_PER_POLL)]
                \<lparr>so_jobs = [], so_exact = True, so_changed = False, so_resolved = []\<rparr>) (\<lambda>acc (g, w).
       let g = g\<lparr>gw_reads := gw_reads g + 1\<rparr>;
           g = (if so_changed acc then g else g\<lparr>gw_unchanged_reads := gw_unchanged_reads g + 1\<rparr>)
       in (Inr \<lparr>rd_jobs = so_jobs acc, rd_exact = so_exact acc,
                rd_busy = (so_changed acc \<and> so_resolved acc \<noteq> [])\<rparr>, g, w))"

definition younger_than :: "timestamp \<Rightarrow> duration \<Rightarrow> timestamp \<Rightarrow> bool" where
  "younger_than now limit at = (case to_std (now - at) of None \<Rightarrow> False | Some age \<Rightarrow> age < limit)"

definition repository_reading :: "'w gateway_env \<Rightarrow> owner_repo \<Rightarrow> ('w, repository_demand) gw" where
  "repository_reading env repo st =
     (let (g, w) = st; window = shared_window g in
      if window = 0 then repository_queued env repo st
      else if env_cancelled env w then (Inl CancelledError, g, w)
      else
        (let now = env_now env w in
         case Option.bind (btm_get (gw_readings g) (owner_repo_key repo))
                (\<lambda>(at, reading). if younger_than now window at then Some reading else None) of
           Some reading \<Rightarrow> (Inr reading, g\<lparr>gw_shared_reads := gw_shared_reads g + 1\<rparr>, w)
         | None \<Rightarrow>
             (case repository_queued env repo st of
                (Inl e, st) \<Rightarrow> (Inl e, st)
              | (Inr reading, g, w) \<Rightarrow>
                  (Inr reading,
                   g\<lparr>gw_readings := filter (\<lambda>(_, at, _). younger_than now HOLD_MEMORY at)
                       (btm_insert (owner_repo_key repo) (now, reading) (gw_readings g))\<rparr>, w))))"

section \<open>The poll over a scope\<close>

fun is_repository_local_failure :: "inventory_error \<Rightarrow> bool" where
  "is_repository_local_failure (Github (Forbidden _ _ _ _)) = True"
| "is_repository_local_failure (Github (Status status _ _ _ _)) = (status = 404)"
| "is_repository_local_failure _ = False"

fun poll_repositories :: "'w gateway_env \<Rightarrow> bool \<Rightarrow> owner_repo list \<Rightarrow> queued_demand \<Rightarrow> ('w, queued_demand) gw" where
  "poll_repositories env aggregating [] d st = (Inr d, st)"
| "poll_repositories env aggregating (repo # repos) d st =
     (case repository_reading env repo st of
        (Inr reading, st) \<Rightarrow>
          (let d = (if rd_busy reading then with_busy repo d else d);
               d = d\<lparr>per_repository := btm_insert (owner_repo_key repo) (rd_jobs reading) (per_repository d)\<rparr>;
               d = (if rd_exact reading then d else with_truncated repo d)
           in poll_repositories env aggregating repos d st)
      | (Inl e, st) \<Rightarrow>
          if aggregating \<and> is_repository_local_failure e
          then poll_repositories env aggregating repos (with_unavailable repo (env_render env e) d) st
          else (Inl e, st))"

definition poll_demand :: "'w gateway_env \<Rightarrow> activity_scope \<Rightarrow> ('w, queued_demand) gw" where
  "poll_demand env sc st =
     (let (g, w) = st;
          g = g\<lparr>gw_cache := evict_idle (env_now env w) (gw_cache g)\<rparr>
      in case poll_repositories env (scope (scope_target sc) = Organization) (scope_repositories sc) empty_demand (g, w) of
           (Inl e, st) \<Rightarrow> (Inl e, st)
         | (Inr d, g, w) \<Rightarrow> (Inr (with_rate_limit (env_rate_limit env w) d), g, w))"

section \<open>What a method may do to the state\<close>

text \<open>A graded effect on the gateway and the world: \<open>effect n\<close> relates the states before and after
  something that counts for at most \<open>n\<close>. The lemmas carry an effect of one request through every
  method built from requests.\<close>

locale gateway_effect =
  fixes env :: "'w gateway_env"
    and effect :: "nat \<Rightarrow> rest_demand \<times> 'w \<Rightarrow> rest_demand \<times> 'w \<Rightarrow> bool"
  assumes effect_refl: "effect 0 st st"
    and effect_trans: "effect m st st1 \<Longrightarrow> effect n st1 st2 \<Longrightarrow> effect (m + n) st st2"
    and effect_mono: "m \<le> n \<Longrightarrow> effect m st st1 \<Longrightarrow> effect n st st1"
    and effect_get: "effect 1 st (snd (gw_get env request st))"
    and effect_stats: "effect 0 (g, w) (g\<lparr>gw_reads := a, gw_unchanged_reads := b\<rparr>, w)"
    and effect_shared: "effect 0 (g, w) (g\<lparr>gw_readings := m', gw_shared_reads := c\<rparr>, w)"
    and effect_cache: "effect 0 (g, w) (g\<lparr>gw_cache := evict_idle t (gw_cache g)\<rparr>, w)"
begin

definition obeys :: "nat \<Rightarrow> ('w, 'a) gw \<Rightarrow> bool" where
  "obeys n m \<longleftrightarrow> (\<forall>st. effect n st (snd (m st)))"

lemma obeysI: "(\<And>st. effect n st (snd (m st))) \<Longrightarrow> obeys n m"
  unfolding obeys_def by blast

lemma obeysD: "obeys n m \<Longrightarrow> effect n st (snd (m st))"
  unfolding obeys_def by blast

lemma obeys_mono: "obeys m f \<Longrightarrow> m \<le> n \<Longrightarrow> obeys n f"
  using effect_mono by (auto simp: obeys_def)

lemma obeys_pure: "obeys 0 (gw_return x)" "obeys 0 (gw_lift r)"
  by (simp_all add: obeys_def gw_return_def gw_lift_def effect_refl)

lemma obeys_bind:
  assumes "obeys m f" "\<And>x st st'. f st = (Inr x, st') \<Longrightarrow> obeys n (k x)"
  shows "obeys (m + n) (gw_bind f k)"
proof (rule obeysI)
  fix st
  obtain r st' where f: "f st = (r, st')" by (cases "f st")
  have first: "effect m st st'" using obeysD [OF assms(1), of st] f by simp
  show "effect (m + n) st (snd (gw_bind f k st))"
  proof (cases r)
    case (Inl e)
    then show ?thesis using first effect_mono [of m "m + n"] by (simp add: gw_bind_def f)
  next
    case (Inr x)
    then have "effect n st' (snd (k x st'))" using assms(2) f obeysD by blast
    then show ?thesis using effect_trans [OF first] Inr by (simp add: gw_bind_def f)
  qed
qed

lemma obeys_bind0: "obeys 0 f \<Longrightarrow> (\<And>x. obeys n (k x)) \<Longrightarrow> obeys n (gw_bind f k)"
  using obeys_bind [of 0 f n k] by simp

lemma obeys_get: "obeys 1 (gw_get env request)"
  by (rule obeysI) (rule effect_get)

lemma obeys_active_runs: "obeys 1 (active_runs env repo status cap)"
proof -
  have "obeys (1 + 0) (active_runs env repo status cap)"
    unfolding active_runs_def Let_def by (intro obeys_bind obeys_get obeys_bind0 obeys_pure)
  then show ?thesis by simp
qed

lemma obeys_walk: "obeys left (walk_jobs env left request jobs changed)"
proof (induction left arbitrary: request jobs changed)
  case (Suc left)
  have "obeys (1 + left) (walk_jobs env (Suc left) request jobs changed)"
    unfolding walk_jobs.simps Let_def
  proof (intro obeys_bind obeys_get obeys_bind0 obeys_pure)
    show "obeys left (case following of
        None \<Rightarrow> gw_return \<lparr>rj_jobs = jobs @ queued_of page, rj_complete = True, rj_changed = ch\<rparr>
      | Some url \<Rightarrow> walk_jobs env left (api_get url) (jobs @ queued_of page) ch)" for following page ch
      using Suc.IH obeys_mono [OF obeys_pure(1)] by (cases following) auto
  qed
  then show ?case by simp
qed (simp add: obeys_pure)

lemma obeys_queued_jobs: "obeys 3 (queued_jobs_of_run env repo run_id)"
  unfolding queued_jobs_of_run_def MAX_JOB_PAGES_PER_RUN_def by (rule obeys_walk)

lemma obeys_resolve: "obeys (3 * length ids) (resolve_runs env repo ids acc)"
proof (induction ids arbitrary: acc)
  case (Cons i ids)
  show ?case
  proof (cases "i \<in> set (so_resolved acc)")
    case True
    then show ?thesis using obeys_mono [OF Cons.IH, of "3 * length (i # ids)"] by simp
  next
    case False
    have "obeys (3 + 3 * length ids) (resolve_runs env repo (i # ids) acc)"
      unfolding resolve_runs.simps if_not_P [OF False] by (rule obeys_bind [OF obeys_queued_jobs Cons.IH])
    then show ?thesis by simp
  qed
qed (simp add: obeys_pure)

lemma active_runs_cap: "active_runs env repo status cap st = (Inr listing, st') \<Longrightarrow> length (listing_run_ids listing) \<le> cap"
  by (auto simp: active_runs_def gw_bind_def gw_lift_def gw_return_def Let_def split: prod.splits sum.splits)

lemma obeys_scan: "obeys (sum_list (map (\<lambda>(_, cap). 1 + 3 * cap) ss)) (scan_statuses env repo ss acc)"
proof (induction ss arbitrary: acc)
  case (Cons s ss)
  obtain status cap where s: "s = (status, cap)" by (cases s)
  have "obeys (1 + (3 * cap + sum_list (map (\<lambda>(_, cap). 1 + 3 * cap) ss))) (scan_statuses env repo (s # ss) acc)"
    unfolding s scan_statuses.simps
  proof (rule obeys_bind [OF obeys_active_runs], rule obeys_bind)
    fix listing st st'
    assume "active_runs env repo status cap st = (Inr listing, st')"
    then show "obeys (3 * cap) (resolve_runs env repo (listing_run_ids listing)
        (acc\<lparr>so_exact := so_exact acc \<and> listing_complete listing, so_changed := so_changed acc \<or> listing_changed listing\<rparr>))"
      using active_runs_cap by (intro obeys_mono [OF obeys_resolve]) auto
  qed (rule Cons.IH)
  then show ?case by (simp add: s)
qed (simp add: obeys_pure)

text \<open>One repository: two listings of six and four runs, three pages of jobs each.\<close>

lemma obeys_repository_queued: "obeys 32 (repository_queued env repo)"
proof -
  have "obeys (sum_list (map (\<lambda>(_, cap). 1 + 3 * cap)
      [(QUEUED_RUN_STATUS, MAX_QUEUED_RUNS_PER_REPOSITORY_PER_POLL),
       (IN_PROGRESS_RUN_STATUS, MAX_IN_PROGRESS_RUNS_PER_REPOSITORY_PER_POLL)]) + 0) (repository_queued env repo)"
    unfolding repository_queued_def
  proof (rule obeys_bind [OF obeys_scan])
    fix acc
    have "effect 0 (g, w) (g\<lparr>gw_reads := gw_reads g + 1\<rparr>, w)" for g w
      using effect_stats [where a = "gw_reads g + 1" and b = "gw_unchanged_reads g" and g = g and w = w] by simp
    then show "obeys 0 (\<lambda>(g, w).
       let g = g\<lparr>gw_reads := gw_reads g + 1\<rparr>;
           g = (if so_changed acc then g else g\<lparr>gw_unchanged_reads := gw_unchanged_reads g + 1\<rparr>)
       in (Inr \<lparr>rd_jobs = so_jobs acc, rd_exact = so_exact acc, rd_busy = (so_changed acc \<and> so_resolved acc \<noteq> [])\<rparr>, g, w))"
      using effect_stats by (auto simp: obeys_def Let_def)
  qed
  then show ?thesis
    by (simp add: MAX_QUEUED_RUNS_PER_REPOSITORY_PER_POLL_def MAX_IN_PROGRESS_RUNS_PER_REPOSITORY_PER_POLL_def)
qed

lemma obeys_repository_reading: "obeys 32 (repository_reading env repo)"
proof -
  have queued: "effect 32 st (snd (repository_queued env repo st))" for st
    using obeysD [OF obeys_repository_queued] .
  have zero: "effect 32 st st" for st using effect_mono [of 0 32] effect_refl by simp
  have "effect 32 (g, w) (snd (repository_reading env repo (g, w)))" for g w
  proof -
    obtain r g1 w1 where fields: "repository_queued env repo (g, w) = (r, g1, w1)"
      by (cases "repository_queued env repo (g, w)")
    have after: "effect 32 (g, w) (g1\<lparr>gw_readings := m'\<rparr>, w1)" for m'
      using effect_trans [OF queued [of "(g, w)"], of 0] effect_shared [where g = g1 and w = w1 and m' = m' and c = "gw_shared_reads g1"] fields by simp
    have shared: "effect 32 (g, w) (g\<lparr>gw_shared_reads := c\<rparr>, w)" for c
      using effect_mono [OF _ effect_shared [where g = g and w = w and m' = "gw_readings g" and c = c], of 32] by simp
    show ?thesis
      using queued [of "(g, w)"] zero after shared fields
      by (auto simp: repository_reading_def Let_def split: option.splits sum.splits)
  qed
  then show ?thesis by (simp add: obeys_def)
qed

lemma obeys_poll_repositories: "effect (32 * length repos) st (snd (poll_repositories env agg repos d st))"
proof (induction repos arbitrary: d st)
  case Nil
  then show ?case by (simp add: effect_refl)
next
  case (Cons repo repos)
  obtain r st' where r: "repository_reading env repo st = (r, st')" by (cases "repository_reading env repo st")
  have first: "effect 32 st st'" using obeysD [OF obeys_repository_reading, of st repo] r by simp
  have rest: "effect (32 * length (repo # repos)) st (snd (poll_repositories env agg repos d' st'))" for d'
    using effect_trans [OF first Cons.IH] by simp
  have stop: "effect (32 * length (repo # repos)) st st'" using effect_mono [OF _ first] by simp
  show ?case using rest stop by (auto simp: r Let_def split: sum.splits)
qed

lemma obeys_poll_demand: "obeys (32 * length (scope_repositories sc)) (poll_demand env sc)"
proof -
  have "effect (32 * length (scope_repositories sc)) (g, w) (snd (poll_demand env sc (g, w)))" for g w
    using effect_trans [OF effect_cache [of g w] obeys_poll_repositories]
    by (auto simp: poll_demand_def Let_def split: prod.splits sum.splits) (metis add_0 snd_conv)+
  then show ?thesis by (simp add: obeys_def)
qed

end

section \<open>Effects of every method\<close>

definition issued_at_most :: "nat \<Rightarrow> rest_demand \<times> 'w \<Rightarrow> rest_demand \<times> 'w \<Rightarrow> bool" where
  "issued_at_most n st st' \<longleftrightarrow>
     (\<exists>k \<le> n. gw_requests_issued (fst st') = gw_requests_issued (fst st) + of_nat k)"

definition frozen_while_held :: "'w gateway_env \<Rightarrow> nat \<Rightarrow> rest_demand \<times> 'w \<Rightarrow> rest_demand \<times> 'w \<Rightarrow> bool" where
  "frozen_while_held env n st st' \<longleftrightarrow>
     (held (gw_hold (fst st)) (env_now env (snd st)) \<noteq> None \<longrightarrow>
      snd st' = snd st \<and> gw_hold (fst st') = gw_hold (fst st)
      \<and> gw_requests_issued (fst st') = gw_requests_issued (fst st))"

lemma classify_requests: "classify latest e now g = (err, g') \<Longrightarrow> gw_requests_issued g' = gw_requests_issued g \<and> gw_cache g' = gw_cache g"
  by (auto simp: classify_def Let_def split: option.splits prod.splits)

lemma gw_get_requests:
  "gw_get env request (g, w) = (r, g', w') \<Longrightarrow>
     gw_requests_issued g' = gw_requests_issued g \<or> gw_requests_issued g' = gw_requests_issued g + 1"
  by (auto simp: gw_get_def Let_def dest: classify_requests split: if_splits option.splits prod.splits sum.splits)

lemma gw_get_held:
  "held (gw_hold g) (env_now env w) = Some limit \<Longrightarrow> gw_get env request (g, w) =
     (if env_cancelled env w then (Inl CancelledError, g, w)
      else (Inl (RateLimitedError limit), g\<lparr>gw_suppressed := gw_suppressed g + 1\<rparr>, w))"
  by (simp add: gw_get_def)

interpretation requests: gateway_effect env issued_at_most for env
proof
  show "issued_at_most 0 st st" for st :: "rest_demand \<times> 'w" by (simp add: issued_at_most_def)
  show "issued_at_most (m + n) st st2" if "issued_at_most m st st1" "issued_at_most n st1 st2" for m n and st st1 st2 :: "rest_demand \<times> 'w"
    using that by (auto simp: issued_at_most_def) (metis add.assoc add_mono of_nat_add)
  show "issued_at_most n st st1" if "m \<le> n" "issued_at_most m st st1" for m n and st st1 :: "rest_demand \<times> 'w"
    using that by (auto simp: issued_at_most_def intro: order_trans)
  show "issued_at_most 1 st (snd (gw_get env request st))" for request st
  proof -
    obtain g w r g' w' where st: "st = (g, w)" "gw_get env request (g, w) = (r, g', w')"
      by (cases st, cases "gw_get env request st") auto
    then show ?thesis
      using gw_get_requests [OF st(2)]
      by (auto simp: issued_at_most_def intro: exI [of _ 0] exI [of _ 1])
  qed
qed (simp_all add: issued_at_most_def)

interpretation hold: gateway_effect env "frozen_while_held env" for env
proof
  show "frozen_while_held env 1 st (snd (gw_get env request st))" for request st
    by (cases st) (auto simp: frozen_while_held_def gw_get_held)
qed (auto simp: frozen_while_held_def)

definition same_window :: "nat \<Rightarrow> rest_demand \<times> 'w \<Rightarrow> rest_demand \<times> 'w \<Rightarrow> bool" where
  "same_window n st st' \<longleftrightarrow> gw_window_ms (fst st') = gw_window_ms (fst st)"

interpretation window: gateway_effect env same_window for env
proof
  show "same_window 1 st (snd (gw_get env request st))" for request st
    by (cases st) (auto simp: same_window_def gw_get_def classify_def Let_def split: option.splits prod.splits sum.splits)
qed (auto simp: same_window_def)

lemma map_of_filter_kept: "map_of m k = Some v \<Longrightarrow> P (k, v) \<Longrightarrow> map_of (filter P m) k = Some v"
  by (induction m) (auto split: if_splits)

text \<open>What a poll learned of each repository.\<close>

definition answered :: "'w gateway_env \<Rightarrow> owner_repo \<Rightarrow> queued_demand \<Rightarrow> bool" where
  "answered env repo d \<longleftrightarrow>
     (\<exists>st1 st2 reading. repository_reading env repo st1 = (Inr reading, st2)
        \<and> btm_get (per_repository d) (owner_repo_key repo) = Some (rd_jobs reading)
        \<and> (rd_exact reading \<or> is_truncated repo d))"

definition grows :: "queued_demand \<Rightarrow> queued_demand \<Rightarrow> repo_key set \<Rightarrow> bool" where
  "grows d d' ks \<longleftrightarrow>
     (\<forall>k. k \<notin> ks \<longrightarrow> btm_get (per_repository d') k = btm_get (per_repository d) k)
     \<and> set (truncated d) \<subseteq> set (truncated d') \<and> set (unavailable d) \<subseteq> set (unavailable d')"

lemma answered_grows: "answered env repo d \<Longrightarrow> grows d d' ks \<Longrightarrow> owner_repo_key repo \<notin> ks \<Longrightarrow> answered env repo d'"
  unfolding answered_def grows_def is_truncated_def by (metis subsetD)

lemma grows_trans: "grows d d1 {k} \<Longrightarrow> grows d1 d2 ks \<Longrightarrow> grows d d2 (insert k ks)"
  unfolding grows_def by auto

lemma poll_repositories_result:
  assumes "poll_repositories env agg repos d st = (Inr d', st')" "distinct (map owner_repo_key repos)"
  shows "grows d d' (set (map owner_repo_key repos))
    \<and> (\<forall>repo \<in> set repos. answered env repo d' \<or> agg \<and> (\<exists>u \<in> set (unavailable d'). ur_repository u = repo))
    \<and> (\<not> agg \<longrightarrow> unavailable d' = unavailable d)"
  using assms
proof (induction repos arbitrary: d st)
  case Nil
  then show ?case by (simp add: grows_def)
next
  case (Cons repo repos)
  obtain r st1 where r: "repository_reading env repo st = (r, st1)" by (cases "repository_reading env repo st")
  have tail: "distinct (map owner_repo_key repos)" "owner_repo_key repo \<notin> set (map owner_repo_key repos)"
    using Cons.prems(2) by auto
  show ?case
  proof (cases r)
    case (Inr reading)
    define d1 where "d1 = (let d = (if rd_busy reading then with_busy repo d else d);
       d = d\<lparr>per_repository := btm_insert (owner_repo_key repo) (rd_jobs reading) (per_repository d)\<rparr>
       in if rd_exact reading then d else with_truncated repo d)"
    have next': "poll_repositories env agg repos d1 st1 = (Inr d', st')"
      using Cons.prems(1) r Inr by (simp add: d1_def Let_def)
    have "answered env repo d1"
      unfolding answered_def using r Inr
      by (intro exI [of _ st] exI [of _ st1] exI [of _ reading])
        (simp add: d1_def Let_def is_truncated_def with_busy_def with_truncated_def)
    then have g1: "grows d d1 {owner_repo_key repo}" "answered env repo d1" "unavailable d1 = unavailable d"
      by (auto simp: d1_def Let_def grows_def with_busy_def with_truncated_def)
    show ?thesis
      using Cons.IH [OF next' tail(1)] g1 answered_grows [OF g1(2) _ tail(2)] grows_trans [OF g1(1)] by auto
  next
    case (Inl e)
    then have a: "agg" "poll_repositories env agg repos (with_unavailable repo (env_render env e) d) st1 = (Inr d', st')"
      using Cons.prems(1) r by (auto split: if_splits)
    have g1: "grows d (with_unavailable repo (env_render env e) d) {owner_repo_key repo}"
      "\<exists>u \<in> set (unavailable (with_unavailable repo (env_render env e) d)). ur_repository u = repo"
      by (auto simp: grows_def with_unavailable_def)
    define d1 where "d1 = with_unavailable repo (env_render env e) d"
    note ih = Cons.IH [OF a(2) tail(1), folded d1_def]
    have "\<exists>u \<in> set (unavailable d'). ur_repository u = repo"
      using ih g1(2) by (auto simp: grows_def d1_def)
    then show ?thesis
      using ih a(1) grows_trans [OF g1(1) [folded d1_def]] by simp
  qed
qed

section \<open>Properties\<close>




text \<open>Loops share a reading instead of repeating it: after a repository was read, every request
  for it within the shared window is answered with the same reading and sends nothing.\<close>

theorem shared_reading_reused:
  assumes read: "repository_reading env repo (g, w) = (Inr reading, g1, w1)"
    and fresh: "btm_get (gw_readings g) (owner_repo_key repo) = None" and win: "shared_window g \<noteq> 0"
    and again: "\<not> env_cancelled env w2" "env_now env w \<le> env_now env w2" "env_now env w2 - env_now env w < int (shared_window g)"
  shows "repository_reading env repo (g1, w2) = (Inr reading, g1\<lparr>gw_shared_reads := gw_shared_reads g1 + 1\<rparr>, w2)"
proof -
  let ?now = "env_now env w"
  obtain g0 where q: "repository_queued env repo (g, w) = (Inr reading, g0, w1)"
    and g1: "g1 = g0\<lparr>gw_readings := filter (\<lambda>(_, at, _). younger_than ?now HOLD_MEMORY at)
        (btm_insert (owner_repo_key repo) (?now, reading) (gw_readings g0))\<rparr>"
    using read fresh win by (auto simp: repository_reading_def Let_def split: if_splits prod.splits sum.splits)
  have "same_window 32 (g, w) (g0, w1)"
    using window.obeysD [where st = "(g, w)", OF window.obeys_repository_queued [of env repo]] q by simp
  then have same: "shared_window g1 = shared_window g" by (simp add: same_window_def shared_window_def g1)
  have "map_of (btm_insert (owner_repo_key repo) (?now, reading) (gw_readings g0)) (owner_repo_key repo) = Some (?now, reading)"
    by (simp add: btm_get_insert [unfolded btm_get_def])
  from map_of_filter_kept [OF this, of "\<lambda>(_, at, _). younger_than ?now HOLD_MEMORY at"]
  have "btm_get (gw_readings g1) (owner_repo_key repo) = Some (?now, reading)"
    by (simp add: g1 btm_get_def younger_than_def to_std_def HOLD_MEMORY_def from_secs_def)
  moreover have "younger_than (env_now env w2) (shared_window g1) ?now"
    using again same by (auto simp: younger_than_def to_std_def nat_less_iff)
  ultimately show ?thesis using win again(1) by (simp add: repository_reading_def same)
qed

section \<open>A GitHub that pages without end\<close>

text \<open>Every run listing names six runs and every page of jobs links to another.\<close>

definition paging_env :: "unit gateway_env" where
  "paging_env =
     \<lparr>env_client = (\<lambda>_ w. (Inr \<lparr>resp_status = 200, resp_headers = [(lit ''link'', lit ''<u>; rel=next'')], resp_body = []\<rparr>, w)),
      env_now = (\<lambda>_. 0), env_cancelled = (\<lambda>_. False), env_cut_short = (\<lambda>_ _. None), env_during = (\<lambda>_ c. c), env_latest = 10 ^ 18,
      env_decode_runs = (\<lambda>_. Inr \<lparr>page_total_count = None, page_workflow_runs = [1, 2, 3, 4, 5, 6]\<rparr>),
      env_decode_jobs = (\<lambda>_. Inr [\<lparr>job_status = lit ''queued'', job_labels = [lit ''a'']\<rparr>]),
      env_parse_url = Some, env_render = (\<lambda>_. []), env_rate_limit = (\<lambda>_. None)\<rparr>"

definition sample_repo :: owner_repo where
  "sample_repo = \<lparr>or_owner = Name (lit ''acme''), or_repo = Name (lit ''app'')\<rparr>"

definition paging_fetched :: fetched where
  "paging_fetched =
     \<lparr>fetched_response = \<lparr>resp_status = 200, resp_headers = [(lit ''link'', lit ''<u>; rel=next'')], resp_body = []\<rparr>,
      fetched_not_modified = False\<rparr>"

lemma paging_next: "next_page Some (fetched_response paging_fetched) = Some (lit ''u'')"
proof -
  have "parse_link_next Some (lit ''<u>; rel=next'') = Some (lit ''u'')"
    by (subst parse_link_next.simps)
      (simp add: ch_def is_next_param_def eq_ignore_ascii_case_def to_ascii_lowercase_def to_ascii_lower_def is_ascii_uppercase_def
        trim_def trim_start_def trim_end_matches_def is_whitespace_def)
  then show ?thesis by (simp add: next_page_def paging_fetched_def)
qed

lemma paging_get:
  assumes "gw_hold g = None" "gw_cache g = []"
  shows "gw_get paging_env request (g, w) = (Inr paging_fetched, g\<lparr>gw_requests_issued := gw_requests_issued g + 1\<rparr>, w)"
proof -
  have "validators_is_empty (validators_of (fetched_response paging_fetched))"
    by (simp add: validators_is_empty_def validators_of_def read_validator_def paging_fetched_def)
  then have "cache_send (env_client paging_env) (env_now paging_env) (env_during paging_env) request w [] = (Inr paging_fetched, w, [])"
    by (simp add: cache_send_def Let_def paging_env_def is_not_modified_def cache_store_def cache_remove_def paging_fetched_def)
  moreover have "\<not> env_cancelled paging_env w" "env_cut_short paging_env request w = None" by (simp_all add: paging_env_def)
  ultimately show ?thesis using assms by (cases g) (simp add: gw_get_def held_def clear_hold_def)
qed

definition paging_jobs :: run_jobs where
  "paging_jobs = \<lparr>rj_jobs = [RunsOnMany [lit ''a''], RunsOnMany [lit ''a''], RunsOnMany [lit ''a'']], rj_complete = False, rj_changed = True\<rparr>"

lemma paging_walk:
  assumes "gw_hold g = None" "gw_cache g = []"
  shows "walk_jobs paging_env (Suc (Suc (Suc 0))) request [] False (g, w) = (Inr paging_jobs, g\<lparr>gw_requests_issued := gw_requests_issued g + 3\<rparr>, w)"
proof -
  have "env_parse_url paging_env = Some" "env_decode_jobs paging_env b = Inr [\<lparr>job_status = QUEUED_JOB_STATUS, job_labels = [lit ''a'']\<rparr>]" for b
    by (simp_all add: paging_env_def QUEUED_JOB_STATUS_def)
  moreover have "\<not> fetched_not_modified paging_fetched" by (simp add: paging_fetched_def)
  ultimately show ?thesis
    using assms
    by (simp add: gw_bind_def gw_lift_def gw_return_def paging_get paging_next paging_jobs_def queued_of_def from_job_labels_def)
qed

lemma paging_run:
  assumes "gw_hold g = None" "gw_cache g = []"
  shows "queued_jobs_of_run paging_env repo i (g, w) = (Inr paging_jobs, g\<lparr>gw_requests_issued := gw_requests_issued g + 3\<rparr>, w)"
proof -
  have "MAX_JOB_PAGES_PER_RUN = Suc (Suc (Suc 0))" by (simp add: MAX_JOB_PAGES_PER_RUN_def)
  then show ?thesis unfolding queued_jobs_of_run_def using paging_walk [OF assms] by metis
qed

lemma paging_active_runs:
  assumes "gw_hold g = None" "gw_cache g = []"
  shows "active_runs paging_env repo status cap (g, w) =
    (Inr \<lparr>listing_run_ids = take cap [1, 2, 3, 4, 5, 6], listing_complete = False, listing_changed = True\<rparr>,
     g\<lparr>gw_requests_issued := gw_requests_issued g + 1\<rparr>, w)"
proof -
  have "env_parse_url paging_env = Some" "env_decode_runs paging_env b = Inr \<lparr>page_total_count = None, page_workflow_runs = [1, 2, 3, 4, 5, 6]\<rparr>" for b
    by (simp_all add: paging_env_def)
  moreover have "\<not> fetched_not_modified paging_fetched" by (simp add: paging_fetched_def)
  ultimately show ?thesis
    using assms by (simp add: active_runs_def gw_bind_def gw_lift_def gw_return_def paging_get paging_next)
qed

lemma paging_reading:
  assumes "gw_hold g = None" "gw_cache g = []"
  shows "repository_queued paging_env repo (g, w) =
    (Inr \<lparr>rd_jobs = replicate 18 (RunsOnMany [lit ''a'']), rd_exact = False, rd_busy = True\<rparr>,
     g\<lparr>gw_requests_issued := gw_requests_issued g + 20, gw_reads := gw_reads g + 1\<rparr>, w)"
proof -
  have caps: "MAX_QUEUED_RUNS_PER_REPOSITORY_PER_POLL = 6" "MAX_IN_PROGRESS_RUNS_PER_REPOSITORY_PER_POLL = 4"
    by (simp_all add: MAX_QUEUED_RUNS_PER_REPOSITORY_PER_POLL_def MAX_IN_PROGRESS_RUNS_PER_REPOSITORY_PER_POLL_def)
  have jobs: "rj_jobs paging_jobs = replicate 3 (RunsOnMany [lit ''a''])" "\<not> rj_complete paging_jobs" "rj_changed paging_jobs"
    by (simp_all add: paging_jobs_def eval_nat_numeral)
  have reps: "replicate 18 x = replicate 3 x @ replicate 3 x @ replicate 3 x @ replicate 3 x @ replicate 3 x @ replicate 3 x" for x :: runs_on
    by (simp add: eval_nat_numeral)
  show ?thesis
    using assms unfolding repository_queued_def caps reps
    by (simp add: gw_bind_def gw_return_def paging_active_runs paging_run jobs)
qed

text \<open>The ceiling the crate declares for one repository, twelve requests, does not count the pages of
  a run's jobs: here one poll issues twenty.\<close>

lemma declared_ceiling_exceeded:
  "gw_requests_issued (fst (snd (repository_queued paging_env sample_repo (rest_demand_new, ())))) = 20
   \<and> max_demand_requests_per_repository_per_poll = 12"
proof -
  have "gw_hold rest_demand_new = None" "gw_cache rest_demand_new = []" by (simp_all add: rest_demand_new_def)
  then show ?thesis
    by (simp add: paging_reading max_demand_requests_per_repository_per_poll_def MAX_QUEUED_RUNS_PER_REPOSITORY_PER_POLL_def
        MAX_IN_PROGRESS_RUNS_PER_REPOSITORY_PER_POLL_def) (simp add: rest_demand_new_def)
qed

section \<open>The properties on a sample poll\<close>

text \<open>A gateway inside a quiet period that ends a minute after the clock of \<open>paging_env\<close>, and one
  that shares readings for a second.\<close>

definition quiet_gateway :: rest_demand where
  "quiet_gateway = rest_demand_new\<lparr>gw_hold := Some \<lparr>hold_until = 60000000000, hold_limit = sample_limit, hold_consecutive = 0\<rparr>\<rparr>"

definition sharing_gateway :: rest_demand where
  "sharing_gateway = set_shared_window 1000000000 rest_demand_new"

definition paging_demand :: queued_demand where
  "paging_demand = with_rate_limit None (with_truncated sample_repo ((with_busy sample_repo empty_demand)
     \<lparr>per_repository := btm_insert (owner_repo_key sample_repo) (replicate 18 (RunsOnMany [lit ''a'']))
        (per_repository (with_busy sample_repo empty_demand))\<rparr>))"

lemma paging_poll:
  "poll_demand paging_env (scope_repository sample_repo) (rest_demand_new, ()) =
     (Inr paging_demand, rest_demand_new\<lparr>gw_requests_issued := 20, gw_reads := 1\<rparr>, ())"
proof -
  have new: "gw_hold rest_demand_new = None" "gw_cache rest_demand_new = []" "gw_requests_issued rest_demand_new = 0"
    "gw_reads rest_demand_new = 0" "gw_window_ms rest_demand_new = 0"
    by (simp_all add: rest_demand_new_def)
  have quiet: "rest_demand_new\<lparr>gw_cache := evict_idle t (gw_cache rest_demand_new)\<rparr> = rest_demand_new" for t
    by (simp add: rest_demand_new_def evict_idle_def retain_recent_def)
  have "repository_reading paging_env sample_repo (rest_demand_new, ()) =
      (Inr \<lparr>rd_jobs = replicate 18 (RunsOnMany [lit ''a'']), rd_exact = False, rd_busy = True\<rparr>,
       rest_demand_new\<lparr>gw_requests_issued := 20, gw_reads := 1\<rparr>, ())"
    using paging_reading [OF new(1,2), of sample_repo "()"] by (simp add: repository_reading_def shared_window_def new)
  moreover have "env_rate_limit paging_env w = None" for w by (simp add: paging_env_def)
  ultimately show ?thesis
    by (simp add: poll_demand_def Let_def quiet scope_repository_def paging_demand_def)
qed




theorem shared_reading_reused_witness:
  "\<exists>reading g1. repository_reading paging_env sample_repo (sharing_gateway, ()) = (Inr reading, g1, ())
     \<and> repository_reading paging_env sample_repo (g1, ()) = (Inr reading, g1\<lparr>gw_shared_reads := gw_shared_reads g1 + 1\<rparr>, ())"
proof -
  have h: "gw_hold sharing_gateway = None" "gw_cache sharing_gateway = []" "gw_readings sharing_gateway = []"
    by (simp_all add: sharing_gateway_def set_shared_window_def rest_demand_new_def)
  have win: "shared_window sharing_gateway = 1000000000"
    by (simp add: sharing_gateway_def set_shared_window_def shared_window_def saturating_of_nat_def)
  obtain reading g1 where r: "repository_reading paging_env sample_repo (sharing_gateway, ()) = (Inr reading, g1, ())"
    using paging_reading [OF h(1,2), of sample_repo "()"] win
    by (auto simp: repository_reading_def h(3) btm_get_def Let_def paging_env_def split: option.splits)
  have "repository_reading paging_env sample_repo (g1, ()) = (Inr reading, g1\<lparr>gw_shared_reads := gw_shared_reads g1 + 1\<rparr>, ())"
    by (rule shared_reading_reused [OF r]) (simp_all add: h win btm_get_def paging_env_def)
  with r show ?thesis by blast
qed

end
