(* ===== verification/Reconcile.thy ===== *)
theory Reconcile
  imports Capacity Schedule Gateway
begin

text \<open>
  The reconciliation loop, \<open>crates/agent/src/reconcile.rs\<close>: one pass over the policies of a host
  (\<open>Reconciler::reconcile\<close>) reads the demand of each target once, routes it, cleans concluded
  attempts and starts runners one lock hold at a time, and \<open>scale_down\<close> reclaims what it may. A port
  (a trait object of the source) is a function of the record \<open>ports\<close> over a world \<open>'w\<close>; dropping the
  allocation guard is \<open>port_release\<close>. A panic is \<open>None\<close>. A pass carries its report, the attempts it
  created, the events it emitted and the reconciler's mutable fields.
\<close>

section \<open>Data\<close>

record launch_failure =
  launch_reason :: failure_reason

record replacement_intent =
  ri_policy :: policy_id
  ri_previous_attempt :: attempt_id
  ri_operation :: ustr

datatype host_capacity_error = MissingHost | JournalUnreadable

datatype allocation_failure =
    HostCapacityFailure host_capacity_error
  | AttemptsFailure launch_failure

datatype 's poll_outcome =
    PollReady queued_demand
  | PollFailed "'s refresh_state"

datatype outcome_kind = KindCompletedJob | KindIdleExit | KindFailed | KindOrphaned

datatype lifecycle_event =
    DemandObserved policy_id u32 u32 u32 bool
  | RoutingRefused policy_id routing_refusal u32
  | TargetUnreadable policy_id ustr
  | AllocatedEvent policy_id u32 u16 u16 u16 u16 limiting_factor
  | MonitorOnlySkipped policy_id
  | RunnerStarted policy_id attempt_id
  | RunnerStartFailed policy_id ustr
  | AllocationDeferred policy_id u16
  | AttemptsUnreadable ustr
  | HostCapacityUnreadable host_capacity_error
  | AttemptCleaned policy_id attempt_id outcome_kind
  | AttemptCleanFailed policy_id attempt_id ustr
  | ScaleDownRefused policy_id attempt_id
  | PollScheduled u64 poll_pace

record 's reconcile_report =
  rr_allocations :: "allocation list"
  rr_monitor_only :: "policy_id list"
  rr_unreadable :: "policy_id list"
  rr_targets_read :: u16
  rr_started :: u16
  rr_replacement_intents :: u16
  rr_cleaned :: u16
  rr_idle_exits :: u16
  rr_failures :: u16
  rr_deferred :: u16
  rr_attempts_unreadable :: u16
  rr_host_capacity_unreadable :: u16
  rr_clean_failures :: u16
  rr_failure :: "'s refresh_state option"
  rr_offline :: "offline_state option"
  rr_next_poll :: next_poll
  rr_demand_requests :: u32

record scale_down_report =
  sd_removed :: u16
  sd_refused_busy :: u16
  sd_clean_failures :: u16
  sd_retained :: u16
  sd_attempts_unreadable :: bool

record cached_repositories =
  cr_repositories :: "owner_repo list"
  cr_fetched_at :: timestamp

record repository_cache =
  rcache_ttl :: duration
  rcache_entries :: "(ustr, cached_repositories) btree_map"
  rcache_lookups :: u64

record reconciler =
  rc_host :: host
  rc_repositories :: repository_cache
  rc_schedule :: poll_schedule
  rc_clean_backoff :: clean_backoff

record ('s, 'w) ports =
  port_poll :: "activity_scope \<Rightarrow> 'w \<Rightarrow> 's poll_outcome \<times> 'w"
  port_repositories :: "org \<Rightarrow> 'w \<Rightarrow> (inventory_error + owner_repo list) \<times> 'w"
  port_host_capacity :: "host \<Rightarrow> 'w \<Rightarrow> (host_capacity_error + u16) \<times> 'w"
  port_supervise :: "scale_policy \<Rightarrow> 'w \<Rightarrow> (launch_failure + replacement_intent list) \<times> 'w"
  port_attempts :: "'w \<Rightarrow> (launch_failure + runner_attempt list) \<times> 'w"
  port_launch :: "host \<Rightarrow> scale_policy \<Rightarrow> 'w \<Rightarrow> (launch_failure + runner_attempt) \<times> 'w"
  port_clean :: "attempt_id \<Rightarrow> 'w \<Rightarrow> (launch_failure + unit) \<times> 'w"
  port_acquire :: "'w \<Rightarrow> bool \<times> 'w"
  port_release :: "'w \<Rightarrow> 'w"
  port_now :: "'w \<Rightarrow> timestamp"
  port_jitter :: "'w \<Rightarrow> jitter"
  port_render :: "github_error \<Rightarrow> ustr"

record ('s, 'w) pass =
  pass_world :: 'w
  pass_report :: "'s reconcile_report"
  pass_launched :: "runner_attempt list"
  pass_events :: "lifecycle_event list"
  pass_repositories :: repository_cache
  pass_backoff :: clean_backoff

section \<open>Names and summaries\<close>

fun outcome_kind_of :: "attempt_outcome \<Rightarrow> outcome_kind" where
  "outcome_kind_of CompletedJob = KindCompletedJob"
| "outcome_kind_of ExitedIdleWithoutWork = KindIdleExit"
| "outcome_kind_of (FailedWith _) = KindFailed"
| "outcome_kind_of OrphanedOutcome = KindOrphaned"

definition kind_is_failure :: "outcome_kind \<Rightarrow> bool" where
  "kind_is_failure k \<longleftrightarrow> k \<in> {KindFailed, KindOrphaned}"

fun isolation_failure_kind :: "isolation_provider_failure \<Rightarrow> ustr" where
  "isolation_failure_kind Unsupported = lit ''isolation_provider_unsupported''"
| "isolation_failure_kind NotInstalled = lit ''isolation_provider_not_installed''"
| "isolation_failure_kind PermissionDenied = lit ''isolation_provider_permission_denied''"
| "isolation_failure_kind ImageUnavailableOrIncompatible = lit ''isolation_image_unavailable''"
| "isolation_failure_kind DiskQuotaUnavailable = lit ''isolation_disk_quota_unavailable''"
| "isolation_failure_kind Degraded = lit ''isolation_provider_degraded''"
| "isolation_failure_kind RuntimeOperationFailed = lit ''isolation_runtime_operation_failed''"
| "isolation_failure_kind OwnershipMismatch = lit ''isolation_ownership_mismatch''"
| "isolation_failure_kind UnsafeRuntimePath = lit ''isolation_unsafe_runtime_path''"
| "isolation_failure_kind JitHandoffRejected = lit ''isolation_jit_handoff_rejected''"

fun failure_reason_kind :: "failure_reason \<Rightarrow> ustr" where
  "failure_reason_kind JitRequestFailed = lit ''jit_request_failed''"
| "failure_reason_kind JitExpired = lit ''jit_expired''"
| "failure_reason_kind RunnerPackageUnverified = lit ''runner_package_unverified''"
| "failure_reason_kind RunnerVersionRejected = lit ''runner_version_rejected''"
| "failure_reason_kind ProcessStartFailed = lit ''process_start_failed''"
| "failure_reason_kind ProcessExitedUnexpectedly = lit ''process_exited_unexpectedly''"
| "failure_reason_kind RegistrationTimedOut = lit ''registration_timed_out''"
| "failure_reason_kind TerminatedAfterRegistrationTimeout = lit ''terminated_after_registration_timeout''"
| "failure_reason_kind (IsolationProvider category) = isolation_failure_kind category"
| "failure_reason_kind WorkspaceCleanupDeferred = lit ''ephemeral_workspace_could_not_be_removed''"
| "failure_reason_kind HostUnfit = lit ''host_unfit''"
| "failure_reason_kind (OtherReason _) = lit ''other''"

fun event_name :: "lifecycle_event \<Rightarrow> ustr" where
  "event_name (DemandObserved _ _ _ _ _) = lit ''demand_observed''"
| "event_name (RoutingRefused _ _ _) = lit ''routing_refused''"
| "event_name (TargetUnreadable _ _) = lit ''target_unreadable''"
| "event_name (AllocatedEvent _ _ _ _ _ _ _) = lit ''allocated''"
| "event_name (MonitorOnlySkipped _) = lit ''monitor_only_skipped''"
| "event_name (RunnerStarted _ _) = lit ''runner_started''"
| "event_name (RunnerStartFailed _ _) = lit ''runner_start_failed''"
| "event_name (AllocationDeferred _ _) = lit ''allocation_deferred''"
| "event_name (AttemptsUnreadable _) = lit ''attempts_unreadable''"
| "event_name (HostCapacityUnreadable _) = lit ''host_capacity_unreadable''"
| "event_name (AttemptCleaned _ _ _) = lit ''attempt_cleaned''"
| "event_name (AttemptCleanFailed _ _ _) = lit ''attempt_clean_failed''"
| "event_name (ScaleDownRefused _ _) = lit ''scale_down_refused''"
| "event_name (PollScheduled _ _) = lit ''poll_scheduled''"

fun event_policy :: "lifecycle_event \<Rightarrow> policy_id option" where
  "event_policy (DemandObserved p _ _ _ _) = Some p"
| "event_policy (RoutingRefused p _ _) = Some p"
| "event_policy (TargetUnreadable p _) = Some p"
| "event_policy (AllocatedEvent p _ _ _ _ _ _) = Some p"
| "event_policy (MonitorOnlySkipped p) = Some p"
| "event_policy (RunnerStarted p _) = Some p"
| "event_policy (RunnerStartFailed p _) = Some p"
| "event_policy (AllocationDeferred p _) = Some p"
| "event_policy (AttemptCleaned p _ _) = Some p"
| "event_policy (AttemptCleanFailed p _ _) = Some p"
| "event_policy (ScaleDownRefused p _) = Some p"
| "event_policy _ = None"

fun host_capacity_reason :: "host_capacity_error \<Rightarrow> ustr" where
  "host_capacity_reason MissingHost = lit ''host_missing''"
| "host_capacity_reason JournalUnreadable = lit ''host_journal_unreadable''"

fun poll_reading :: "'s poll_outcome \<Rightarrow> queued_demand option" where
  "poll_reading (PollReady d) = Some d"
| "poll_reading (PollFailed _) = None"

fun poll_failure :: "'s poll_outcome \<Rightarrow> 's refresh_state option" where
  "poll_failure (PollFailed s) = Some s"
| "poll_failure (PollReady _) = None"

fun poll_is_offline :: "'s poll_outcome \<Rightarrow> bool" where
  "poll_is_offline (PollFailed Offline) = True"
| "poll_is_offline _ = False"

fun severity :: "'s refresh_state \<Rightarrow> nat" where
  "severity Offline = 5"
| "severity (RateLimitedState _) = 4"
| "severity (LockedOut _) = 3"
| "severity Unauthorized = 2"
| "severity (ForbiddenState _) = 1"
| "severity (FailedState _ _) = 1"
| "severity CancelledState = 0"
| "severity (Ready _) = 0"

fun unreadable_reason :: "'s refresh_state \<Rightarrow> ustr" where
  "unreadable_reason (Ready _) = lit ''ready''"
| "unreadable_reason Offline = lit ''offline''"
| "unreadable_reason (RateLimitedState _) = lit ''rate_limited''"
| "unreadable_reason (LockedOut _) = lit ''locked_out''"
| "unreadable_reason Unauthorized = lit ''unauthorized''"
| "unreadable_reason (ForbiddenState _) = lit ''forbidden''"
| "unreadable_reason (FailedState _ _) = lit ''failed''"
| "unreadable_reason CancelledState = lit ''cancelled''"

definition next_poll_default :: next_poll where
  "next_poll_default = \<lparr>poll_delay = schedule_floor, poll_pace = NominalPace\<rparr>"

definition empty_report :: "'s reconcile_report" where
  "empty_report =
     \<lparr>rr_allocations = [], rr_monitor_only = [], rr_unreadable = [], rr_targets_read = 0, rr_started = 0,
      rr_replacement_intents = 0, rr_cleaned = 0, rr_idle_exits = 0, rr_failures = 0, rr_deferred = 0,
      rr_attempts_unreadable = 0, rr_host_capacity_unreadable = 0, rr_clean_failures = 0, rr_failure = None,
      rr_offline = None, rr_next_poll = next_poll_default, rr_demand_requests = 0\<rparr>"

definition reached_github :: "'s reconcile_report \<Rightarrow> bool" where
  "reached_github r \<longleftrightarrow> rr_targets_read r > 0"

definition report_is_offline :: "'s reconcile_report \<Rightarrow> bool" where
  "report_is_offline r = (case rr_failure r of Some Offline \<Rightarrow> True | _ \<Rightarrow> False)"

definition report_starts_nothing :: "'s reconcile_report \<Rightarrow> bool" where
  "report_starts_nothing r \<longleftrightarrow> rr_started r = 0"

definition is_conclusive :: "scale_down_report \<Rightarrow> bool" where
  "is_conclusive r \<longleftrightarrow> \<not> sd_attempts_unreadable r"

text \<open>\<open>Iterator::max_by_key\<close>: the last of the greatest elements.\<close>

definition max_by_key :: "('a \<Rightarrow> 'k::linorder) \<Rightarrow> 'a list \<Rightarrow> 'a option" where
  "max_by_key f xs = fold (\<lambda>x acc. case acc of None \<Rightarrow> Some x | Some y \<Rightarrow> if f y \<le> f x then Some x else Some y) xs None"
section \<open>Ports\<close>

text \<open>\<open>GatewayDemand\<close>: the demand source over the gateway.\<close>

definition gateway_poll :: "'w gateway_env \<Rightarrow> activity_scope \<Rightarrow> rest_demand \<times> 'w \<Rightarrow> 's poll_outcome \<times> rest_demand \<times> 'w" where
  "gateway_poll env sc st =
     (case poll_demand env sc st of
        (Inr d, st) \<Rightarrow> (PollReady d, st)
      | (Inl e, st) \<Rightarrow> (PollFailed (from_error (\<lambda>g. env_render env (Github g)) e), st))"

text \<open>\<open>FitnessGatedLauncher\<close>: \<open>unfit\<close> reads the shared flag.\<close>

definition fitness_gated :: "('w \<Rightarrow> bool) \<Rightarrow> ('s, 'w) ports \<Rightarrow> ('s, 'w) ports" where
  "fitness_gated unfit inner =
     inner\<lparr>port_launch := (\<lambda>h p w.
       if unfit w then (Inl \<lparr>launch_reason = HostUnfit\<rparr>, w) else port_launch inner h p w)\<rparr>"

section \<open>The repository list\<close>

definition REPOSITORY_LIST_REFRESH_MULTIPLE :: u32 where "REPOSITORY_LIST_REFRESH_MULTIPLE = 30"

definition repository_cache_new :: "refresh_interval \<Rightarrow> repository_cache" where
  "repository_cache_new poll =
     \<lparr>rcache_ttl = duration_mul (from_secs (unat (refresh_as_secs poll))) REPOSITORY_LIST_REFRESH_MULTIPLE,
      rcache_entries = [], rcache_lookups = 0\<rparr>"

fun org_key :: "org \<Rightarrow> ustr" where
  "org_key (Org n) = name_key n"

definition fresh_entry :: "org \<Rightarrow> timestamp \<Rightarrow> repository_cache \<Rightarrow> owner_repo list option" where
  "fresh_entry o' now c =
     Option.bind (btm_get (rcache_entries c) (org_key o')) (\<lambda>e.
     Option.bind (to_std (now - cr_fetched_at e)) (\<lambda>age.
       if age < rcache_ttl c then Some (cr_repositories e) else None))"

definition store_repositories :: "org \<Rightarrow> owner_repo list \<Rightarrow> timestamp \<Rightarrow> repository_cache \<Rightarrow> repository_cache" where
  "store_repositories o' repos fetched_at c =
     c\<lparr>rcache_entries := btm_insert (org_key o') \<lparr>cr_repositories = repos, cr_fetched_at = fetched_at\<rparr> (rcache_entries c)\<rparr>"

definition repositories_of ::
  "('s, 'w) ports \<Rightarrow> org \<Rightarrow> repository_cache \<Rightarrow> 'w \<Rightarrow> (inventory_error + owner_repo list) \<times> repository_cache \<times> 'w" where
  "repositories_of io o' c w =
     (let now = port_now io w in
      case fresh_entry o' now c of
        Some repos \<Rightarrow> (Inr repos, c, w)
      | None \<Rightarrow>
          (case port_repositories io o' w of
             (Inl e, w) \<Rightarrow> (Inl e, c, w)
           | (Inr repos, w) \<Rightarrow>
               (Inr repos, store_repositories o' repos now (c\<lparr>rcache_lookups := rcache_lookups c + 1\<rparr>), w)))"

fun scope_for ::
  "('s, 'w) ports \<Rightarrow> scale_target \<Rightarrow> repository_cache \<Rightarrow> 'w \<Rightarrow> (inventory_error + activity_scope) \<times> repository_cache \<times> 'w" where
  "scope_for io (RepositoryTarget repo) c w = (Inr (scope_repository repo), c, w)"
| "scope_for io (OrganizationTarget o') c w =
     (case repositories_of io o' c w of
        (Inl e, c, w) \<Rightarrow> (Inl e, c, w)
      | (Inr repos, c, w) \<Rightarrow> (Inr (scope_organization o' repos), c, w))"

section \<open>Steps of a pass\<close>

definition emit :: "lifecycle_event \<Rightarrow> ('s, 'w) pass \<Rightarrow> ('s, 'w) pass" where
  "emit e st = st\<lparr>pass_events := pass_events st @ [e]\<rparr>"

definition amend :: "('s reconcile_report \<Rightarrow> 's reconcile_report) \<Rightarrow> ('s, 'w) pass \<Rightarrow> ('s, 'w) pass" where
  "amend f st = st\<lparr>pass_report := f (pass_report st)\<rparr>"

definition in_world :: "'w \<Rightarrow> ('s, 'w) pass \<Rightarrow> ('s, 'w) pass" where
  "in_world w st = st\<lparr>pass_world := w\<rparr>"

definition report_unreadable_attempts :: "launch_failure \<Rightarrow> ('s, 'w) pass \<Rightarrow> ('s, 'w) pass" where
  "report_unreadable_attempts failure st =
     emit (AttemptsUnreadable (failure_reason_kind (launch_reason failure)))
       (amend (\<lambda>r. r\<lparr>rr_attempts_unreadable := saturating_add (rr_attempts_unreadable r) 1\<rparr>) st)"

fun report_allocation_failure :: "allocation_failure \<Rightarrow> ('s, 'w) pass \<Rightarrow> ('s, 'w) pass" where
  "report_allocation_failure (HostCapacityFailure reason) st =
     emit (HostCapacityUnreadable reason)
       (amend (\<lambda>r. r\<lparr>rr_host_capacity_unreadable := saturating_add (rr_host_capacity_unreadable r) 1\<rparr>) st)"
| "report_allocation_failure (AttemptsFailure failure) st = report_unreadable_attempts failure st"

definition emit_allocation :: "allocation \<Rightarrow> ('s, 'w) pass \<Rightarrow> ('s, 'w) pass" where
  "emit_allocation al =
     emit (AllocatedEvent (alloc_policy_id al) (alloc_demand al) (alloc_desired al) (alloc_active_owned al)
            (alloc_headroom_before al) (alloc_to_start al) (alloc_limiting_factor al))"

definition push_allocation :: "allocation \<Rightarrow> ('s, 'w) pass \<Rightarrow> ('s, 'w) pass" where
  "push_allocation al st = amend (\<lambda>r. r\<lparr>rr_allocations := rr_allocations r @ [al]\<rparr>) (emit_allocation al st)"

text \<open>\<open>host_attempts\<close>: what the launcher reports, and what this pass created that it does not report.\<close>

definition merge_launched :: "runner_attempt list \<Rightarrow> runner_attempt list \<Rightarrow> runner_attempt list" where
  "merge_launched launched attempts =
     attempts @ filter (\<lambda>a. attempt_id a \<notin> attempt_id ` set attempts) launched"

definition host_attempts ::
  "('s, 'w) ports \<Rightarrow> runner_attempt list \<Rightarrow> 'w \<Rightarrow> (launch_failure + runner_attempt list) \<times> 'w" where
  "host_attempts io launched w =
     (case port_attempts io w of
        (Inl f, w) \<Rightarrow> (Inl f, w)
      | (Inr attempts, w) \<Rightarrow> (Inr (merge_launched launched attempts), w))"

definition allocate_only ::
  "('s, 'w) ports \<Rightarrow> host \<Rightarrow> scale_policy \<Rightarrow> u32 \<Rightarrow> runner_attempt list \<Rightarrow> 'w \<Rightarrow> ((allocation_failure + allocation) \<times> 'w) option" where
  "allocate_only io h p demand launched w =
     (case port_host_capacity io h w of
        (Inl e, w) \<Rightarrow> Some (Inl (HostCapacityFailure e), w)
      | (Inr cap, w) \<Rightarrow>
          (case host_attempts io launched w of
             (Inl f, w) \<Rightarrow> Some (Inl (AttemptsFailure f), w)
           | (Inr attempts, w) \<Rightarrow>
               map_option (\<lambda>(al, _). (Inr al, w)) (host_allocate p demand (from_attempts (h\<lparr>host_capacity := cap\<rparr>) attempts))))"

text \<open>The loop of \<open>start_runners\<close>, one lock hold per round. The recursion spends the budget.\<close>

definition started_one :: "policy_id \<Rightarrow> runner_attempt \<Rightarrow> ('s, 'w) pass \<Rightarrow> ('s, 'w) pass" where
  "started_one i a st =
     emit (RunnerStarted i (attempt_id a))
       (amend (\<lambda>r. r\<lparr>rr_started := saturating_add (rr_started r) 1\<rparr>)
         (st\<lparr>pass_launched := pass_launched st @ [a]\<rparr>))"

definition deferred_grants :: "policy_id \<Rightarrow> u16 \<Rightarrow> ('s, 'w) pass \<Rightarrow> ('s, 'w) pass" where
  "deferred_grants i n st =
     emit (AllocationDeferred i n) (amend (\<lambda>r. r\<lparr>rr_deferred := saturating_add (rr_deferred r) n\<rparr>) st)"

lemma budget_spent: "(budget :: u16) \<noteq> 0 \<Longrightarrow> unat (min budget b) - Suc 0 < unat budget" "(budget :: u16) \<noteq> 0 \<Longrightarrow> unat budget - Suc 0 < unat budget"
proof -
  assume "budget \<noteq> 0"
  then have "0 < unat budget" by (simp add: unat_gt_0)
  then show "unat (min budget b) - Suc 0 < unat budget" "unat budget - Suc 0 < unat budget" by (auto simp: unat_simps)
qed

function start_loop ::
  "('s, 'w) ports \<Rightarrow> host \<Rightarrow> scale_policy \<Rightarrow> u32 \<Rightarrow> allocation option \<Rightarrow> u16 \<Rightarrow> ('s, 'w) pass
     \<Rightarrow> (allocation option \<times> ('s, 'w) pass) option" where
  "start_loop io h p demand decided budget st =
     (if budget = 0 then Some (decided, st)
      else case port_acquire io (pass_world st) of
        (False, w) \<Rightarrow> Some (decided, deferred_grants (policy_id p) budget (in_world w st))
      | (True, w) \<Rightarrow>
          (case allocate_only io h p demand (pass_launched st) w of
             None \<Rightarrow> None
           | Some (Inl failure, w) \<Rightarrow> Some (decided, report_allocation_failure failure (in_world (port_release io w) st))
           | Some (Inr al, w) \<Rightarrow>
               (let budget' = (if decided = None then min budget (alloc_to_start al) else budget);
                    decided' = (if decided = None then Some al else decided)
                in if starts_nothing al \<or> budget' = 0 then Some (decided', in_world (port_release io w) st)
                   else case port_launch io h p w of
                     (Inl f, w) \<Rightarrow>
                       Some (decided', emit (RunnerStartFailed (policy_id p) (failure_reason_kind (launch_reason f)))
                                        (in_world (port_release io w) st))
                   | (Inr a, w) \<Rightarrow>
                       start_loop io h p demand decided' (budget' - 1)
                         (started_one (policy_id p) a (in_world (port_release io w) st)))))"
  by pat_completeness auto

termination
proof (relation "measure (\<lambda>(_, _, _, _, _, budget, _). unat budget)", goal_cases)
  case 1
  then show ?case by simp
next
  case (2 io h p demand decided budget st)
  then show ?case by (auto simp: unat_minus_one budget_spent split: if_splits)
qed

declare start_loop.simps [simp del]

definition start_runners ::
  "('s, 'w) ports \<Rightarrow> host \<Rightarrow> scale_policy \<Rightarrow> u32 \<Rightarrow> ('s, 'w) pass \<Rightarrow> ('s, 'w) pass option" where
  "start_runners io h p demand st =
     (case allocate_only io h p demand (pass_launched st) (pass_world st) of
        None \<Rightarrow> None
      | Some (Inl failure, w) \<Rightarrow> Some (report_allocation_failure failure (in_world w st))
      | Some (Inr intent, w) \<Rightarrow>
          map_option (\<lambda>(decided, st). push_allocation (case decided of Some al \<Rightarrow> al | None \<Rightarrow> intent) st)
            (start_loop io h p demand None (alloc_to_start intent) (in_world w st)))"

section \<open>Cleaning and scaling down\<close>

definition cleaned_one :: "runner_attempt \<Rightarrow> outcome_kind \<Rightarrow> ('s, 'w) pass \<Rightarrow> ('s, 'w) pass" where
  "cleaned_one a kind st =
     emit (AttemptCleaned (attempt_policy_id a) (attempt_id a) kind)
       (amend (\<lambda>r.
          let r = r\<lparr>rr_cleaned := saturating_add (rr_cleaned r) 1\<rparr>
          in if kind_is_failure kind then r\<lparr>rr_failures := saturating_add (rr_failures r) 1\<rparr>
             else if kind = KindIdleExit then r\<lparr>rr_idle_exits := saturating_add (rr_idle_exits r) 1\<rparr>
             else r)
         (st\<lparr>pass_backoff := clean_succeeded (attempt_id a) (pass_backoff st)\<rparr>))"

definition clean_failed_one :: "runner_attempt \<Rightarrow> timestamp \<Rightarrow> launch_failure \<Rightarrow> ('s, 'w) pass \<Rightarrow> ('s, 'w) pass" where
  "clean_failed_one a now f st =
     emit (AttemptCleanFailed (attempt_policy_id a) (attempt_id a) (failure_reason_kind (launch_reason f)))
       (amend (\<lambda>r. r\<lparr>rr_clean_failures := saturating_add (rr_clean_failures r) 1\<rparr>)
         (st\<lparr>pass_backoff := clean_failed (attempt_id a) now (pass_backoff st)\<rparr>))"

definition clean_one :: "('s, 'w) ports \<Rightarrow> timestamp \<Rightarrow> runner_attempt \<Rightarrow> ('s, 'w) pass \<Rightarrow> ('s, 'w) pass" where
  "clean_one io now a st =
     (if \<not> is_concluded (attempt_state a) then st
      else case attempt_outcome a of
        None \<Rightarrow> st
      | Some outcome \<Rightarrow>
          if \<not> is_due (pass_backoff st) (attempt_id a) now then st
          else case port_clean io (attempt_id a) (pass_world st) of
            (Inr _, w) \<Rightarrow> cleaned_one a (outcome_kind_of outcome) (in_world w st)
          | (Inl f, w) \<Rightarrow> clean_failed_one a now f (in_world w st))"

definition clean_terminal_attempts :: "('s, 'w) ports \<Rightarrow> ('s, 'w) pass \<Rightarrow> ('s, 'w) pass" where
  "clean_terminal_attempts io st =
     (case port_attempts io (pass_world st) of
        (Inl f, w) \<Rightarrow> report_unreadable_attempts f (in_world w st)
      | (Inr attempts, w) \<Rightarrow>
          fold (clean_one io (port_now io w)) attempts
            ((in_world w st)\<lparr>pass_backoff := clean_retain (map attempt_id attempts) (pass_backoff st)\<rparr>))"

record 'w scaling =
  sc_world :: 'w
  sc_report :: scale_down_report
  sc_events :: "lifecycle_event list"

definition scale_down_one :: "('s, 'w) ports \<Rightarrow> scale_policy \<Rightarrow> runner_attempt \<Rightarrow> 'w scaling \<Rightarrow> 'w scaling" where
  "scale_down_one io p a st =
     (if attempt_policy_id a \<noteq> policy_id p then st
      else if attempt_state a = Busy then
        st\<lparr>sc_report := (sc_report st)\<lparr>sd_refused_busy := saturating_add (sd_refused_busy (sc_report st)) 1\<rparr>,
           sc_events := sc_events st @ [ScaleDownRefused (policy_id p) (attempt_id a)]\<rparr>
      else if is_concluded (attempt_state a) then
        (let kind = (case attempt_outcome a of None \<Rightarrow> KindFailed | Some oc \<Rightarrow> outcome_kind_of oc) in
         case port_clean io (attempt_id a) (sc_world st) of
           (Inr _, w) \<Rightarrow>
             \<lparr>sc_world = w, sc_report = (sc_report st)\<lparr>sd_removed := saturating_add (sd_removed (sc_report st)) 1\<rparr>,
              sc_events = sc_events st @ [AttemptCleaned (policy_id p) (attempt_id a) kind]\<rparr>
         | (Inl f, w) \<Rightarrow>
             \<lparr>sc_world = w, sc_report = (sc_report st)\<lparr>sd_clean_failures := saturating_add (sd_clean_failures (sc_report st)) 1\<rparr>,
              sc_events = sc_events st @ [AttemptCleanFailed (policy_id p) (attempt_id a) (failure_reason_kind (launch_reason f))]\<rparr>)
      else if attempt_state a = Cleaned then st
      else st\<lparr>sc_report := (sc_report st)\<lparr>sd_retained := saturating_add (sd_retained (sc_report st)) 1\<rparr>\<rparr>)"

definition empty_scale_down :: scale_down_report where
  "empty_scale_down =
     \<lparr>sd_removed = 0, sd_refused_busy = 0, sd_clean_failures = 0, sd_retained = 0, sd_attempts_unreadable = False\<rparr>"

definition scale_down :: "('s, 'w) ports \<Rightarrow> scale_policy \<Rightarrow> 'w \<Rightarrow> 'w scaling" where
  "scale_down io p w =
     (case port_attempts io w of
        (Inl f, w) \<Rightarrow>
          \<lparr>sc_world = w, sc_report = empty_scale_down\<lparr>sd_attempts_unreadable := True\<rparr>,
           sc_events = [AttemptsUnreadable (failure_reason_kind (launch_reason f))]\<rparr>
      | (Inr attempts, w) \<Rightarrow>
          fold (scale_down_one io p) attempts \<lparr>sc_world = w, sc_report = empty_scale_down, sc_events = []\<rparr>)"

section \<open>One pass\<close>

type_synonym 's readings = "(nat \<times> ustr \<times> ustr, scale_target \<times> 's poll_outcome) btree_map"
type_synonym routed = "(nat \<times> ustr \<times> ustr, tallies) btree_map"

text \<open>Flow 2.1: the policies that are asked for, after their own processes were supervised.\<close>

definition supervise_policy ::
  "('s, 'w) ports \<Rightarrow> host \<Rightarrow> scale_policy \<Rightarrow> ('s, 'w) pass \<times> scale_policy list \<times> policy_id list
     \<Rightarrow> ('s, 'w) pass \<times> scale_policy list \<times> policy_id list" where
  "supervise_policy io h p acc =
     (let (st, pollable, failed) = acc in
      if \<not> owns_runners p then
        (emit (MonitorOnlySkipped (policy_id p))
           (amend (\<lambda>r. r\<lparr>rr_monitor_only := rr_monitor_only r @ [policy_id p]\<rparr>) st), pollable, failed)
      else if \<not> is_owned_by p (host_id h) then (st, pollable, failed)
      else case port_supervise io p (pass_world st) of
        (Inl f, w) \<Rightarrow>
          (report_unreadable_attempts f (in_world w st), pollable, bts_insert (policy_id p) failed)
      | (Inr intents, w) \<Rightarrow>
          (amend (\<lambda>r. r\<lparr>rr_replacement_intents :=
               saturating_add (rr_replacement_intents r) (saturating_of_nat (length intents))\<rparr>) (in_world w st),
           if may_start_runners p then pollable @ [p] else pollable, failed))"

definition poll_target ::
  "('s, 'w) ports \<Rightarrow> scale_target \<Rightarrow> ('s, 'w) pass \<times> 's readings \<Rightarrow> ('s, 'w) pass \<times> 's readings" where
  "poll_target io t acc =
     (let (st, readings) = acc in
      case scope_for io t (pass_repositories st) (pass_world st) of
        (Inl e, c, w) \<Rightarrow>
          ((in_world w st)\<lparr>pass_repositories := c\<rparr>,
           btm_insert (target_key t) (t, PollFailed (from_error (port_render io) e)) readings)
      | (Inr sc, c, w) \<Rightarrow>
          (let (outcome, w) = port_poll io sc w in
           (amend (\<lambda>r. r\<lparr>rr_demand_requests := saturating_add (rr_demand_requests r) (demand_requests_per_poll sc)\<rparr>)
              ((in_world w st)\<lparr>pass_repositories := c\<rparr>),
            btm_insert (target_key t) (t, outcome) readings)))"

definition targets_of :: "scale_policy list \<Rightarrow> scale_target list" where
  "targets_of pollable =
     map snd (fold (\<lambda>p. btm_insert (target_key (policy_target p)) (policy_target p)) pollable [])"

definition poll_targets ::
  "('s, 'w) ports \<Rightarrow> scale_policy list \<Rightarrow> ('s, 'w) pass \<Rightarrow> ('s, 'w) pass \<times> 's readings" where
  "poll_targets io pollable st = fold (poll_target io) (targets_of pollable) (st, [])"

definition route_reading ::
  "scale_policy list \<Rightarrow> scale_policy list \<Rightarrow> (nat \<times> ustr \<times> ustr) \<times> scale_target \<times> 's poll_outcome
     \<Rightarrow> ('s, 'w) pass \<times> routed \<Rightarrow> ('s, 'w) pass \<times> routed" where
  "route_reading policies pollable entry acc =
     (let (key, t, outcome) = entry; (st, routed) = acc in
      case outcome of
        PollFailed _ \<Rightarrow> (st, routed)
      | PollReady reading \<Rightarrow>
          (let profiles = filter (\<lambda>p. target_eq (policy_target p) t) pollable;
               (tallies, refused) = route_demand policies profiles reading
           in (case profiles of
                 [] \<Rightarrow> st
               | first # _ \<Rightarrow>
                   if refused = 0 then st else emit (RoutingRefused (policy_id first) OverlappingProfiles refused) st,
               btm_insert key tallies routed)))"

text \<open>Flow 2.3 to 2.6 for one policy; the \<open>expect\<close> that a pollable profile was routed is \<open>None\<close>.\<close>

definition serve_policy ::
  "('s, 'w) ports \<Rightarrow> host \<Rightarrow> 's readings \<Rightarrow> routed \<Rightarrow> policy_id list \<Rightarrow> scale_policy \<Rightarrow> ('s, 'w) pass \<Rightarrow> ('s, 'w) pass option" where
  "serve_policy io h readings routed failed p st =
     (if \<not> owns_runners p then Some st
      else if \<not> is_owned_by p (host_id h) \<or> \<not> may_start_runners p then
        (case allocate_only io h p 0 (pass_launched st) (pass_world st) of
           None \<Rightarrow> None
         | Some (Inl failure, w) \<Rightarrow> Some (report_allocation_failure failure (in_world w st))
         | Some (Inr al, w) \<Rightarrow> Some (push_allocation al (in_world w st)))
      else if policy_id p \<in> set failed then Some st
      else case btm_get readings (target_key (policy_target p)) of
        None \<Rightarrow> Some st
      | Some (_, PollFailed state) \<Rightarrow>
          Some (emit (TargetUnreadable (policy_id p) (unreadable_reason state))
                  (amend (\<lambda>r. r\<lparr>rr_unreadable := rr_unreadable r @ [policy_id p]\<rparr>) st))
      | Some (_, PollReady demand) \<Rightarrow>
          (case Option.bind (btm_get routed (target_key (policy_target p))) (\<lambda>tallies. btm_get tallies (policy_id p)) of
             None \<Rightarrow> None
           | Some tly \<Rightarrow>
               start_runners io h p (tally_demand tly)
                 (emit (DemandObserved (policy_id p) (tally_demand tly) (not_matched tly)
                          (saturating_of_nat (length (unresolvable tly))) (is_complete demand)) st)))"

fun serve_policies ::
  "('s, 'w) ports \<Rightarrow> host \<Rightarrow> 's readings \<Rightarrow> routed \<Rightarrow> policy_id list \<Rightarrow> scale_policy list \<Rightarrow> ('s, 'w) pass \<Rightarrow> ('s, 'w) pass option" where
  "serve_policies io h readings routed failed [] st = Some st"
| "serve_policies io h readings routed failed (p # ps) st =
     Option.bind (serve_policy io h readings routed failed p st) (serve_policies io h readings routed failed ps)"

definition outcomes :: "'s readings \<Rightarrow> 's poll_outcome list" where
  "outcomes readings = map (\<lambda>(_, _, o'). o') readings"

definition is_quiet :: "'s readings \<Rightarrow> 's reconcile_report \<Rightarrow> bool" where
  "is_quiet readings r \<longleftrightarrow>
     readings \<noteq> []
     \<and> list_all (\<lambda>o'. case poll_reading o' of None \<Rightarrow> False | Some d \<Rightarrow> demand_is_quiet d) (outcomes readings)
     \<and> rr_started r = 0 \<and> rr_host_capacity_unreadable r = 0 \<and> rr_attempts_unreadable r = 0
     \<and> list_all (\<lambda>al. alloc_active_owned al = 0 \<and> alloc_demand al = 0) (rr_allocations r)"

text \<open>Flow 2.1 and 3.3: when to come back.\<close>

definition schedule_next ::
  "('s, 'w) ports \<Rightarrow> 's readings \<Rightarrow> poll_schedule \<Rightarrow> ('s, 'w) pass \<Rightarrow> ('s, 'w) pass \<times> poll_schedule" where
  "schedule_next io readings sched st =
     (let failure = max_by_key severity (List.map_filter poll_failure (outcomes readings));
          now = port_now io (pass_world st);
          conditions =
            \<lparr>cond_quiet = is_quiet readings (pass_report st),
             cond_quota = max_by_key snap_observed_at
               (List.map_filter (\<lambda>o'. Option.bind (poll_reading o') reading_rate_limit) (outcomes readings)),
             cond_requests_per_pass = rr_demand_requests (pass_report st)\<rparr>;
          (np, sched) = next_poll_with failure conditions now (port_jitter io (pass_world st)) sched;
          offline = (case poll_pace np of
            OfflinePace consecutive \<Rightarrow>
              (let state = offline_state_new consecutive (poll_delay np)
               in Some (case offline_for now sched of Some elapsed \<Rightarrow> offline_since_set elapsed state | None \<Rightarrow> state))
          | _ \<Rightarrow> rr_offline (pass_report st));
          st = amend (\<lambda>r. r\<lparr>rr_next_poll := np, rr_failure := failure, rr_offline := offline\<rparr>) st
      in (emit (PollScheduled (saturating_of_nat (poll_delay np div 1000000)) (poll_pace np)) st, sched))"

definition targets_read :: "'s readings \<Rightarrow> u16" where
  "targets_read readings = saturating_of_nat (length (filter (\<lambda>o'. poll_reading o' \<noteq> None) (outcomes readings)))"

definition begin_pass :: "reconciler \<Rightarrow> 'w \<Rightarrow> ('s, 'w) pass" where
  "begin_pass rc w =
     \<lparr>pass_world = w, pass_report = empty_report, pass_launched = [], pass_events = [],
      pass_repositories = rc_repositories rc, pass_backoff = rc_clean_backoff rc\<rparr>"

definition reconcile ::
  "('s, 'w) ports \<Rightarrow> scale_policy list \<Rightarrow> reconciler \<Rightarrow> 'w \<Rightarrow> (('s, 'w) pass \<times> reconciler) option" where
  "reconcile io policies rc w =
     (let h = rc_host rc;
          (st, pollable, failed) = fold (supervise_policy io h) policies (begin_pass rc w, [], []);
          (st, readings) = poll_targets io pollable st;
          st = amend (\<lambda>r. r\<lparr>rr_targets_read := targets_read readings\<rparr>) st;
          (st, routed) = fold (route_reading policies pollable) readings (st, []);
          st = clean_terminal_attempts io st
      in map_option (\<lambda>st.
           let (st, sched) = schedule_next io readings (rc_schedule rc) st
           in (st, rc\<lparr>rc_repositories := pass_repositories st, rc_schedule := sched,
                      rc_clean_backoff := pass_backoff st\<rparr>))
         (serve_policies io h readings routed failed policies st))"

definition reconciler_new :: "host \<Rightarrow> reconciler" where
  "reconciler_new h =
     \<lparr>rc_host = h, rc_repositories = repository_cache_new (host_refresh_interval h),
      rc_schedule = schedule_new (host_refresh_interval h), rc_clean_backoff = []\<rparr>"

definition reconciler_set_intervals :: "refresh_interval \<Rightarrow> duration \<Rightarrow> reconciler \<Rightarrow> reconciler" where
  "reconciler_set_intervals active idle rc =
     rc\<lparr>rc_host := (rc_host rc)\<lparr>host_refresh_interval := active\<rparr>,
        rc_schedule := set_intervals active idle (rc_schedule rc)\<rparr>"

end
