(* ===== verification/Fleet.thy ===== *)
theory Fleet
  imports Reconcile
begin

text \<open>
  What a reconciliation pass does to the machine. The locale \<open>runner_launcher\<close> is the contract of the
  launcher and lock ports as \<open>reconcile.rs\<close> documents it: \<open>occupied\<close> is the set of identifiers of the
  runtimes that hold a slot, \<open>made\<close> those this pass created, which the listing may lag behind, and
  \<open>locked\<close> says that this pass holds the allocation lock. Outside the lock other target loops may
  start runners too, within the ceiling; inside it nobody else does. The properties are about
  \<open>reconcile\<close>, \<open>start_runners\<close>, \<open>clean_terminal_attempts\<close> and \<open>scale_down\<close>.
\<close>

section \<open>What the bookkeeping leaves alone\<close>

named_theorems pass_simps \<open>the world and the launches of a pass through its bookkeeping\<close>

lemma emit_simps [pass_simps]:
  "pass_world (emit e st) = pass_world st" "pass_launched (emit e st) = pass_launched st"
  "pass_report (emit e st) = pass_report st" "pass_backoff (emit e st) = pass_backoff st"
  by (simp_all add: emit_def)

lemma amend_simps [pass_simps]:
  "pass_world (amend f st) = pass_world st" "pass_launched (amend f st) = pass_launched st"
  "pass_report (amend f st) = f (pass_report st)" "pass_backoff (amend f st) = pass_backoff st"
  by (simp_all add: amend_def)

lemma in_world_simps [pass_simps]:
  "pass_world (in_world w st) = w" "pass_launched (in_world w st) = pass_launched st"
  "pass_report (in_world w st) = pass_report st" "pass_backoff (in_world w st) = pass_backoff st"
  by (simp_all add: in_world_def)

lemma report_failure_simps [pass_simps]:
  "pass_world (report_unreadable_attempts f st) = pass_world st"
  "pass_launched (report_unreadable_attempts f st) = pass_launched st"
  "pass_world (report_allocation_failure e st) = pass_world st"
  "pass_launched (report_allocation_failure e st) = pass_launched st"
  by (cases e; simp add: report_unreadable_attempts_def pass_simps)+

lemma step_report_simps [pass_simps]:
  "pass_world (push_allocation al st) = pass_world st" "pass_launched (push_allocation al st) = pass_launched st"
  "pass_world (deferred_grants i n st) = pass_world st" "pass_launched (deferred_grants i n st) = pass_launched st"
  "pass_world (started_one i a st) = pass_world st" "pass_launched (started_one i a st) = pass_launched st @ [a]"
  "pass_world (cleaned_one a k st) = pass_world st" "pass_launched (cleaned_one a k st) = pass_launched st"
  "pass_world (clean_failed_one a t f st) = pass_world st" "pass_launched (clean_failed_one a t f st) = pass_launched st"
  by (simp_all add: push_allocation_def emit_allocation_def deferred_grants_def started_one_def cleaned_one_def
      clean_failed_one_def pass_simps)

lemma host_allocate_headroom:
  "host_allocate p d ha = Some (al, ha') \<Longrightarrow> alloc_to_start al \<noteq> 0 \<Longrightarrow> 0 < unat (headroom ha)"
  by (auto simp: host_allocate_def Let_def bind_eq_Some_conv unat_gt_0 split: if_splits)

section \<open>The phases of a pass\<close>

lemma schedule_next_frame [pass_simps]:
  "pass_world (fst (schedule_next io readings sched st)) = pass_world st"
  "pass_launched (fst (schedule_next io readings sched st)) = pass_launched st"
  by (simp_all add: schedule_next_def Let_def case_prod_unfold pass_simps)

lemma reconcile_phases:
  assumes run: "reconcile io policies rc w = Some (st', rc')"
    and s1: "fold (supervise_policy io (rc_host rc)) policies (begin_pass rc w, [], []) = (st1, pollable, failed)"
    and s2: "poll_targets io pollable st1 = (st2, readings)"
    and s3: "fold (route_reading policies pollable) readings
      (amend (\<lambda>r. r\<lparr>rr_targets_read := targets_read readings\<rparr>) st2, []) = (st3, routed)"
  obtains st5 where "serve_policies io (rc_host rc) readings routed failed policies (clean_terminal_attempts io st3) = Some st5"
    "st' = fst (schedule_next io readings (rc_schedule rc) st5)"
    "pass_world st' = pass_world st5" "pass_launched st' = pass_launched st5"
proof -
  have "map_option (\<lambda>st. let (st, sched) = schedule_next io readings (rc_schedule rc) st
      in (st, rc\<lparr>rc_repositories := pass_repositories st, rc_schedule := sched, rc_clean_backoff := pass_backoff st\<rparr>))
    (serve_policies io (rc_host rc) readings routed failed policies (clean_terminal_attempts io st3)) = Some (st', rc')"
    using run unfolding reconcile_def by (simp only: Let_def s1 s2 s3 prod.case)
  then obtain st5 where "serve_policies io (rc_host rc) readings routed failed policies (clean_terminal_attempts io st3) = Some st5"
    "st' = fst (schedule_next io readings (rc_schedule rc) st5)"
    by (auto simp: case_prod_unfold Let_def)
  then show thesis using that by (simp add: pass_simps)
qed

section \<open>One round of the launch loop\<close>

lemma start_loop_round:
  assumes run: "start_loop io h p demand decided budget st = Some (d, st')" and budget: "budget \<noteq> 0"
  obtains (deferred) w where "port_acquire io (pass_world st) = (False, w)" "d = decided"
      "st' = deferred_grants (policy_id p) budget (in_world w st)"
  | (unread) w failure w1 where "port_acquire io (pass_world st) = (True, w)"
      "allocate_only io h p demand (pass_launched st) w = Some (Inl failure, w1)" "d = decided"
      "st' = report_allocation_failure failure (in_world (port_release io w1) st)"
  | (full) w al w1 where "port_acquire io (pass_world st) = (True, w)"
      "allocate_only io h p demand (pass_launched st) w = Some (Inr al, w1)"
      "d = (if decided = None then Some al else decided)" "st' = in_world (port_release io w1) st"
  | (refused) w al w1 f w2 where "port_acquire io (pass_world st) = (True, w)"
      "allocate_only io h p demand (pass_launched st) w = Some (Inr al, w1)" "alloc_to_start al \<noteq> 0"
      "port_launch io h p w1 = (Inl f, w2)" "d = (if decided = None then Some al else decided)"
      "st' = emit (RunnerStartFailed (policy_id p) (failure_reason_kind (launch_reason f))) (in_world (port_release io w2) st)"
  | (launched) w al w1 a w2 budget' where "port_acquire io (pass_world st) = (True, w)"
      "allocate_only io h p demand (pass_launched st) w = Some (Inr al, w1)" "alloc_to_start al \<noteq> 0"
      "port_launch io h p w1 = (Inr a, w2)" "unat budget' < unat budget" "decided = None \<longrightarrow> unat budget' < unat (alloc_to_start al)"
      "start_loop io h p demand (if decided = None then Some al else decided) budget'
         (started_one (policy_id p) a (in_world (port_release io w2) st)) = Some (d, st')"
proof -
  obtain b w where acq: "port_acquire io (pass_world st) = (b, w)" by (cases "port_acquire io (pass_world st)")
  show thesis
  proof (cases b)
    case False
    then show thesis using run budget acq deferred by (simp add: start_loop.simps [where budget = budget])
  next
    case True
    with acq have acq: "port_acquire io (pass_world st) = (True, w)" by simp
    obtain r w1 where al: "allocate_only io h p demand (pass_launched st) w = Some (r, w1)"
      using run budget acq by (auto simp: start_loop.simps [where budget = budget] split: option.splits)
    show thesis
    proof (cases r)
      case (Inl failure)
      then show thesis using run budget acq al unread by (auto simp: start_loop.simps [where budget = budget])
    next
      case (Inr x)
      let ?budget = "if decided = None then min budget (alloc_to_start x) else budget"
      obtain l w2 where l: "port_launch io h p w1 = (l, w2)" by (cases "port_launch io h p w1")
      have less: "unat (?budget - 1) < unat budget" "decided = None \<longrightarrow> unat (?budget - 1) < unat (alloc_to_start x)" if "?budget \<noteq> 0"
        using that budget_spent(1) [OF budget, of "alloc_to_start x"] budget_spent(2) [OF budget]
        by (auto simp: unat_minus_one) (metis budget_spent(1) min.commute min_def word_zero_le word_le_0_iff)
      show thesis
      proof (cases "starts_nothing x \<or> ?budget = 0")
        case True
        then show thesis
          using run budget acq al Inr full by (auto simp: start_loop.simps [where budget = budget] Let_def split: if_splits)
      next
        case False
        then have "alloc_to_start x \<noteq> 0" by (simp add: starts_nothing_def)
        then show thesis
          using run budget acq al Inr l False less refused [OF acq al [unfolded Inr]] launched [OF acq al [unfolded Inr]]
          by (cases l) (simp_all add: start_loop.simps [where budget = budget] Let_def)
      qed
    qed
  qed
qed

section \<open>The contract of the launcher and of the allocation lock\<close>

definition quiet_step :: "('w \<Rightarrow> bool) \<Rightarrow> ('w \<Rightarrow> attempt_id set) \<Rightarrow> ('w \<Rightarrow> attempt_id set) \<Rightarrow> ('w \<Rightarrow> bool) \<Rightarrow> nat \<Rightarrow> 'w \<Rightarrow> 'w \<Rightarrow> bool" where
  "quiet_step good occupied made locked ceiling w w' \<longleftrightarrow>
     (good w \<longrightarrow> good w' \<and> made w' = made w \<and> locked w' = locked w
      \<and> (if locked w then occupied w' \<subseteq> occupied w else card (occupied w') \<le> max ceiling (card (occupied w))))"

definition listed :: "runner_attempt list \<Rightarrow> attempt_id set" where
  "listed as = attempt_id ` set as"

definition counted :: "runner_attempt list \<Rightarrow> attempt_id set" where
  "counted as = attempt_id ` set (filter counts_against_capacity as)"

locale runner_launcher =
  fixes io :: "('s, 'w) ports"
    and good :: "'w \<Rightarrow> bool"
    and occupied made :: "'w \<Rightarrow> attempt_id set"
    and locked :: "'w \<Rightarrow> bool"
    and ceiling :: nat
  assumes finite_occupied: "finite (occupied w)"
    and quiet_ports:
      "quiet_step good occupied made locked ceiling w (snd (port_poll io sc w))"
      "quiet_step good occupied made locked ceiling w (snd (port_repositories io o' w))"
      "quiet_step good occupied made locked ceiling w (snd (port_supervise io p w))"
      "quiet_step good occupied made locked ceiling w (snd (port_clean io i w))"
      "quiet_step good occupied made locked ceiling w (snd (port_attempts io w))"
      "quiet_step good occupied made locked ceiling w (snd (port_host_capacity io h w))"
    and capacity_read: "good w \<Longrightarrow> port_host_capacity io h w = (Inr cap, w') \<Longrightarrow> unat cap \<le> ceiling"
    and attempts_read: "port_attempts io w = (Inr as, w') \<Longrightarrow> occupied w' \<subseteq> counted as \<union> (made w' - listed as)"
    and lock_acquired: "good w \<Longrightarrow> \<not> locked w \<Longrightarrow> port_acquire io w = (b, w') \<Longrightarrow>
      good w' \<and> locked w' = b \<and> made w' = made w \<and> card (occupied w') \<le> max ceiling (card (occupied w))"
    and lock_released: "good w \<Longrightarrow> locked w \<Longrightarrow>
      good (port_release io w) \<and> \<not> locked (port_release io w) \<and> made (port_release io w) = made w
      \<and> card (occupied (port_release io w)) \<le> max ceiling (card (occupied w))"
    and launch_ok: "good w \<Longrightarrow> locked w \<Longrightarrow> port_launch io h p w = (Inr a, w') \<Longrightarrow>
      good w' \<and> locked w' \<and> made w' = insert (attempt_id a) (made w) \<and> counts_against_capacity a
      \<and> occupied w' \<subseteq> insert (attempt_id a) (occupied w)"
    and launch_err: "good w \<Longrightarrow> locked w \<Longrightarrow> port_launch io h p w = (Inl f, w') \<Longrightarrow>
      good w' \<and> locked w' \<and> made w' = made w \<and> (\<exists>i. occupied w' \<subseteq> insert i (occupied w))"
begin

text \<open>The invariant of a pass between lock holds.\<close>

definition safe :: "nat \<Rightarrow> ('s, 'w) pass \<Rightarrow> bool" where
  "safe bound st \<longleftrightarrow>
     good (pass_world st) \<and> \<not> locked (pass_world st) \<and> made (pass_world st) = listed (pass_launched st)
     \<and> list_all counts_against_capacity (pass_launched st) \<and> card (occupied (pass_world st)) \<le> bound"

lemma safe_frame: "safe bound st \<Longrightarrow> pass_world st' = pass_world st \<Longrightarrow> pass_launched st' = pass_launched st \<Longrightarrow> safe bound st'"
  by (simp add: safe_def)

lemma safe_step:
  assumes "safe bound st" "ceiling \<le> bound" "quiet_step good occupied made locked ceiling (pass_world st) w"
    and "pass_world st' = w" "pass_launched st' = pass_launched st"
  shows "safe bound st'"
  using assms by (auto simp: safe_def quiet_step_def)

lemma quiet_trans:
  assumes "quiet_step good occupied made locked ceiling w w1" "quiet_step good occupied made locked ceiling w1 w2"
  shows "quiet_step good occupied made locked ceiling w w2"
  using assms by (auto simp: quiet_step_def split: if_splits)

lemma quiet_refl: "quiet_step good occupied made locked ceiling w w"
  by (simp add: quiet_step_def)

lemma allocate_only_quiet:
  assumes "allocate_only io h p demand launched w = Some (r, w')"
  shows "quiet_step good occupied made locked ceiling w w'"
proof -
  obtain c w1 where c: "port_host_capacity io h w = (c, w1)" by (cases "port_host_capacity io h w")
  obtain as w2 where as: "port_attempts io w1 = (as, w2)" by (cases "port_attempts io w1")
  have steps: "quiet_step good occupied made locked ceiling w w1" "quiet_step good occupied made locked ceiling w1 w2"
    using quiet_ports(6) [of w h] quiet_ports(5) [of w1] c as by simp_all
  then show ?thesis
    using assms quiet_trans [OF steps]
    by (auto simp: allocate_only_def host_attempts_def c as split: sum.splits option.splits prod.splits)
qed

lemma merged_covers:
  assumes "occupied w \<subseteq> counted as \<union> (made w - listed as)" "made w = listed launched" "list_all counts_against_capacity launched"
  shows "card (occupied w) \<le> length (filter counts_against_capacity (merge_launched launched as))"
proof -
  have "occupied w \<subseteq> counted (merge_launched launched as)"
    using assms by (fastforce simp: counted_def listed_def merge_launched_def list_all_iff)
  then have "card (occupied w) \<le> card (counted (merge_launched launched as))"
    by (intro card_mono) (simp_all add: counted_def)
  also have "\<dots> \<le> length (filter counts_against_capacity (merge_launched launched as))"
    unfolding counted_def using card_image_le card_length le_trans by blast
  finally show ?thesis .
qed

text \<open>A grant decided under the lock leaves room for one more runtime.\<close>

lemma grant_has_room:
  assumes "allocate_only io h p demand launched w = Some (Inr al, w')" "alloc_to_start al \<noteq> 0"
    and "good w" "made w = listed launched" "list_all counts_against_capacity launched"
  shows "card (occupied w') < ceiling"
proof -
  obtain cap w1 where cap: "port_host_capacity io h w = (Inr cap, w1)"
    using assms(1) by (auto simp: allocate_only_def split: sum.splits prod.splits)
  obtain as where as: "port_attempts io w1 = (Inr as, w')"
    using assms(1) by (auto simp: allocate_only_def cap host_attempts_def split: sum.splits prod.splits option.splits)
  let ?ha = "from_attempts (h\<lparr>host_capacity := cap\<rparr>) (merge_launched launched as)"
  obtain ha' where "host_allocate p demand ?ha = Some (al, ha')"
    using assms(1) by (auto simp: allocate_only_def cap host_attempts_def as)
  then have "0 < unat (headroom ?ha)" using host_allocate_headroom assms(2) by blast
  then have "min (length (filter counts_against_capacity (merge_launched launched as))) 65535 < unat cap"
    by (simp add: unat_simps from_attempts_def)
  moreover have "unat cap \<le> ceiling" "unat cap < 65536" using capacity_read [OF assms(3) cap] unat_lt_16 [of cap] by simp_all
  moreover have "made w' = listed launched"
    using allocate_only_quiet [OF assms(1)] assms(3,4) by (simp add: quiet_step_def)
  then have "card (occupied w') \<le> length (filter counts_against_capacity (merge_launched launched as))"
    using merged_covers [OF attempts_read [OF as]] assms(5) by simp
  ultimately show ?thesis by linarith
qed

lemma hold_ends:
  assumes "good w" "locked w" "made w = listed (pass_launched st)" "list_all counts_against_capacity (pass_launched st)"
    and "card (occupied w) \<le> bound" "ceiling \<le> bound" "pass_world st = port_release io w"
  shows "safe bound st"
  using lock_released [OF assms(1,2)] assms by (auto simp: safe_def)

lemma start_loop_safe:
  assumes "start_loop io h p demand decided budget st = Some (d, st')" "safe bound st" and bound: "ceiling \<le> bound"
  shows "safe bound st'"
  using assms(1,2)
proof (induction "unat budget" arbitrary: decided budget st rule: less_induct)
  case less
  have inv: "good (pass_world st)" "\<not> locked (pass_world st)" "made (pass_world st) = listed (pass_launched st)"
    "list_all counts_against_capacity (pass_launched st)" "card (occupied (pass_world st)) \<le> bound"
    using less.prems(2) by (simp_all add: safe_def)
  have held: "good w" "locked w" "made w = listed (pass_launched st)" "card (occupied w) \<le> bound"
    if "port_acquire io (pass_world st) = (True, w)" for w
    using lock_acquired [OF inv(1,2) that] inv bound by auto
  have read: "good w1" "locked w1" "made w1 = listed (pass_launched st)" "card (occupied w1) \<le> bound"
    if acq: "port_acquire io (pass_world st) = (True, w)"
      and al: "allocate_only io h p demand (pass_launched st) w = Some (r, w1)" for w r w1
    using allocate_only_quiet [OF al] held [OF acq] card_mono [OF finite_occupied, of "occupied w1" w]
    by (auto simp: quiet_step_def)
  have fits: "card (occupied w2) \<le> bound"
    if acq: "port_acquire io (pass_world st) = (True, w)"
      and al: "allocate_only io h p demand (pass_launched st) w = Some (Inr al, w1)" "alloc_to_start al \<noteq> 0"
      and w2: "occupied w2 \<subseteq> insert i (occupied w1)" for w al w1 w2 i
  proof -
    have "card (occupied w1) < ceiling" using grant_has_room [OF al] held [OF acq] inv(4) by simp
    moreover have "card (occupied w2) \<le> Suc (card (occupied w1))"
      using card_mono [OF _ w2] card_insert_le_m1 [of "Suc (card (occupied w1))" "occupied w1" i] finite_occupied by fastforce
    ultimately show ?thesis using bound by simp
  qed
  show ?case
  proof (cases "budget = 0")
    case True
    then show ?thesis using less.prems by (simp add: start_loop.simps)
  next
    case False
    from less.prems(1) this show ?thesis
    proof (cases rule: start_loop_round)
      case (deferred w)
      then show ?thesis using lock_acquired [OF inv(1,2) deferred(1)] inv bound by (auto simp: safe_def pass_simps)
    next
      case (unread w failure w1)
      then show ?thesis using hold_ends [OF _ _ _ _ _ bound, of w1 st'] read inv(4) by (simp add: pass_simps)
    next
      case (full w al w1)
      then show ?thesis using hold_ends [OF _ _ _ _ _ bound, of w1 st'] read inv(4) by (simp add: pass_simps)
    next
      case (refused w al w1 f w2)
      then have "good w2" "locked w2" "made w2 = listed (pass_launched st)" "card (occupied w2) \<le> bound"
        using launch_err [OF _ _ refused(4)] read(1-3) [OF refused(1,2)] fits [OF refused(1-3)] by auto
      then show ?thesis using hold_ends [OF _ _ _ _ _ bound, of w2 st'] refused inv(4) by (simp add: pass_simps)
    next
      case (launched w al w1 a w2 budget')
      let ?st1 = "started_one (policy_id p) a (in_world (port_release io w2) st)"
      have "good w2" "locked w2" "made w2 = listed (pass_launched st @ [a])" "card (occupied w2) \<le> bound" "counts_against_capacity a"
        using launch_ok [OF _ _ launched(4)] read(1-3) [OF launched(1,2)] fits [OF launched(1-3)] by (auto simp: listed_def)
      then have "safe bound ?st1" using hold_ends [OF _ _ _ _ _ bound, of w2 ?st1] inv(4) by (simp add: pass_simps)
      then show ?thesis using less.hyps [OF launched(5) launched(7)] by blast
    qed
  qed
qed

lemma start_runners_safe:
  assumes "start_runners io h p demand st = Some st'" "safe bound st" "ceiling \<le> bound"
  shows "safe bound st'"
proof -
  obtain r w where al: "allocate_only io h p demand (pass_launched st) (pass_world st) = Some (r, w)"
    using assms(1) by (auto simp: start_runners_def split: option.splits)
  have st: "safe bound (in_world w st)"
    using safe_step [OF assms(2,3) allocate_only_quiet [OF al]] by (simp add: pass_simps)
  show ?thesis
    using assms(1) st start_loop_safe [OF _ st assms(3)] safe_frame
    by (cases r) (fastforce simp: start_runners_def al pass_simps)+
qed

lemma clean_one_safe:
  assumes "safe bound st" "ceiling \<le> bound"
  shows "safe bound (clean_one io now a st)"
  using assms(1) safe_step [OF assms quiet_ports(4) [of _ "attempt_id a"]]
  by (auto simp: clean_one_def pass_simps split: option.splits prod.splits sum.splits)

lemma clean_safe:
  assumes "safe bound st" "ceiling \<le> bound"
  shows "safe bound (clean_terminal_attempts io st)"
proof -
  obtain r w where r: "port_attempts io (pass_world st) = (r, w)" by (cases "port_attempts io (pass_world st)")
  have "safe bound st'" if "pass_world st' = w" "pass_launched st' = pass_launched st" for st'
    using safe_step [OF assms quiet_ports(5)] that r by simp
  then show ?thesis
    using assms(2) clean_one_safe
    by (cases r) (auto simp: clean_terminal_attempts_def r pass_simps intro!: fold_invariant [where Q = "\<lambda>_. True" and P = "safe bound"])
qed

lemma supervise_safe:
  assumes "safe bound (fst acc)" "ceiling \<le> bound"
  shows "safe bound (fst (supervise_policy io h p acc))"
  using assms(1) safe_frame [OF assms(1)] safe_step [OF assms quiet_ports(3) [of _ p]]
  by (auto simp: supervise_policy_def Let_def pass_simps split: prod.splits sum.splits)

lemma scope_for_quiet: "quiet_step good occupied made locked ceiling w (snd (snd (scope_for io t c w)))"
  using quiet_ports(2) quiet_refl
  by (cases t) (auto simp: repositories_of_def Let_def split: option.splits prod.splits sum.splits, (metis snd_conv)+)

lemma poll_target_safe:
  assumes "safe bound (fst acc)" "ceiling \<le> bound"
  shows "safe bound (fst (poll_target io t acc))"
proof -
  obtain st readings where acc: "acc = (st, readings)" by (cases acc)
  obtain r c w where sc: "scope_for io t (pass_repositories st) (pass_world st) = (r, c, w)" by (cases "scope_for io t (pass_repositories st) (pass_world st)")
  have q: "quiet_step good occupied made locked ceiling (pass_world st) w"
    using scope_for_quiet [of "pass_world st" t "pass_repositories st"] sc by simp
  have polled: "quiet_step good occupied made locked ceiling (pass_world st) w'" if "port_poll io s w = (x, w')" for s x w'
    using quiet_trans [OF q quiet_ports(1)] that by (metis snd_conv)
  show ?thesis
  proof (cases r)
    case (Inl e)
    then show ?thesis
      using safe_step [OF assms(1) [unfolded acc fst_conv] assms(2) q] by (simp add: poll_target_def acc sc pass_simps)
  next
    case (Inr s)
    obtain x w' where "port_poll io s w = (x, w')" by (cases "port_poll io s w")
    then show ?thesis
      using safe_step [OF assms(1) [unfolded acc fst_conv] assms(2) polled] Inr by (simp add: poll_target_def acc sc pass_simps)
  qed
qed

lemma route_safe: "safe bound (fst acc) \<Longrightarrow> safe bound (fst (route_reading policies pollable entry acc))"
  using safe_frame by (auto simp: route_reading_def Let_def pass_simps split: prod.splits poll_outcome.splits list.splits)

lemma serve_safe:
  assumes "serve_policies io h readings routed failed ps st = Some st'" "safe bound st" "ceiling \<le> bound"
  shows "safe bound st'"
  using assms(1,2)
proof (induction ps arbitrary: st)
  case (Cons p ps)
  obtain st1 where one: "serve_policy io h readings routed failed p st = Some st1"
    and rest: "serve_policies io h readings routed failed ps st1 = Some st'"
    using Cons.prems(1) by (auto simp: bind_eq_Some_conv)
  have "safe bound st1"
    using one Cons.prems(2) safe_frame [OF Cons.prems(2)] safe_step [OF Cons.prems(2) assms(3) allocate_only_quiet]
      start_runners_safe [OF _ _ assms(3)]
    by (auto simp: serve_policy_def pass_simps split: if_splits option.splits prod.splits sum.splits poll_outcome.splits)
  then show ?case using Cons.IH [OF rest] by blast
qed simp

lemma reconcile_safe:
  assumes run: "reconcile io policies rc w = Some (st', rc')" and start: "good w" "\<not> locked w" "made w = {}"
  shows "safe (max ceiling (card (occupied w))) st'"
proof -
  let ?B = "max ceiling (card (occupied w))"
  have bound: "ceiling \<le> ?B" by simp
  obtain st1 pollable failed where s1: "fold (supervise_policy io (rc_host rc)) policies (begin_pass rc w, [], []) = (st1, pollable, failed)"
    by (metis prod_cases3)
  obtain st2 readings where s2: "poll_targets io pollable st1 = (st2, readings)" by (cases "poll_targets io pollable st1")
  let ?st2 = "amend (\<lambda>r. r\<lparr>rr_targets_read := targets_read readings\<rparr>) st2"
  obtain st3 routed where s3: "fold (route_reading policies pollable) readings (?st2, []) = (st3, routed)"
    by (cases "fold (route_reading policies pollable) readings (?st2, [])")
  obtain st5 where s5: "serve_policies io (rc_host rc) readings routed failed policies (clean_terminal_attempts io st3) = Some st5"
    and st': "pass_world st' = pass_world st5" "pass_launched st' = pass_launched st5"
    using reconcile_phases [OF run s1 s2 s3] by blast
  have "safe ?B (fst (fold (supervise_policy io (rc_host rc)) policies (begin_pass rc w, [], [])))"
    using start by (intro fold_invariant [where Q = "\<lambda>_. True" and P = "\<lambda>acc. safe ?B (fst acc)"] supervise_safe bound)
      (simp_all add: safe_def begin_pass_def listed_def)
  then have "safe ?B st1" by (simp add: s1)
  then have "safe ?B (fst (fold (poll_target io) (targets_of pollable) (st1, [])))"
    by (intro fold_invariant [where Q = "\<lambda>_. True" and P = "\<lambda>acc. safe ?B (fst acc)"] poll_target_safe bound) simp_all
  then have "safe ?B ?st2" using s2 safe_frame by (auto simp: poll_targets_def pass_simps)
  then have "safe ?B (fst (fold (route_reading policies pollable) readings (?st2, [])))"
    by (intro fold_invariant [where Q = "\<lambda>_. True" and P = "\<lambda>acc. safe ?B (fst acc)"] route_safe) simp_all
  then have "safe ?B st3" by (simp add: s3)
  then have "safe ?B st5" using serve_safe [OF s5 clean_safe bound] bound by blast
  then show ?thesis using safe_frame st' by blast
qed

end

section \<open>The budget of one policy\<close>

text \<open>What the launch loop writes into the report.\<close>

lemma report_frame [pass_simps]:
  "rr_allocations (pass_report (report_allocation_failure e st)) = rr_allocations (pass_report st)"
  "rr_started (pass_report (report_allocation_failure e st)) = rr_started (pass_report st)"
  "rr_allocations (pass_report (deferred_grants i n st)) = rr_allocations (pass_report st)"
  "rr_started (pass_report (deferred_grants i n st)) = rr_started (pass_report st)"
  "rr_allocations (pass_report (started_one i a st)) = rr_allocations (pass_report st)"
  "rr_started (pass_report (started_one i a st)) = saturating_add (rr_started (pass_report st)) 1"
  "rr_allocations (pass_report (push_allocation al st)) = rr_allocations (pass_report st) @ [al]"
  "rr_started (pass_report (push_allocation al st)) = rr_started (pass_report st)"
  "rr_targets_read (pass_report (report_allocation_failure e st)) = rr_targets_read (pass_report st)"
  "rr_targets_read (pass_report (push_allocation al st)) = rr_targets_read (pass_report st)"
  by (cases e; simp add: report_unreadable_attempts_def deferred_grants_def started_one_def push_allocation_def
      emit_allocation_def pass_simps)+

definition started_counts :: "('s, 'w) pass \<Rightarrow> ('s, 'w) pass \<Rightarrow> runner_attempt list \<Rightarrow> bool" where
  "started_counts st st' new \<longleftrightarrow>
     pass_launched st' = pass_launched st @ new
     \<and> unat (rr_started (pass_report st')) = min (unat (rr_started (pass_report st)) + length new) 65535"

lemma started_counts_none:
  "pass_launched st' = pass_launched st \<Longrightarrow> rr_started (pass_report st') = rr_started (pass_report st) \<Longrightarrow> started_counts st st' []"
  using unat_lt_16 [of "rr_started (pass_report st)"] by (simp add: started_counts_def)

lemma started_counts_Cons:
  assumes "started_counts (started_one i a (in_world w st)) st' new"
  shows "started_counts st st' (a # new)"
  using assms unat_lt_16 [of "rr_started (pass_report st)"]
  by (auto simp: started_counts_def pass_simps unat_simps)

lemma start_loop_budget:
  assumes "start_loop io h p demand decided budget st = Some (d, st')"
  shows "\<exists>new. started_counts st st' new \<and> length new \<le> unat budget
    \<and> rr_allocations (pass_report st') = rr_allocations (pass_report st)
    \<and> (if decided = None then length new \<le> (case d of None \<Rightarrow> 0 | Some al \<Rightarrow> unat (alloc_to_start al)) else d = decided)"
  using assms
proof (induction "unat budget" arbitrary: decided budget st rule: less_induct)
  case less
  show ?case
  proof (cases "budget = 0")
    case True
    then show ?thesis
      using less.prems started_counts_none [of st st] by (auto simp: start_loop.simps intro!: exI [of _ "[]"])
  next
    case False
    from less.prems this show ?thesis
    proof (cases rule: start_loop_round)
      case (launched w al w1 a w2 budget')
      let ?st1 = "started_one (policy_id p) a (in_world (port_release io w2) st)"
      obtain new where new: "started_counts ?st1 st' new" "length new \<le> unat budget'"
        "rr_allocations (pass_report st') = rr_allocations (pass_report ?st1)" "d = (if decided = None then Some al else decided)"
        using less.hyps [OF launched(5) launched(7)] by auto
      then show ?thesis
        using started_counts_Cons [OF new(1)] launched(5,6) by (intro exI [of _ "a # new"]) (auto simp: pass_simps)
    qed (auto simp: pass_simps intro!: exI [of _ "[]"] started_counts_none split: option.splits)
  qed
qed

lemma start_runners_counts:
  assumes "start_runners io h p demand st = Some st'"
  shows "\<exists>new. started_counts st st' new"
proof -
  obtain r w where al: "allocate_only io h p demand (pass_launched st) (pass_world st) = Some (r, w)"
    using assms by (auto simp: start_runners_def split: option.splits)
  show ?thesis
  proof (cases r)
    case (Inl failure)
    then show ?thesis
      using assms al started_counts_none [of st' st] by (auto simp: start_runners_def pass_simps)
  next
    case (Inr intent)
    obtain d st1 where run: "start_loop io h p demand None (alloc_to_start intent) (in_world w st) = Some (d, st1)"
      and st': "st' = push_allocation (case d of Some al \<Rightarrow> al | None \<Rightarrow> intent) st1"
      using assms al Inr by (auto simp: start_runners_def)
    then show ?thesis
      using start_loop_budget [OF run] by (auto simp: started_counts_def pass_simps)
  qed
qed

section \<open>No pass panics\<close>

lemma allocate_only_total: "policy_storable p \<Longrightarrow> allocate_only io h p demand launched w \<noteq> None"
  using host_allocate_total [of p demand]
  by (auto simp: allocate_only_def split: sum.splits prod.splits) (metis option.distinct(1))

lemma start_loop_total: "policy_storable p \<Longrightarrow> start_loop io h p demand decided budget st \<noteq> None"
proof (induction "unat budget" arbitrary: decided budget st rule: less_induct)
  case less
  have less': "unat ((if decided = None then min budget b else budget) - 1) < unat budget"
    if "budget \<noteq> 0" "(if decided = None then min budget b else budget) \<noteq> 0" for b
    using that budget_spent(1) [OF that(1), of b] budget_spent(2) [OF that(1)] by (auto simp: unat_minus_one)
  obtain b w where acq: "port_acquire io (pass_world st) = (b, w)" by (cases "port_acquire io (pass_world st)")
  obtain r w1 where al: "allocate_only io h p demand (pass_launched st) w = Some (r, w1)"
    using allocate_only_total [OF less.prems] by fastforce
  obtain l w2 where l: "port_launch io h p w1 = (l, w2)" by (cases "port_launch io h p w1")
  show ?case
    using less.hyps [OF less' less.prems] acq al l
    by (subst start_loop.simps) (cases b; cases r; cases l; simp add: Let_def)
qed

lemma start_runners_total:
  assumes "policy_storable p"
  shows "start_runners io h p demand st \<noteq> None"
proof -
  obtain r w where al: "allocate_only io h p demand (pass_launched st) (pass_world st) = Some (r, w)"
    using allocate_only_total [OF assms] by fastforce
  then show ?thesis using start_loop_total [OF assms] by (cases r) (simp_all add: start_runners_def)
qed

lemma supervise_mono:
  "set (fst (snd acc)) \<subseteq> set (fst (snd (supervise_policy io h q acc)))"
  "set (snd (snd acc)) \<subseteq> set (snd (snd (supervise_policy io h q acc)))"
proof -
  obtain st pollable failed where acc: "acc = (st, pollable, failed)" by (cases acc)
  obtain r w where r: "port_supervise io q (pass_world st) = (r, w)" by (cases "port_supervise io q (pass_world st)")
  show "set (fst (snd acc)) \<subseteq> set (fst (snd (supervise_policy io h q acc)))"
    "set (snd (snd acc)) \<subseteq> set (snd (snd (supervise_policy io h q acc)))"
    by (cases r; simp add: supervise_policy_def acc r; blast)+
qed

lemma supervise_all_mono: "set (snd (snd acc)) \<subseteq> set (snd (snd (fold (supervise_policy io h) qs acc)))"
proof (induction qs arbitrary: acc)
  case (Cons q qs)
  show ?case using subset_trans [OF supervise_mono(2) [of acc io h q] Cons.IH] by simp
qed simp

lemma supervised_pollable:
  assumes "fold (supervise_policy io h) policies acc = (st, pollable, failed)"
    and "p \<in> set policies \<or> p \<in> set (fst (snd acc))" "owns_runners p" "is_owned_by p (host_id h)" "may_start_runners p"
    and "policy_id p \<notin> set failed"
  shows "p \<in> set pollable"
  using assms(1,2,6)
proof (induction policies arbitrary: acc)
  case (Cons q qs)
  obtain st0 pol0 fail0 where acc: "acc = (st0, pol0, fail0)" by (cases acc)
  let ?acc = "supervise_policy io h q acc"
  have failed: "set (snd (snd ?acc)) \<subseteq> set failed"
    using supervise_all_mono [of ?acc io h qs] Cons.prems(1) by simp
  have "p \<in> set qs \<or> p \<in> set (fst (snd ?acc))"
  proof (cases "p = q")
    case True
    then show ?thesis
      using assms(3-5) Cons.prems failed
      by (auto simp: supervise_policy_def acc split: prod.splits sum.splits)
  next
    case False
    then show ?thesis using Cons.prems(2) supervise_mono(1) [of acc io h q] by auto
  qed
  then show ?case using Cons.IH [of ?acc] Cons.prems by simp
qed auto

lemma btm_get_None_iff: "btm_get m k = None \<longleftrightarrow> k \<notin> fst ` set m"
  by (simp add: btm_get_def map_of_eq_None_iff)

lemma btm_get_mem: "btm_wf m \<Longrightarrow> (k, v) \<in> set m \<Longrightarrow> btm_get m k = Some v"
  unfolding btm_get_def btm_wf_def by (simp add: map_of_is_SomeI strict_sorted_iff)

lemma set_btm_insert_subset: "set (btm_insert k v m) \<subseteq> insert (k, v) (set m)"
  by (induction k v m rule: btm_insert.induct) auto

lemma keys_btm_fold: "fst ` set (fold (\<lambda>x. btm_insert (f x) (g x)) xs m) = f ` set xs \<union> fst ` set m"
  by (induction xs arbitrary: m) auto

text \<open>Every entry is stored under the key of the target it was read for.\<close>

definition keyed :: "(nat \<times> ustr \<times> ustr, 'v) btree_map \<Rightarrow> ('v \<Rightarrow> scale_target) \<Rightarrow> bool" where
  "keyed m tgt \<longleftrightarrow> btm_wf m \<and> (\<forall>(k, v) \<in> set m. k = target_key (tgt v))"

lemma keyed_insert: "keyed m tgt \<Longrightarrow> tgt v = t \<Longrightarrow> keyed (btm_insert (target_key t) v m) tgt"
  using set_btm_insert_subset [of "target_key t" v m] by (auto simp: keyed_def)

lemma targets_of_keys: "target_key ` set (targets_of pollable) = (\<lambda>p. target_key (policy_target p)) ` set pollable"
proof -
  let ?m = "fold (\<lambda>p. btm_insert (target_key (policy_target p)) (policy_target p)) pollable []"
  have "keyed ?m id"
    by (rule fold_invariant [where Q = "\<lambda>_. True" and P = "\<lambda>m. keyed m id"]) (simp_all add: keyed_insert, simp add: keyed_def)
  then have "target_key ` snd ` set ?m = fst ` set ?m" by (force simp: keyed_def)
  then show ?thesis by (simp add: targets_of_def keys_btm_fold)
qed

lemma poll_target_reads:
  assumes "keyed (snd acc) fst"
  shows "keyed (snd (poll_target io t acc)) fst \<and> fst ` set (snd (poll_target io t acc)) = insert (target_key t) (fst ` set (snd acc))"
  using assms by (auto simp: poll_target_def Let_def keyed_insert split: prod.splits sum.splits)

lemma poll_targets_reads:
  assumes "poll_targets io pollable st = (st', readings)"
  shows "keyed readings fst" "fst ` set readings = (\<lambda>p. target_key (policy_target p)) ` set pollable"
proof -
  have "keyed (snd (fold (poll_target io) ts acc)) fst
      \<and> fst ` set (snd (fold (poll_target io) ts acc)) = target_key ` set ts \<union> fst ` set (snd acc)" if "keyed (snd acc) fst" for ts acc
    using that by (induction ts arbitrary: acc) (use poll_target_reads [of _ io] in \<open>auto\<close>)
  from this [of "(st, [])" "targets_of pollable"]
  show "keyed readings fst" "fst ` set readings = (\<lambda>p. target_key (policy_target p)) ` set pollable"
    using assms by (simp_all add: poll_targets_def keyed_def targets_of_keys)
qed

lemma route_demand_keys: "fst ` set (fst (route_demand policies profiles reading)) = policy_id ` set profiles"
proof -
  have modify: "fst ` set (btm_modify k f m) = fst ` set m" for k f and m :: tallies
    by (metis keys_btm_modify set_map)
  have modify_all: "fst ` set (fold (\<lambda>i. btm_modify i take_back) ids ts) = fst ` set ts" for ids and ts :: tallies
    by (induction ids arbitrary: ts) (simp_all add: modify)
  have "fst ` set (fst (route_job owners job acc)) = fst ` set (fst acc)" for owners job acc
    by (simp add: route_job_def Let_def modify_all split: sum.split prod.split)
  then have "fst ` set (fst (fold (route_job owners) jobs acc)) = fst ` set (fst acc)" for owners jobs acc
    by (induction jobs arbitrary: acc) simp_all
  then show ?thesis by (cases profiles) (simp_all add: route_demand_def Let_def keys_btm_fold)
qed

lemma routed_reading:
  assumes "btm_wf readings" "(k, t, PollReady d) \<in> set readings"
  shows "btm_get (snd (fold (route_reading policies pollable) readings acc)) k =
    Some (fst (route_demand policies (filter (\<lambda>p. target_eq (policy_target p) t) pollable) d))"
proof -
  have dist: "distinct (map fst readings)" using assms(1) by (simp add: btm_wf_def strict_sorted_iff)
  have other: "btm_get (snd (route_reading policies pollable e acc)) k = btm_get (snd acc) k" if "fst e \<noteq> k" for e acc
    using that by (cases e) (auto simp: route_reading_def Let_def split: prod.splits poll_outcome.splits)
  have skip: "btm_get (snd (fold (route_reading policies pollable) es acc)) k = btm_get (snd acc) k" if "k \<notin> fst ` set es" for es acc
    using that by (induction es arbitrary: acc) (auto simp: other)
  obtain xs ys where split: "readings = xs @ (k, t, PollReady d) # ys" using assms(2) by (meson split_list)
  then have "k \<notin> fst ` set ys" using dist by auto
  then show ?thesis unfolding split by (simp add: skip) (simp add: route_reading_def Let_def split: prod.split)
qed

lemma serve_policies_total:
  assumes "\<And>p st. p \<in> set ps \<Longrightarrow> serve_policy io h readings routed failed p st \<noteq> None"
  shows "serve_policies io h readings routed failed ps st \<noteq> None"
  using assms
proof (induction ps arbitrary: st)
  case (Cons p ps)
  then obtain st1 where "serve_policy io h readings routed failed p st = Some st1" by fastforce
  then show ?case using Cons by simp
qed simp

text \<open>A policy that reaches the allocation phase was polled for, and what was read for it was routed.\<close>

lemma served_policy_total:
  assumes sup: "fold (supervise_policy io h) policies (begin_pass rc w, [], []) = (st1, pollable, failed)"
    and poll: "poll_targets io pollable st1 = (st2, readings)" and p: "p \<in> set policies" "policy_storable p"
  shows "serve_policy io h readings (snd (fold (route_reading policies pollable) readings acc)) failed p st \<noteq> None"
proof (cases "owns_runners p \<and> is_owned_by p (host_id h) \<and> may_start_runners p \<and> policy_id p \<notin> set failed")
  case True
  then have mem: "p \<in> set pollable" using supervised_pollable [OF sup] p(1) by blast
  let ?k = "target_key (policy_target p)"
  obtain t o' where get: "btm_get readings ?k = Some (t, o')"
    using poll_targets_reads(2) [OF poll] mem btm_get_None_iff [of readings ?k] by fastforce
  then have entry: "(?k, t, o') \<in> set readings" by (simp add: btm_get_def map_of_SomeD)
  then have "target_eq (policy_target p) t" using poll_targets_reads(1) [OF poll] by (auto simp: keyed_def target_eq_key)
  then have profile: "policy_id p \<in> policy_id ` set (filter (\<lambda>q. target_eq (policy_target q) t) pollable)" using mem by simp
  have wf: "btm_wf readings" using poll_targets_reads(1) [OF poll] by (simp add: keyed_def)
  show ?thesis
  proof (cases o')
    case (PollReady d)
    let ?ts = "fst (route_demand policies (filter (\<lambda>q. target_eq (policy_target q) t) pollable) d)"
    have "btm_get ?ts (policy_id p) \<noteq> None" using profile by (simp add: btm_get_None_iff route_demand_keys)
    moreover have "btm_get (snd (fold (route_reading policies pollable) readings acc)) ?k = Some ?ts"
      using routed_reading [OF wf entry [unfolded PollReady]] .
    ultimately show ?thesis
      using True start_runners_total [OF p(2)] by (auto simp: serve_policy_def get PollReady)
  qed (use True in \<open>simp add: serve_policy_def get\<close>)
next
  case False
  then show ?thesis
    using allocate_only_total [OF p(2), of io h 0 "pass_launched st" "pass_world st"]
    by (auto simp: serve_policy_def split: option.split sum.split)
qed

section \<open>A pass that reads nothing\<close>

definition unread :: "'s readings \<Rightarrow> bool" where
  "unread readings \<longleftrightarrow> (\<forall>e \<in> set readings. poll_reading (snd (snd e)) = None)"

lemma unread_insert: "unread m \<Longrightarrow> poll_reading o' = None \<Longrightarrow> unread (btm_insert k (t, o') m)"
  using set_btm_insert_subset [of k "(t, o')" m] by (auto simp: unread_def)

lemma unread_get: "unread readings \<Longrightarrow> btm_get readings k = Some (t, PollReady d) \<Longrightarrow> False"
  by (force simp: unread_def btm_get_def dest!: map_of_SomeD)

lemma serve_unread:
  assumes "unread readings"
    and "serve_policies io h readings routed failed ps st = Some st'"
  shows "pass_launched st' = pass_launched st \<and> rr_started (pass_report st') = rr_started (pass_report st)
    \<and> rr_targets_read (pass_report st') = rr_targets_read (pass_report st)"
  using assms(2)
proof (induction ps arbitrary: st)
  case (Cons p ps)
  obtain st1 where one: "serve_policy io h readings routed failed p st = Some st1"
    and rest: "serve_policies io h readings routed failed ps st1 = Some st'"
    using Cons.prems by (auto simp: bind_eq_Some_conv)
  have "pass_launched st1 = pass_launched st \<and> rr_started (pass_report st1) = rr_started (pass_report st)
    \<and> rr_targets_read (pass_report st1) = rr_targets_read (pass_report st)"
    using one by (auto simp: serve_policy_def pass_simps split: if_splits option.splits sum.splits poll_outcome.splits dest!: unread_get [OF assms(1)])
  then show ?case using Cons.IH [OF rest] by simp
qed simp

text \<open>What the phases before the allocation leave of the report and the launches.\<close>

definition untouched :: "('s, 'w) pass \<Rightarrow> bool" where
  "untouched st \<longleftrightarrow> pass_launched st = [] \<and> rr_started (pass_report st) = 0 \<and> rr_targets_read (pass_report st) = 0"

lemma untouched_phases:
  "untouched (begin_pass rc w)"
  "untouched (fst acc) \<Longrightarrow> untouched (fst (supervise_policy io h p acc))"
  "untouched (fst acc2) \<Longrightarrow> untouched (fst (poll_target io t acc2))"
  "untouched (fst acc3) \<Longrightarrow> untouched (fst (route_reading policies pollable entry acc3))"
  "untouched st \<Longrightarrow> untouched (clean_one io now a st)"
  by (auto simp: untouched_def begin_pass_def empty_report_def supervise_policy_def poll_target_def route_reading_def
      clean_one_def cleaned_one_def clean_failed_one_def report_unreadable_attempts_def Let_def pass_simps
      split: prod.splits sum.splits option.splits list.splits poll_outcome.splits)

lemma untouched_clean: "untouched st \<Longrightarrow> untouched (clean_terminal_attempts io st)"
  by (auto simp: clean_terminal_attempts_def split: prod.splits sum.splits
      intro!: fold_invariant [where Q = "\<lambda>_. True" and P = untouched] untouched_phases(5))
    (auto simp: untouched_def report_unreadable_attempts_def pass_simps)

lemma poll_targets_unread:
  assumes "\<forall>sc w. poll_reading (fst (port_poll io sc w)) = None" "poll_targets io pollable st = (st', readings)"
  shows "unread readings"
proof -
  have "unread (snd (poll_target io x acc))" if "unread (snd acc)" for x acc
    using that assms(1) by (auto simp: poll_target_def Let_def split: prod.splits sum.splits intro!: unread_insert) (metis fst_conv)
  then have "unread (snd (fold (poll_target io) (targets_of pollable) (st, [])))"
    by (intro fold_invariant [where Q = "\<lambda>_. True" and P = "\<lambda>acc. unread (snd acc)"]) (auto simp: unread_def)
  then show ?thesis using assms(2) by (simp add: poll_targets_def)
qed

section \<open>What cleanup may reach\<close>

lemma scale_down_one_clean_cong:
  assumes "attempt_policy_id a = policy_id p \<Longrightarrow> is_concluded (attempt_state a) \<Longrightarrow> f (attempt_id a) = port_clean io (attempt_id a)"
  shows "scale_down_one (io\<lparr>port_clean := f\<rparr>) p a st = scale_down_one io p a st"
  using assms by (simp add: scale_down_one_def Let_def)

lemma clean_one_clean_cong:
  assumes "is_concluded (attempt_state a) \<Longrightarrow> f (attempt_id a) = port_clean io (attempt_id a)"
  shows "clean_one (io\<lparr>port_clean := f\<rparr>) now a st = clean_one io now a st"
  using assms by (simp add: clean_one_def split: option.split)

definition live :: "attempt_state \<Rightarrow> bool" where
  "live s \<longleftrightarrow> s \<notin> {Busy, Finished, Failed, Orphaned, Cleaned}"

definition among :: "(runner_attempt \<Rightarrow> bool) \<Rightarrow> policy_id \<Rightarrow> runner_attempt list \<Rightarrow> nat" where
  "among P i as = length (filter (\<lambda>a. attempt_policy_id a = i \<and> P a) as)"

lemma scale_down_one_counts:
  fixes a :: runner_attempt and st :: "'w scaling" and p :: scale_policy and io :: "('s, 'w) ports"
  defines "r \<equiv> sc_report (scale_down_one io p a st)"
  shows "unat (sd_refused_busy r) = min (unat (sd_refused_busy (sc_report st)) + among (\<lambda>a. attempt_state a = Busy) (policy_id p) [a]) 65535"
    and "unat (sd_retained r) = min (unat (sd_retained (sc_report st)) + among (\<lambda>a. live (attempt_state a)) (policy_id p) [a]) 65535"
    and "sd_attempts_unreadable r = sd_attempts_unreadable (sc_report st)"
  using unat_lt_16 [of "sd_refused_busy (sc_report st)"] unat_lt_16 [of "sd_retained (sc_report st)"]
  unfolding r_def among_def scale_down_one_def
  by (cases "port_clean io (attempt_id a) (sc_world st)"; cases "fst (port_clean io (attempt_id a) (sc_world st))";
      simp add: live_def is_concluded_def Let_def unat_simps)+

lemma among_Cons: "among P i (a # as) = among P i [a] + among P i as"
  by (simp add: among_def)

lemma scale_down_counts:
  shows "unat (sd_refused_busy (sc_report (fold (scale_down_one io p) as st)))
      = min (unat (sd_refused_busy (sc_report st)) + among (\<lambda>a. attempt_state a = Busy) (policy_id p) as) 65535"
    and "unat (sd_retained (sc_report (fold (scale_down_one io p) as st)))
      = min (unat (sd_retained (sc_report st)) + among (\<lambda>a. live (attempt_state a)) (policy_id p) as) 65535"
    and "sd_attempts_unreadable (sc_report (fold (scale_down_one io p) as st)) = sd_attempts_unreadable (sc_report st)"
proof (induction as arbitrary: st)
  case Nil
  { case 1 then show ?case using unat_lt_16 [of "sd_refused_busy (sc_report st)"] by (simp add: among_def) }
  { case 2 then show ?case using unat_lt_16 [of "sd_retained (sc_report st)"] by (simp add: among_def) }
  { case 3 then show ?case by simp }
next
  case (Cons a as)
  { case 1 then show ?case unfolding fold_Cons o_apply Cons(1) scale_down_one_counts among_Cons [of _ _ a as] by simp }
  { case 2 then show ?case unfolding fold_Cons o_apply Cons(2) scale_down_one_counts among_Cons [of _ _ a as] by simp }
  { case 3 then show ?case unfolding fold_Cons o_apply Cons(3) scale_down_one_counts by simp }
qed

section \<open>A small host\<close>

text \<open>Ports over an in-memory list of attempts: GitHub is down, everything else works.\<close>

definition sample_ports :: "(unit, runner_attempt list) ports" where
  "sample_ports =
     \<lparr>port_poll = (\<lambda>sc w. (PollFailed Offline, w)),
      port_repositories = (\<lambda>o' w. (Inr [], w)),
      port_host_capacity = (\<lambda>h w. (Inr (host_capacity h), w)),
      port_supervise = (\<lambda>p w. (Inr [], w)),
      port_attempts = (\<lambda>w. (Inr w, w)),
      port_launch = (\<lambda>h p w. (Inr (sample_attempt (of_nat (length w))), w @ [sample_attempt (of_nat (length w))])),
      port_clean = (\<lambda>i w. (Inr (), filter (\<lambda>a. attempt_id a \<noteq> i) w)),
      port_acquire = (\<lambda>w. (True, w)), port_release = (\<lambda>w. w), port_now = (\<lambda>w. 100),
      port_jitter = (\<lambda>w. quarter_jitter), port_render = (\<lambda>e. [])\<rparr>"

lemma reconcile_total:
  assumes "\<forall>p \<in> set policies. policy_storable p"
  shows "\<exists>st rc'. reconcile io policies rc w = Some (st, rc')"
proof -
  obtain st1 pollable failed where s1: "fold (supervise_policy io (rc_host rc)) policies (begin_pass rc w, [], []) = (st1, pollable, failed)"
    by (metis prod_cases3)
  obtain st2 readings where s2: "poll_targets io pollable st1 = (st2, readings)" by (cases "poll_targets io pollable st1")
  let ?acc = "(amend (\<lambda>r. r\<lparr>rr_targets_read := targets_read readings\<rparr>) st2, [])"
  obtain st3 routed where s3: "fold (route_reading policies pollable) readings ?acc = (st3, routed)"
    by (cases "fold (route_reading policies pollable) readings ?acc")
  have "serve_policies io (rc_host rc) readings routed failed policies (clean_terminal_attempts io st3) \<noteq> None"
    using served_policy_total [OF s1 s2, of _ ?acc] assms s3 by (intro serve_policies_total) auto
  then show ?thesis by (auto simp: reconcile_def s1 s2 s3 case_prod_unfold Let_def)
qed

lemma no_panic_sample: "\<exists>st rc'. reconcile sample_ports [sample_policy] (reconciler_new sample_host) [] = Some (st, rc')"
  by (rule reconcile_total) (simp add: sample_policy_props)

section \<open>Properties\<close>

text \<open>What one policy may start in a pass is bounded twice. The launches of \<open>start_runners\<close> are counted
  exactly (saturating) in the report, there are at most as many as the unlocked pre-check allowed, and at most
  as many as the allocation that is reported, the one decided under the lock when there was one; when the
  pre-check could not be made nothing is launched.\<close>

theorem launches_within_budget:
  assumes "start_runners io h p demand st = Some st'"
  shows "\<exists>new. started_counts st st' new
    \<and> (case allocate_only io h p demand (pass_launched st) (pass_world st) of
         Some (Inr intent, w) \<Rightarrow> length new \<le> unat (alloc_to_start intent)
           \<and> (\<exists>al. rr_allocations (pass_report st') = rr_allocations (pass_report st) @ [al]
                 \<and> length new \<le> unat (alloc_to_start al))
       | _ \<Rightarrow> new = [] \<and> rr_allocations (pass_report st') = rr_allocations (pass_report st))"
proof -
  obtain r w where al: "allocate_only io h p demand (pass_launched st) (pass_world st) = Some (r, w)"
    using assms by (auto simp: start_runners_def split: option.splits)
  show ?thesis
  proof (cases r)
    case (Inl failure)
    then show ?thesis
      using assms al started_counts_none [of st' st] by (auto simp: start_runners_def pass_simps)
  next
    case (Inr intent)
    obtain d st1 where run: "start_loop io h p demand None (alloc_to_start intent) (in_world w st) = Some (d, st1)"
      and st': "st' = push_allocation (case d of Some al \<Rightarrow> al | None \<Rightarrow> intent) st1"
      using assms al Inr by (auto simp: start_runners_def)
    obtain new where "started_counts (in_world w st) st1 new" "length new \<le> unat (alloc_to_start intent)"
      "rr_allocations (pass_report st1) = rr_allocations (pass_report st)"
      "length new \<le> (case d of None \<Rightarrow> 0 | Some al \<Rightarrow> unat (alloc_to_start al))"
      using start_loop_budget [OF run] by (auto simp: pass_simps)
    then show ?thesis
      using al Inr st' by (intro exI [of _ new]) (auto simp: started_counts_def pass_simps split: option.splits)
  qed
qed

definition sample_pass :: "(unit, runner_attempt list) pass" where
  "sample_pass = begin_pass (reconciler_new sample_host) []"

theorem launches_within_budget_witness:
  "\<exists>st' new. start_runners sample_ports sample_host sample_policy 1 sample_pass = Some st' \<and> started_counts sample_pass st' new"
proof -
  obtain st' where run: "start_runners sample_ports sample_host sample_policy 1 sample_pass = Some st'"
    using start_runners_total [OF sample_policy_props(1), of sample_ports sample_host 1 sample_pass] by blast
  show ?thesis using launches_within_budget [OF run] run by blast
qed

text \<open>A pass always answers. For policies that satisfy the shape rules \<open>reconcile\<close> returns a report whatever
  the ports answer: the \<open>expect\<close> that every pollable profile was routed, and the clamp of the allocator, are
  never reached with a value that panics, and the launch loop ends.\<close>

theorem reconcile_never_panics:
  assumes "\<forall>p \<in> set policies. policy_storable p"
  shows "\<exists>st rc'. reconcile io policies rc w = Some (st, rc')"
  using reconcile_total [OF assms] .

theorem reconcile_never_panics_witness:
  "\<exists>st rc'. reconcile sample_ports [sample_policy] (reconciler_new sample_host) [] = Some (st, rc')"
  using reconcile_never_panics [of "[sample_policy]" sample_ports "reconciler_new sample_host" "[]"]
  by (simp add: sample_policy_props)

text \<open>C27. An outage is not an empty queue. When no poll of a pass is answered, the pass launches nothing, counts
  nothing as started, and reports that GitHub was not reached.\<close>

theorem outage_starts_nothing:
  assumes "reconcile io policies rc w = Some (st, rc')" "\<forall>sc w. poll_reading (fst (port_poll io sc w)) = None"
  shows "pass_launched st = [] \<and> rr_started (pass_report st) = 0 \<and> \<not> reached_github (pass_report st)"
proof -
  obtain st1 pollable failed where s1: "fold (supervise_policy io (rc_host rc)) policies (begin_pass rc w, [], []) = (st1, pollable, failed)"
    by (metis prod_cases3)
  obtain st2 readings where s2: "poll_targets io pollable st1 = (st2, readings)" by (cases "poll_targets io pollable st1")
  let ?acc = "(amend (\<lambda>r. r\<lparr>rr_targets_read := targets_read readings\<rparr>) st2, [])"
  obtain st3 routed where s3: "fold (route_reading policies pollable) readings ?acc = (st3, routed)"
    by (cases "fold (route_reading policies pollable) readings ?acc")
  obtain st5 where s5: "serve_policies io (rc_host rc) readings routed failed policies (clean_terminal_attempts io st3) = Some st5"
    and st: "st = fst (schedule_next io readings (rc_schedule rc) st5)"
    using reconcile_phases [OF assms(1) s1 s2 s3] by blast
  have none: "unread readings" using poll_targets_unread [OF assms(2) s2] .
  have "filter (\<lambda>o'. poll_reading o' \<noteq> None) (outcomes readings) = []"
    using none by (auto simp: outcomes_def unread_def filter_empty_conv)
  then have "targets_read readings = 0" unfolding targets_read_def by (simp add: saturating_of_nat_def)
  moreover have "untouched (fst (fold (supervise_policy io (rc_host rc)) policies (begin_pass rc w, [], [])))"
    by (intro fold_invariant [where Q = "\<lambda>_. True" and P = "\<lambda>acc. untouched (fst acc)"]) (simp_all add: untouched_phases)
  then have "untouched (fst (fold (poll_target io) (targets_of pollable) (st1, [])))"
    by (intro fold_invariant [where Q = "\<lambda>_. True" and P = "\<lambda>acc. untouched (fst acc)"]) (simp_all add: untouched_phases s1)
  ultimately have "untouched (fst ?acc)" using s2 by (simp add: untouched_def poll_targets_def pass_simps)
  then have "untouched (fst (fold (route_reading policies pollable) readings ?acc))"
    by (intro fold_invariant [where Q = "\<lambda>_. True" and P = "\<lambda>acc. untouched (fst acc)"]) (simp_all add: untouched_phases)
  then have "untouched (clean_terminal_attempts io st3)" using untouched_clean by (simp add: s3)
  then have "untouched st5" using serve_unread [OF none s5] by (simp add: untouched_def)
  then show ?thesis
    by (simp add: st untouched_def reached_github_def schedule_next_def Let_def case_prod_unfold pass_simps)
qed

theorem outage_starts_nothing_witness:
  "\<exists>st rc'. reconcile sample_ports [sample_policy] (reconciler_new sample_host) [] = Some (st, rc')
     \<and> pass_launched st = [] \<and> \<not> reached_github (pass_report st)"
proof -
  obtain st rc' where run: "reconcile sample_ports [sample_policy] (reconciler_new sample_host) [] = Some (st, rc')"
    by (metis no_panic_sample)
  have "\<forall>sc w. poll_reading (fst (port_poll sample_ports sc w)) = None" by (simp add: sample_ports_def)
  from outage_starts_nothing [OF run this] show ?thesis using run by blast
qed

text \<open>C28. Cleanup is not a way to stop a runner. Both the terminal sweep of a pass and a scale-down call the
  launcher's \<open>clean\<close> only for attempts that are concluded: what it would do to any other attempt changes neither
  the world nor the report, and a scale-down counts every busy attempt of the policy as refused and every other
  live one as retained.\<close>

theorem cleanup_spares_live_runners:
  assumes "port_attempts io w = (Inr as, w')"
    and "\<forall>a \<in> set as. is_concluded (attempt_state a) \<longrightarrow> f (attempt_id a) = port_clean io (attempt_id a)"
  shows "scale_down (io\<lparr>port_clean := f\<rparr>) p w = scale_down io p w
    \<and> (pass_world st = w \<longrightarrow> clean_terminal_attempts (io\<lparr>port_clean := f\<rparr>) st = clean_terminal_attempts io st)
    \<and> unat (sd_refused_busy (sc_report (scale_down io p w))) = min (among (\<lambda>a. attempt_state a = Busy) (policy_id p) as) 65535
    \<and> unat (sd_retained (sc_report (scale_down io p w))) = min (among (\<lambda>a. live (attempt_state a)) (policy_id p) as) 65535"
proof (intro conjI impI)
  show "scale_down (io\<lparr>port_clean := f\<rparr>) p w = scale_down io p w"
    using assms scale_down_one_clean_cong [of _ p f io]
    by (auto simp: scale_down_def intro!: fold_cong)
  show "clean_terminal_attempts (io\<lparr>port_clean := f\<rparr>) st = clean_terminal_attempts io st" if "pass_world st = w"
    using assms clean_one_clean_cong [of _ f io] that
    by (auto simp: clean_terminal_attempts_def intro!: fold_cong)
qed (simp_all add: scale_down_def assms(1) scale_down_counts empty_scale_down_def)

theorem cleanup_spares_live_runners_witness:
  "scale_down (sample_ports\<lparr>port_clean := \<lambda>i w. (Inl \<lparr>launch_reason = HostUnfit\<rparr>, [])\<rparr>) sample_policy [sample_attempt 1]
     = scale_down sample_ports sample_policy [sample_attempt 1]
   \<and> unat (sd_retained (sc_report (scale_down sample_ports sample_policy [sample_attempt 1]))) = 1"
  using cleanup_spares_live_runners [of sample_ports "[sample_attempt 1]" "[sample_attempt 1]" "[sample_attempt 1]"
      "\<lambda>i w. (Inl \<lparr>launch_reason = HostUnfit\<rparr>, [])" sample_policy]
  by (simp add: sample_ports_def sample_attempt_def allocate_def allocate_in_def is_concluded_def among_def live_def
      sample_policy_props)

end
