(* ===== verification/Store.thy ===== *)
theory Store
  imports Capacity
begin

text \<open>
  The durable state, \<open>crates/domain/src/store.rs\<close>: hosts, policies and the attempt journal, and every
  operation of the \<open>Store\<close> trait as \<open>SqliteStore\<close> implements it. A table is the list of its rows, a row
  the record of its columns; a write is \<open>store_error + database\<close>, where an error leaves the database as it
  was, since every write is one transaction. The text of a column (tokens, JSON, RFC 3339) is not modelled:
  a column holds the value its decoder gives, except where the loader validates the text again (names,
  labels, paths, slugs), which is kept as text. A failure of SQLite itself is the caller's business: it is
  a port of the launcher.
\<close>

section \<open>Data\<close>

datatype count_subject =
    PolicySubject policy_id
  | PolicyExecutionSubject policy_id
  | HostSubject host_id

text \<open>\<open>ProfileSelectorPanic\<close> stands for the \<open>expect\<close> inside \<open>derive_for_profile\<close>.\<close>

datatype store_error =
    Sqlite
  | StaleRevision policy_id u64 u64
  | ActiveCountChanged policy_id u16 u16
  | RunnerRootChanged host_id "ustr option" "ustr option"
  | UncleanedCountChanged count_subject u16 u16
  | ExecutionAllocationChanged attempt_id
  | SlotAlreadyLeased policy_id u16
  | HostNotFound host_id
  | PolicyNotFound policy_id
  | PolicyAlreadyExists policy_id
  | CorruptPolicy policy_id policy_error
  | CorruptProfileSelector policy_id
  | ProfileLabelConflict policy_id policy_id
  | ProfileSelectorConflict policy_id policy_id
  | ProfileHostMissing host_id
  | ProfileIdentityChanged policy_id
  | CorruptAttempt attempt_id attempt_error
  | CorruptHost host_id validation_error
  | CorruptHostWorkspace host_id workspace_error
  | CorruptColumn ustr ustr uuid
  | UnrepresentableInteger ustr u64
  | ProfileSelectorPanic

definition is_conflict :: "store_error \<Rightarrow> bool" where
  "is_conflict e =
     (case e of StaleRevision _ _ _ \<Rightarrow> True | ActiveCountChanged _ _ _ \<Rightarrow> True | RunnerRootChanged _ _ _ \<Rightarrow> True
      | UncleanedCountChanged _ _ _ \<Rightarrow> True | SlotAlreadyLeased _ _ \<Rightarrow> True | _ \<Rightarrow> False)"

record host_row =
  hr_id :: host_id
  hr_display_name :: ustr
  hr_os :: os
  hr_architecture :: arch
  hr_host_capacity :: u16
  hr_service_start_mode :: start_mode
  hr_refresh_interval_secs :: u16
  hr_runner_root_override :: "ustr option"
  hr_created_at :: timestamp

record policy_row =
  pr_id :: policy_id
  pr_target_scope :: target_scope
  pr_target_slug :: ustr
  pr_installation_id :: u64
  pr_host_id :: host_id
  pr_requested_host_label :: ustr
  pr_profile_name :: ustr
  pr_profile_selector :: "ustr option"
  pr_routing_labels :: "routing_labels option"
  pr_min_capacity :: u16
  pr_max_capacity :: "u16 option"
  pr_enabled :: bool
  pr_state :: policy_state
  pr_cache_policy :: cache_policy
  pr_workspace_mode :: workspace_kind
  pr_workspace_path :: "ustr option"
  pr_execution_policy :: execution_policy
  pr_revision :: u64

record database =
  db_hosts :: "host_row list"
  db_policies :: "policy_row list"
  db_attempts :: "persisted_attempt list"

datatype counted_attempts = ActiveAttempts | UncleanedAttempts

section \<open>Rows\<close>

definition I64_MAX :: u64 where "I64_MAX = 2 ^ 63 - 1"

definition u64_to_sql :: "ustr \<Rightarrow> u64 \<Rightarrow> store_error + unit" where
  "u64_to_sql what v = (if v \<le> I64_MAX then Inr () else Inl (UnrepresentableInteger what v))"

definition host_to_row :: "host \<Rightarrow> host_row" where
  "host_to_row h =
     \<lparr>hr_id = host_id h, hr_display_name = host_display_name h, hr_os = host_os h,
      hr_architecture = host_architecture h, hr_host_capacity = host_capacity h,
      hr_service_start_mode = host_service_start_mode h,
      hr_refresh_interval_secs = refresh_as_secs (host_refresh_interval h),
      hr_runner_root_override = map_option lap_text (host_runner_root_override h),
      hr_created_at = host_created_at h\<rparr>"

text \<open>\<open>Option::map\<close> and \<open>transpose\<close> over a fallible function.\<close>

definition try_option :: "('a \<Rightarrow> 'e + 'b) \<Rightarrow> 'a option \<Rightarrow> 'e + 'b option" where
  "try_option f x = (case x of None \<Rightarrow> Inr None | Some v \<Rightarrow> and_then (f v) (\<lambda>y. Inr (Some y)))"

definition host_from_row :: "path_platform \<Rightarrow> host_row \<Rightarrow> store_error + host" where
  "host_from_row platform r =
     (if hr_host_capacity r = 0 then Inl (CorruptColumn (lit ''hosts'') (lit ''host_capacity'') (hr_id r))
      else and_then (map_err (CorruptHostWorkspace (hr_id r)) (map_err InvalidPath
             (try_option (\<lambda>raw. parse_for raw platform) (hr_runner_root_override r)))) (\<lambda>root.
        and_then (map_err (CorruptHost (hr_id r))
          (host_new (hr_id r) (hr_display_name r) (hr_os r) (hr_architecture r) (hr_host_capacity r) (hr_created_at r))) (\<lambda>h.
        and_then (map_err (CorruptHost (hr_id r)) (refresh_from_secs (hr_refresh_interval_secs r))) (\<lambda>interval.
        Inr (h\<lparr>host_service_start_mode := hr_service_start_mode r, host_refresh_interval := interval,
               host_runner_root_override := root\<rparr>)))))"

definition policy_params :: "persisted_policy \<Rightarrow> store_error + policy_row" where
  "policy_params f =
     and_then (u64_to_sql (lit ''policies.installation_id'') (pp_installation_id f)) (\<lambda>_.
     and_then (u64_to_sql (lit ''policies.revision'') (pp_revision f)) (\<lambda>_.
     Inr \<lparr>pr_id = pp_id f, pr_target_scope = scope (pp_target f), pr_target_slug = slug (pp_target f),
          pr_installation_id = pp_installation_id f, pr_host_id = pp_host_id f,
          pr_requested_host_label = host_label_str (pp_requested_host_label f),
          pr_profile_name = profile_name_str (pp_profile_name f),
          pr_profile_selector = map_option (\<lambda>l. label_str (rl_host_label l)) (pp_routing_labels f),
          pr_routing_labels = pp_routing_labels f, pr_min_capacity = pp_min_capacity f,
          pr_max_capacity = pp_max_capacity f, pr_enabled = pp_enabled f, pr_state = pp_state f,
          pr_cache_policy = pp_cache_policy f, pr_workspace_mode = pp_workspace_kind f,
          pr_workspace_path = map_option lap_text (pp_workspace_root f),
          pr_execution_policy = pp_execution_policy f, pr_revision = pp_revision f\<rparr>))"

definition routing_labels_of :: "scale_policy \<Rightarrow> routing_labels option" where
  "routing_labels_of p = mode_routing_labels (policy_mode p)"

definition policy_from_row :: "path_platform \<Rightarrow> policy_row \<Rightarrow> store_error + scale_policy" where
  "policy_from_row platform r =
     and_then (map_err (CorruptPolicy (pr_id r)) (map_err Invalid
       (case pr_target_scope r of
          Repository \<Rightarrow> target_repository (pr_target_slug r)
        | Organization \<Rightarrow> target_organization (pr_target_slug r)))) (\<lambda>target.
     if pr_max_capacity r = Some 0 then Inl (CorruptColumn (lit ''policies'') (lit ''max_capacity'') (pr_id r))
     else if trim (pr_profile_name r) \<noteq> pr_profile_name r
     then Inl (CorruptColumn (lit ''policies'') (lit ''profile_name'') (pr_id r))
     else
     and_then (map_err (CorruptPolicy (pr_id r)) (map_err Invalid (host_label_new (pr_requested_host_label r)))) (\<lambda>requested.
     and_then (map_err (CorruptPolicy (pr_id r)) (map_err Invalid (profile_name_new (pr_profile_name r)))) (\<lambda>profile.
     and_then (map_err (CorruptPolicy (pr_id r)) (map_err WorkspaceRefused (map_err InvalidPath
       (try_option (\<lambda>raw. parse_for raw platform) (pr_workspace_path r))))) (\<lambda>root.
     and_then (map_err (CorruptPolicy (pr_id r)) (policy_from_persisted
       \<lparr>pp_id = pr_id r, pp_target = target, pp_installation_id = pr_installation_id r, pp_host_id = pr_host_id r,
        pp_requested_host_label = requested, pp_profile_name = profile, pp_routing_labels = pr_routing_labels r,
        pp_min_capacity = pr_min_capacity r, pp_max_capacity = pr_max_capacity r, pp_enabled = pr_enabled r,
        pp_state = pr_state r, pp_cache_policy = pr_cache_policy r, pp_workspace_kind = pr_workspace_mode r,
        pp_workspace_root = root, pp_execution_policy = pr_execution_policy r, pp_revision = pr_revision r\<rparr>)) (\<lambda>p.
     if pr_profile_selector r \<noteq> map_option (\<lambda>l. label_str (rl_host_label l)) (routing_labels_of p)
     then Inl (CorruptColumn (lit ''policies'') (lit ''profile_selector'') (pr_id r))
     else Inr p)))))"

text \<open>The repair of a clock that ran backwards, and of a cleaned native row without its process. The
  diagnostic counter of repairs is not modelled.\<close>

definition normalise :: "persisted_attempt \<Rightarrow> persisted_attempt" where
  "normalise f =
     (let f = (if pa_state f = Cleaned \<and> pa_execution f = Native None
               then f\<lparr>pa_execution := Native (pa_process_id f)\<rparr> else f);
          f = (if pa_last_state_change_at f < pa_created_at f
               then f\<lparr>pa_last_state_change_at := pa_created_at f\<rparr> else f)
      in case pa_terminal_at f of
           Some t \<Rightarrow> if t < pa_created_at f then f\<lparr>pa_terminal_at := Some (pa_created_at f)\<rparr> else f
         | None \<Rightarrow> f)"

definition attempt_params :: "persisted_attempt \<Rightarrow> store_error + unit" where
  "attempt_params f =
     (case pa_github_runner_id f of
        Some i \<Rightarrow> u64_to_sql (lit ''attempts.github_runner_id'') i
      | None \<Rightarrow> Inr ())"

definition attempt_from_row :: "persisted_attempt \<Rightarrow> store_error + runner_attempt" where
  "attempt_from_row f = map_err (CorruptAttempt (pa_id f)) (attempt_from_persisted (normalise f))"

section \<open>Predicates of the queries\<close>

definition uncleaned_row :: "persisted_attempt \<Rightarrow> bool" where
  "uncleaned_row r \<longleftrightarrow> pa_state r \<noteq> Cleaned"

definition active_row :: "persisted_attempt \<Rightarrow> bool" where
  "active_row r \<longleftrightarrow>
     pa_state r \<in> set (filter state_counts_against_capacity attempt_state_ALL)
     \<or> (\<not> execution_is_native (pa_execution r) \<and> uncleaned_row r)"

definition uncleaned_of_kind :: "workspace_kind \<Rightarrow> persisted_attempt \<Rightarrow> bool" where
  "uncleaned_of_kind k r \<longleftrightarrow> pa_workspace_kind r = k \<and> uncleaned_row r"

definition attempt_count :: "(persisted_attempt \<Rightarrow> bool) \<Rightarrow> database \<Rightarrow> u16" where
  "attempt_count P db = saturating_of_nat (length (filter P (db_attempts db)))"

fun counted_row :: "counted_attempts \<Rightarrow> persisted_attempt \<Rightarrow> bool" where
  "counted_row ActiveAttempts r = active_row r"
| "counted_row UncleanedAttempts r = uncleaned_row r"

definition count_for :: "counted_attempts \<Rightarrow> policy_id \<Rightarrow> database \<Rightarrow> u16" where
  "count_for c i = attempt_count (\<lambda>r. pa_policy_id r = i \<and> counted_row c r)"

fun count_changed :: "counted_attempts \<Rightarrow> policy_id \<Rightarrow> u16 \<Rightarrow> u16 \<Rightarrow> store_error" where
  "count_changed ActiveAttempts i expected found = ActiveCountChanged i expected found"
| "count_changed UncleanedAttempts i expected found = UncleanedCountChanged (PolicySubject i) expected found"

lemma unat_count_for [unat_simps]:
  "unat (count_for c i db) = min (length (filter (\<lambda>r. pa_policy_id r = i \<and> counted_row c r) (db_attempts db))) 65535"
  by (simp add: count_for_def attempt_count_def unat_simps)

section \<open>Hosts\<close>

definition find_row :: "('r \<Rightarrow> uuid) \<Rightarrow> uuid \<Rightarrow> 'r list \<Rightarrow> 'r option" where
  "find_row key i rows = List.find (\<lambda>r. key r = i) rows"

text \<open>\<open>INSERT .. ON CONFLICT(id) DO UPDATE\<close>.\<close>

definition upsert :: "('r \<Rightarrow> uuid) \<Rightarrow> ('r \<Rightarrow> 'r) \<Rightarrow> 'r \<Rightarrow> 'r list \<Rightarrow> 'r list" where
  "upsert key merge r rows =
     (if key r \<in> key ` set rows then map (\<lambda>s. if key s = key r then merge s else s) rows else rows @ [r])"

definition put_host :: "host \<Rightarrow> database \<Rightarrow> database" where
  "put_host h db = db\<lparr>db_hosts := upsert hr_id (\<lambda>_. host_to_row h) (host_to_row h) (db_hosts db)\<rparr>"

definition find_host :: "path_platform \<Rightarrow> host_id \<Rightarrow> database \<Rightarrow> store_error + host option" where
  "find_host platform i db = try_option (host_from_row platform) (find_row hr_id i (db_hosts db))"

definition hosts :: "path_platform \<Rightarrow> database \<Rightarrow> store_error + host list" where
  "hosts platform db = try_map (host_from_row platform) (sort_key (\<lambda>r. (hr_created_at r, hr_id r)) (db_hosts db))"

definition set_runner_root_override ::
  "host_id \<Rightarrow> local_absolute_path option \<Rightarrow> local_absolute_path option \<Rightarrow> u16 \<Rightarrow> database \<Rightarrow> store_error + database" where
  "set_runner_root_override i expected new_root expected_uncleaned db =
     (let found = attempt_count (uncleaned_of_kind EphemeralKind) db;
          expected_text = map_option lap_text expected
      in case find_row hr_id i (db_hosts db) of
           None \<Rightarrow> Inl (HostNotFound i)
         | Some r \<Rightarrow>
             if hr_runner_root_override r = expected_text \<and> expected_uncleaned = found
             then Inr (db\<lparr>db_hosts := map (\<lambda>s. if hr_id s = i
                            then s\<lparr>hr_runner_root_override := map_option lap_text new_root\<rparr> else s) (db_hosts db)\<rparr>)
             else if hr_runner_root_override r \<noteq> expected_text
             then Inl (RunnerRootChanged i expected_text (hr_runner_root_override r))
             else Inl (UncleanedCountChanged (HostSubject i) expected_uncleaned found))"

section \<open>Policies\<close>

definition same_target_row :: "scale_policy \<Rightarrow> policy_row \<Rightarrow> bool" where
  "same_target_row p r \<longleftrightarrow>
     pr_host_id r = policy_host_id p \<and> pr_target_scope r = scope (policy_target p)
     \<and> eq_ignore_ascii_case (pr_target_slug r) (slug (policy_target p))"

definition sibling_conflict :: "scale_policy \<Rightarrow> scale_policy \<Rightarrow> store_error + unit" where
  "sibling_conflict p sibling =
     (if policy_profile_name sibling = policy_profile_name p then Inr ()
      else case (routing_labels_of p, routing_labels_of sibling) of
        (Some own, Some other) \<Rightarrow>
          if rl_host_label own = rl_host_label other then Inl (ProfileSelectorConflict (policy_id p) (policy_id sibling))
          else if rl_host_label own \<in> set (rl_additional other) then Inl (ProfileLabelConflict (policy_id p) (policy_id sibling))
          else if rl_host_label other \<in> set (rl_additional own) then Inl (ProfileLabelConflict (policy_id p) (policy_id sibling))
          else Inr ()
      | _ \<Rightarrow> Inr ())"

definition check_selector :: "path_platform \<Rightarrow> database \<Rightarrow> scale_policy \<Rightarrow> store_error + unit" where
  "check_selector platform db p =
     (if profile_is_default (policy_profile_name p) then Inr ()
      else case find_row hr_id (policy_host_id p) (db_hosts db) of
        None \<Rightarrow> Inl (ProfileHostMissing (policy_host_id p))
      | Some r \<Rightarrow> and_then (host_from_row platform r) (\<lambda>h.
          case routing_labels_of p of
            None \<Rightarrow> Inr ()
          | Some found \<Rightarrow>
              (case derive_for_profile (policy_requested_host_label p) (host_os h) (host_architecture h) (policy_profile_name p) of
                 None \<Rightarrow> Inl ProfileSelectorPanic
               | Some expected \<Rightarrow>
                   if rl_host_label found \<noteq> rl_host_label expected then Inl (CorruptProfileSelector (policy_id p))
                   else Inr ())))"

definition validate_profile_in_target :: "path_platform \<Rightarrow> database \<Rightarrow> scale_policy \<Rightarrow> store_error + unit" where
  "validate_profile_in_target platform db p =
     and_then (check_selector platform db p) (\<lambda>_.
     and_then (try_map (\<lambda>r. and_then (policy_from_row platform r) (sibling_conflict p))
       (filter (\<lambda>r. same_target_row p r \<and> pr_id r \<noteq> policy_id p) (db_policies db))) (\<lambda>_. Inr ()))"

definition ensure_profile_identity :: "path_platform \<Rightarrow> database \<Rightarrow> scale_policy \<Rightarrow> store_error + unit" where
  "ensure_profile_identity platform db p =
     (case find_row pr_id (policy_id p) (db_policies db) of
        None \<Rightarrow> Inr ()
      | Some r \<Rightarrow> and_then (policy_from_row platform r) (\<lambda>stored.
          if policy_profile_name stored \<noteq> policy_profile_name p \<or> policy_host_id stored \<noteq> policy_host_id p
             \<or> \<not> target_eq (policy_target stored) (policy_target p)
             \<or> (routing_labels_of stored \<noteq> None
                \<and> map_option rl_host_label (routing_labels_of stored) \<noteq> map_option rl_host_label (routing_labels_of p))
          then Inl (ProfileIdentityChanged (policy_id p)) else Inr ()))"

definition ensure_execution_mutation_safe :: "path_platform \<Rightarrow> database \<Rightarrow> scale_policy \<Rightarrow> store_error + unit" where
  "ensure_execution_mutation_safe platform db p =
     (case find_row pr_id (policy_id p) (db_policies db) of
        None \<Rightarrow> Inr ()
      | Some r \<Rightarrow> and_then (policy_from_row platform r) (\<lambda>stored.
          if policy_execution_policy stored = policy_execution_policy p then Inr ()
          else let found = count_for UncleanedAttempts (policy_id p) db
               in if found \<noteq> 0 then Inl (UncleanedCountChanged (PolicyExecutionSubject (policy_id p)) 0 found) else Inr ()))"

definition conflict_or_missing :: "policy_id \<Rightarrow> u64 \<Rightarrow> database \<Rightarrow> store_error" where
  "conflict_or_missing i expected db =
     (case find_row pr_id i (db_policies db) of
        Some r \<Rightarrow> StaleRevision i expected (pr_revision r)
      | None \<Rightarrow> PolicyNotFound i)"

text \<open>The unique index \<open>one_profile_per_host_target\<close>.\<close>

definition profile_taken :: "policy_row \<Rightarrow> policy_row list \<Rightarrow> bool" where
  "profile_taken r rows \<longleftrightarrow>
     (\<exists>s \<in> set rows. pr_id s \<noteq> pr_id r \<and> pr_host_id s = pr_host_id r \<and> pr_target_scope s = pr_target_scope r
        \<and> eq_ignore_ascii_case (pr_target_slug s) (pr_target_slug r)
        \<and> eq_ignore_ascii_case (pr_profile_name s) (pr_profile_name r))"

definition insert_policy :: "path_platform \<Rightarrow> scale_policy \<Rightarrow> database \<Rightarrow> store_error + database" where
  "insert_policy platform p db =
     and_then (policy_params (policy_to_persisted p)) (\<lambda>r.
     and_then (validate_profile_in_target platform db p) (\<lambda>_.
     if pr_id r \<in> pr_id ` set (db_policies db) \<or> profile_taken r (db_policies db)
     then Inl (PolicyAlreadyExists (policy_id p))
     else Inr (db\<lparr>db_policies := db_policies db @ [r]\<rparr>)))"

definition replace_policy :: "policy_row \<Rightarrow> database \<Rightarrow> database" where
  "replace_policy r db = db\<lparr>db_policies := map (\<lambda>s. if pr_id s = pr_id r then r else s) (db_policies db)\<rparr>"

text \<open>The body the guarded writes share: \<open>agrees\<close> is the predicate of the \<open>WHERE\<close> clause beside the
  revision, \<open>diagnose\<close> what a write that matched no row reports.\<close>

definition write_policy ::
  "path_platform \<Rightarrow> (database \<Rightarrow> bool) \<Rightarrow> (store_error \<Rightarrow> store_error) \<Rightarrow> scale_policy \<Rightarrow> u64 \<Rightarrow> database \<Rightarrow> store_error + database" where
  "write_policy platform agrees diagnose p expected db =
     and_then (policy_params (policy_to_persisted p)) (\<lambda>r.
     and_then (u64_to_sql (lit ''the expected revision'') expected) (\<lambda>_.
     and_then (ensure_profile_identity platform db p) (\<lambda>_.
     and_then (ensure_execution_mutation_safe platform db p) (\<lambda>_.
     and_then (validate_profile_in_target platform db p) (\<lambda>_.
     case find_row pr_id (policy_id p) (db_policies db) of
       Some s \<Rightarrow>
         if pr_revision s = expected \<and> agrees db
         then (if profile_taken r (db_policies db) then Inl Sqlite else Inr (replace_policy r db))
         else Inl (diagnose (conflict_or_missing (policy_id p) expected db))
     | None \<Rightarrow> Inl (diagnose (conflict_or_missing (policy_id p) expected db)))))))"

definition update_policy :: "path_platform \<Rightarrow> scale_policy \<Rightarrow> u64 \<Rightarrow> database \<Rightarrow> store_error + database" where
  "update_policy platform = write_policy platform (\<lambda>_. True) id"

definition update_policy_confirming_count ::
  "path_platform \<Rightarrow> counted_attempts \<Rightarrow> scale_policy \<Rightarrow> u64 \<Rightarrow> u16 \<Rightarrow> database \<Rightarrow> store_error + database" where
  "update_policy_confirming_count platform c p expected expected_count db =
     write_policy platform (\<lambda>db. expected_count = count_for c (policy_id p) db)
       (\<lambda>e. case e of
          StaleRevision i ex found \<Rightarrow>
            if ex = found then count_changed c (policy_id p) expected_count (count_for c (policy_id p) db) else e
        | _ \<Rightarrow> e) p expected db"

definition update_policy_confirming_active_count :: "path_platform \<Rightarrow> scale_policy \<Rightarrow> u64 \<Rightarrow> u16 \<Rightarrow> database \<Rightarrow> store_error + database" where
  "update_policy_confirming_active_count platform = update_policy_confirming_count platform ActiveAttempts"

definition update_policy_confirming_uncleaned_count :: "path_platform \<Rightarrow> scale_policy \<Rightarrow> u64 \<Rightarrow> u16 \<Rightarrow> database \<Rightarrow> store_error + database" where
  "update_policy_confirming_uncleaned_count platform = update_policy_confirming_count platform UncleanedAttempts"

definition remove_policy :: "policy_id \<Rightarrow> u64 \<Rightarrow> database \<Rightarrow> store_error + database" where
  "remove_policy i expected db =
     and_then (u64_to_sql (lit ''the expected revision'') expected) (\<lambda>_.
     case find_row pr_id i (db_policies db) of
       Some s \<Rightarrow>
         if pr_revision s = expected then Inr (db\<lparr>db_policies := filter (\<lambda>r. pr_id r \<noteq> i) (db_policies db)\<rparr>)
         else Inl (conflict_or_missing i expected db)
     | None \<Rightarrow> Inl (conflict_or_missing i expected db))"

definition load_policy :: "path_platform \<Rightarrow> database \<Rightarrow> policy_row \<Rightarrow> store_error + scale_policy" where
  "load_policy platform db r =
     and_then (policy_from_row platform r) (\<lambda>p.
     and_then (validate_profile_in_target platform db p) (\<lambda>_. Inr p))"

definition find_policy :: "path_platform \<Rightarrow> policy_id \<Rightarrow> database \<Rightarrow> store_error + scale_policy option" where
  "find_policy platform i db = try_option (load_policy platform db) (find_row pr_id i (db_policies db))"

definition policies :: "path_platform \<Rightarrow> database \<Rightarrow> store_error + scale_policy list" where
  "policies platform db = try_map (load_policy platform db) (sort_key pr_id (db_policies db))"

section \<open>The attempt journal\<close>

text \<open>The unique index \<open>one_uncleaned_persistent_attempt_per_slot\<close>; NULL slots never collide.\<close>

definition leases :: "persisted_attempt \<Rightarrow> (policy_id \<times> u16) option" where
  "leases r = (if uncleaned_of_kind PersistentKind r then map_option (Pair (pa_policy_id r)) (pa_workspace_slot r) else None)"

definition slot_taken :: "persisted_attempt \<Rightarrow> persisted_attempt list \<Rightarrow> bool" where
  "slot_taken r rows \<longleftrightarrow> leases r \<noteq> None \<and> (\<exists>s \<in> set rows. pa_id s \<noteq> pa_id r \<and> leases s = leases r)"

text \<open>What a later write of the same attempt changes of its row.\<close>

definition merge_row :: "persisted_attempt \<Rightarrow> persisted_attempt \<Rightarrow> persisted_attempt" where
  "merge_row f old =
     f\<lparr>pa_workspace_kind := pa_workspace_kind old, pa_workspace_slot := pa_workspace_slot old,
       pa_created_at := pa_created_at old\<rparr>"

definition slot_lease_error :: "runner_attempt \<Rightarrow> store_error" where
  "slot_lease_error a =
     (case workspace_slot (attempt_workspace a) of
        Some slot \<Rightarrow> if holds_slot_lease a then SlotAlreadyLeased (attempt_policy_id a) slot else Sqlite
      | None \<Rightarrow> Sqlite)"

definition record_attempt :: "runner_attempt \<Rightarrow> database \<Rightarrow> store_error + database" where
  "record_attempt a db =
     (let f = normalise (attempt_to_persisted a) in
      and_then (attempt_params f) (\<lambda>_.
      let stored = find_row pa_id (pa_id f) (db_attempts db);
          row = (case stored of Some old \<Rightarrow> merge_row f old | None \<Rightarrow> f)
      in if (case stored of Some old \<Rightarrow> \<not> can_advance_to (pa_execution old) (pa_execution f) | None \<Rightarrow> False)
         then Inl (ExecutionAllocationChanged (pa_id f))
         else if slot_taken row (db_attempts db) then Inl (slot_lease_error a)
         else Inr (db\<lparr>db_attempts := upsert pa_id (merge_row f) f (db_attempts db)\<rparr>)))"

definition find_attempt :: "attempt_id \<Rightarrow> database \<Rightarrow> store_error + runner_attempt option" where
  "find_attempt i db = try_option attempt_from_row (find_row pa_id i (db_attempts db))"

definition attempts_where :: "(persisted_attempt \<Rightarrow> bool) \<Rightarrow> database \<Rightarrow> store_error + runner_attempt list" where
  "attempts_where P db =
     try_map attempt_from_row (sort_key (\<lambda>r. (pa_created_at r, pa_id r)) (filter P (db_attempts db)))"

definition attempts :: "database \<Rightarrow> store_error + runner_attempt list" where
  "attempts = attempts_where (\<lambda>_. True)"

definition attempts_for_policy :: "policy_id \<Rightarrow> database \<Rightarrow> store_error + runner_attempt list" where
  "attempts_for_policy i = attempts_where (\<lambda>r. pa_policy_id r = i)"

definition active_attempts_for_policy :: "policy_id \<Rightarrow> database \<Rightarrow> store_error + runner_attempt list" where
  "active_attempts_for_policy i = attempts_where (\<lambda>r. pa_policy_id r = i \<and> active_row r)"

definition uncleaned_attempts_for_policy :: "policy_id \<Rightarrow> database \<Rightarrow> store_error + runner_attempt list" where
  "uncleaned_attempts_for_policy i = attempts_where (\<lambda>r. pa_policy_id r = i \<and> uncleaned_row r)"

definition slot_leases_for_policy :: "policy_id \<Rightarrow> database \<Rightarrow> store_error + runner_attempt list" where
  "slot_leases_for_policy i = attempts_where (\<lambda>r. pa_policy_id r = i \<and> uncleaned_of_kind PersistentKind r)"

definition uncleaned_ephemeral_attempts :: "database \<Rightarrow> store_error + runner_attempt list" where
  "uncleaned_ephemeral_attempts = attempts_where (uncleaned_of_kind EphemeralKind)"

definition remove_attempt :: "attempt_id \<Rightarrow> database \<Rightarrow> bool \<times> database" where
  "remove_attempt i db =
     (i \<in> pa_id ` set (db_attempts db), db\<lparr>db_attempts := filter (\<lambda>r. pa_id r \<noteq> i) (db_attempts db)\<rparr>)"

section \<open>Tables\<close>

lemma find_row_Some: "find_row key i rows = Some r \<Longrightarrow> r \<in> set rows \<and> key r = i"
  by (auto simp: find_row_def find_Some_iff)

lemma find_row_None: "find_row key i rows = None \<longleftrightarrow> i \<notin> key ` set rows"
  by (auto simp: find_row_def find_None_iff)

lemma find_row_Cons: "find_row key i (r # rows) = (if key r = i then Some r else find_row key i rows)"
  by (simp add: find_row_def)

lemma find_row_unique: "distinct (map key rows) \<Longrightarrow> r \<in> set rows \<Longrightarrow> find_row key (key r) rows = Some r"
  by (induction rows) (auto simp: find_row_Cons)

lemma find_row_map_update:
  assumes "\<And>s. key s = j \<Longrightarrow> key (f s) = j"
  shows "find_row key i (map (\<lambda>s. if key s = j then f s else s) rows)
    = (if i = j then map_option f (find_row key i rows) else find_row key i rows)"
  using assms by (induction rows) (auto simp: find_row_def)

lemma find_row_append_new: "i \<notin> key ` set rows \<Longrightarrow> find_row key i (rows @ [r]) = (if key r = i then Some r else None)"
  by (induction rows) (auto simp: find_row_def)

lemma find_row_append_other: "key r \<noteq> i \<Longrightarrow> find_row key i (rows @ [r]) = find_row key i rows"
  by (induction rows) (auto simp: find_row_def)

lemma find_row_filter: "i \<noteq> j \<Longrightarrow> find_row key i (filter (\<lambda>r. key r \<noteq> j) rows) = find_row key i rows"
  by (induction rows) (auto simp: find_row_def)

lemma find_upsert:
  assumes "\<And>s. key (merge s) = key r"
  shows "find_row key i (upsert key merge r rows) =
    (if i = key r then Some (case find_row key i rows of Some s \<Rightarrow> merge s | None \<Rightarrow> r) else find_row key i rows)"
proof (cases "key r \<in> key ` set rows")
  case True
  then obtain s where "find_row key (key r) rows = Some s" using find_row_None by fastforce
  then show ?thesis
    using True find_row_map_update [of key "key r" merge i rows] assms by (auto simp: upsert_def)
next
  case False
  then show ?thesis
    using find_row_append_new [of i key rows r] find_row_append_other [of key r i rows] find_row_None [of key i rows]
    by (auto simp: upsert_def)
qed

lemma keys_upsert:
  assumes "\<And>s. key (merge s) = key r"
  shows "map key (upsert key merge r rows) = (if key r \<in> key ` set rows then map key rows else map key rows @ [key r])"
proof -
  have "map key (map (\<lambda>s. if key s = key r then merge s else s) rows) = map key rows"
    using assms by (simp add: comp_def if_distrib cong: if_cong)
  then show ?thesis by (simp add: upsert_def)
qed

lemma set_upsert_distinct:
  assumes "distinct (map key rows)" "\<And>s. key (merge s) = key r"
  shows "set (upsert key merge r rows)
    = {s \<in> set rows. key s \<noteq> key r} \<union> {case find_row key (key r) rows of Some s \<Rightarrow> merge s | None \<Rightarrow> r}"
proof (cases "find_row key (key r) rows")
  case None
  then have new: "key r \<notin> key ` set rows" using find_row_None [of key "key r" rows] by simp
  then have "key s \<noteq> key r" if "s \<in> set rows" for s using that by (metis imageI)
  then have "{s \<in> set rows. key s \<noteq> key r} = set rows" by blast
  then show ?thesis using new by (simp add: upsert_def None)
next
  case (Some s)
  then have s: "s \<in> set rows" "key s = key r" using find_row_Some [OF Some] by auto
  then have one: "t = s" if "t \<in> set rows" "key t = key r" for t
    using find_row_unique [OF assms(1) that(1)] that(2) Some by simp
  have "key r \<in> key ` set rows" using s by (metis imageI)
  then have "set (upsert key merge r rows) = (\<lambda>s. if key s = key r then merge s else s) ` set rows" by (simp add: upsert_def)
  also have "\<dots> = {s \<in> set rows. key s \<noteq> key r} \<union> merge ` {s \<in> set rows. key s = key r}" by (auto simp: image_iff)
  also have "{s \<in> set rows. key s = key r} = {s}" using s one by blast
  finally show ?thesis by (simp add: Some)
qed

section \<open>Loaded attempts\<close>

lemma normalise_frame [simp]:
  "pa_id (normalise f) = pa_id f" "pa_policy_id (normalise f) = pa_policy_id f" "pa_state (normalise f) = pa_state f"
  "pa_workspace_kind (normalise f) = pa_workspace_kind f" "pa_workspace_slot (normalise f) = pa_workspace_slot f"
  "pa_created_at (normalise f) = pa_created_at f" "pa_github_runner_id (normalise f) = pa_github_runner_id f"
  "pa_outcome (normalise f) = pa_outcome f" "pa_process_id (normalise f) = pa_process_id f"
  "pa_runtime_path (normalise f) = pa_runtime_path f"
  "execution_is_native (pa_execution (normalise f)) = execution_is_native (pa_execution f)"
  by (simp_all add: normalise_def Let_def split: option.split)

lemma merge_row_frame [simp]:
  "pa_id (merge_row f old) = pa_id f" "pa_policy_id (merge_row f old) = pa_policy_id f" "pa_state (merge_row f old) = pa_state f"
  "pa_workspace_kind (merge_row f old) = pa_workspace_kind old" "pa_workspace_slot (merge_row f old) = pa_workspace_slot old"
  "pa_created_at (merge_row f old) = pa_created_at old" "pa_execution (merge_row f old) = pa_execution f"
  by (simp_all add: merge_row_def)

lemma to_persisted_frame [simp]:
  "pa_id (attempt_to_persisted a) = attempt_id a" "pa_policy_id (attempt_to_persisted a) = attempt_policy_id a"
  "pa_state (attempt_to_persisted a) = attempt_state a" "pa_execution (attempt_to_persisted a) = attempt_execution a"
  "pa_created_at (attempt_to_persisted a) = created_at a"
  "pa_workspace_kind (attempt_to_persisted a) = attempt_workspace_kind (attempt_workspace a)"
  "pa_workspace_slot (attempt_to_persisted a) = workspace_slot (attempt_workspace a)"
  "pa_github_runner_id (attempt_to_persisted a) = github_runner_id a"
  by (simp_all add: attempt_to_persisted_def)

lemma active_row_iff:
  "active_row r \<longleftrightarrow> state_counts_against_capacity (pa_state r) \<or> (\<not> execution_is_native (pa_execution r) \<and> pa_state r \<noteq> Cleaned)"
proof -
  have "s \<in> set attempt_state_ALL" for s by (cases s) (simp_all add: attempt_state_ALL_def)
  then show ?thesis by (auto simp: active_row_def uncleaned_row_def)
qed

lemma active_row_written [simp]: "active_row (normalise (attempt_to_persisted a)) = counts_against_capacity a"
  "active_row (merge_row (normalise (attempt_to_persisted a)) old) = counts_against_capacity a"
  by (simp_all add: active_row_iff counts_against_capacity_def)

lemma loaded_row:
  assumes "attempt_from_row r = Inr a"
  shows "attempt_to_persisted a = normalise r" "attempt_storable a" "attempt_id a = pa_id r" "attempt_policy_id a = pa_policy_id r"
    "attempt_state a = pa_state r" "counts_against_capacity a = active_row r"
    "holds_slot_lease a = uncleaned_of_kind PersistentKind r"
    "created_at a = pa_created_at r" "workspace_slot (attempt_workspace a) = pa_workspace_slot r"
    "attempt_workspace_kind (attempt_workspace a) = pa_workspace_kind r"
proof -
  have load: "attempt_from_persisted (normalise r) = Inr a" using assms by (simp add: attempt_from_row_def)
  show row: "attempt_to_persisted a = normalise r" using attempt_row.store_load [OF load] .
  show "attempt_storable a" using attempt_row.load_storable [OF load] .
  show "attempt_id a = pa_id r" "attempt_policy_id a = pa_policy_id r" and state: "attempt_state a = pa_state r"
    and "created_at a = pa_created_at r" "workspace_slot (attempt_workspace a) = pa_workspace_slot r"
    and kind: "attempt_workspace_kind (attempt_workspace a) = pa_workspace_kind r"
    using arg_cong [OF row, of pa_id] arg_cong [OF row, of pa_policy_id] arg_cong [OF row, of pa_state]
      arg_cong [OF row, of pa_created_at] arg_cong [OF row, of pa_workspace_slot] arg_cong [OF row, of pa_workspace_kind]
    by simp_all
  have "execution_is_native (attempt_execution a) = execution_is_native (pa_execution r)"
    using arg_cong [OF row, of "\<lambda>f. execution_is_native (pa_execution f)"] by simp
  then show "counts_against_capacity a = active_row r"
    using state by (simp add: active_row_iff counts_against_capacity_def)
  show "holds_slot_lease a = uncleaned_of_kind PersistentKind r"
    using state kind by (cases "attempt_workspace a")
      (auto simp: holds_slot_lease_def uncleaned_of_kind_def uncleaned_row_def attempt_workspace_is_persistent_def kind_is_persistent_def)
qed

text \<open>The attempt a journal write stores: its timestamps no earlier than its allocation.\<close>

definition clamp_times :: "runner_attempt \<Rightarrow> runner_attempt" where
  "clamp_times a =
     a\<lparr>last_state_change_at := max (created_at a) (last_state_change_at a),
       terminal_at := map_option (max (created_at a)) (terminal_at a)\<rparr>"

lemma normalise_written:
  assumes "check_identity (attempt_execution a) (process_id a) = Inr ()"
  shows "normalise (attempt_to_persisted a) = attempt_to_persisted (clamp_times a)"
proof -
  have "attempt_execution a = Native None \<Longrightarrow> process_id a = None" using assms by (auto split: if_splits)
  then show ?thesis
    by (cases "terminal_at a") (auto simp: normalise_def attempt_to_persisted_def clamp_times_def Let_def max_def)
qed

section \<open>The invariant of the database\<close>

definition db_wf :: "database \<Rightarrow> bool" where
  "db_wf db \<longleftrightarrow>
     distinct (map hr_id (db_hosts db)) \<and> distinct (map pr_id (db_policies db)) \<and> distinct (map pa_id (db_attempts db))
     \<and> (\<forall>r \<in> set (db_policies db). \<not> profile_taken r (db_policies db))
     \<and> (\<forall>r \<in> set (db_attempts db). \<not> slot_taken r (db_attempts db))"

datatype store_op =
    PutHost host
  | SetRunnerRootOverride host_id "local_absolute_path option" "local_absolute_path option" u16
  | InsertPolicy scale_policy
  | UpdatePolicy scale_policy u64
  | UpdatePolicyConfirming counted_attempts scale_policy u64 u16
  | RemovePolicy policy_id u64
  | RecordAttempt runner_attempt
  | RemoveAttempt attempt_id

fun store_apply :: "path_platform \<Rightarrow> store_op \<Rightarrow> database \<Rightarrow> store_error + database" where
  "store_apply platform (PutHost h) db = Inr (put_host h db)"
| "store_apply platform (SetRunnerRootOverride i e n c) db = set_runner_root_override i e n c db"
| "store_apply platform (InsertPolicy p) db = insert_policy platform p db"
| "store_apply platform (UpdatePolicy p n0) db = update_policy platform p n0 db"
| "store_apply platform (UpdatePolicyConfirming c p n0 n) db = update_policy_confirming_count platform c p n0 n db"
| "store_apply platform (RemovePolicy i n0) db = remove_policy i n0 db"
| "store_apply platform (RecordAttempt a) db = record_attempt a db"
| "store_apply platform (RemoveAttempt i) db = Inr (snd (remove_attempt i db))"

text \<open>A sequence of writes; a refused one leaves the database as it was.\<close>

definition store_run :: "path_platform \<Rightarrow> store_op list \<Rightarrow> database \<Rightarrow> database" where
  "store_run platform ops db = fold (\<lambda>op db. case store_apply platform op db of Inr db' \<Rightarrow> db' | Inl _ \<Rightarrow> db) ops db"

definition empty_database :: database where
  "empty_database = \<lparr>db_hosts = [], db_policies = [], db_attempts = []\<rparr>"

lemma write_policy_Inr:
  assumes "write_policy platform agrees diagnose p expected db = Inr db'"
  obtains r s where "policy_params (policy_to_persisted p) = Inr r" "pr_id r = policy_id p"
    "find_row pr_id (policy_id p) (db_policies db) = Some s" "pr_revision s = expected" "agrees db"
    "\<not> profile_taken r (db_policies db)" "db' = replace_policy r db"
    "ensure_profile_identity platform db p = Inr ()" "ensure_execution_mutation_safe platform db p = Inr ()"
    "validate_profile_in_target platform db p = Inr ()"
  using assms that
  by (auto simp: write_policy_def policy_params_def policy_to_persisted_def split: option.splits if_splits)

text \<open>Two rows collide symmetrically, so a new row that collides with none keeps the index.\<close>

definition profile_clash :: "policy_row \<Rightarrow> policy_row \<Rightarrow> bool" where
  "profile_clash r s \<longleftrightarrow> profile_taken r [s]"

lemma profile_taken_iff: "profile_taken r rows \<longleftrightarrow> (\<exists>s \<in> set rows. profile_clash r s)"
  by (simp add: profile_clash_def profile_taken_def)

lemma profile_clash_sym: "profile_clash r s \<Longrightarrow> profile_clash s r"
  by (auto simp: profile_clash_def profile_taken_def eq_ignore_ascii_case_def)

lemma profile_clash_irrefl: "\<not> profile_clash r r"
  by (simp add: profile_clash_def profile_taken_def)

definition slot_clash :: "persisted_attempt \<Rightarrow> persisted_attempt \<Rightarrow> bool" where
  "slot_clash r s \<longleftrightarrow> slot_taken r [s]"

lemma slot_taken_iff: "slot_taken r rows \<longleftrightarrow> (\<exists>s \<in> set rows. slot_clash r s)"
  by (auto simp: slot_clash_def slot_taken_def)

lemma slot_clash_sym: "slot_clash r s \<Longrightarrow> slot_clash s r"
  by (auto simp: slot_clash_def slot_taken_def)

lemma slot_clash_irrefl: "\<not> slot_clash r r"
  by (simp add: slot_clash_def slot_taken_def)

text \<open>Adding or replacing a row that collides with none of the others keeps a symmetric index.\<close>

lemma index_kept:
  assumes old: "\<forall>r \<in> S. \<forall>s \<in> S. \<not> clash r s" and new: "\<forall>s \<in> S. \<not> clash x s"
    and sym: "\<And>r s. clash r s \<Longrightarrow> clash s r" and irrefl: "\<not> clash x x" and sub: "T \<subseteq> insert x S"
  shows "\<forall>r \<in> T. \<forall>s \<in> T. \<not> clash r s"
  using assms by (metis (no_types, opaque_lifting) insertE subsetD)

lemma replace_policy_set:
  "set (db_policies (replace_policy r db)) \<subseteq> insert r (set (db_policies db))"
  "map pr_id (db_policies (replace_policy r db)) = map pr_id (db_policies db)"
  "db_hosts (replace_policy r db) = db_hosts db" "db_attempts (replace_policy r db) = db_attempts db"
  by (auto simp: replace_policy_def)

lemma write_policy_wf: "write_policy platform agrees diagnose p expected db = Inr db' \<Longrightarrow> db_wf db \<Longrightarrow> db_wf db'"
proof -
  assume wf: "db_wf db" and w: "write_policy platform agrees diagnose p expected db = Inr db'"
  obtain r where r: "\<not> profile_taken r (db_policies db)" "db' = replace_policy r db" using write_policy_Inr [OF w] by metis
  have "\<forall>r \<in> set (db_policies db'). \<forall>s \<in> set (db_policies db'). \<not> profile_clash r s"
    by (rule index_kept [where x = r and S = "set (db_policies db)", OF _ _ profile_clash_sym profile_clash_irrefl])
      (use wf r replace_policy_set(1) [of r db] in \<open>simp_all add: db_wf_def profile_taken_iff\<close>)
  then show ?thesis using wf by (simp add: db_wf_def r(2) replace_policy_set(2-4) profile_taken_iff)
qed

lemma insert_policy_wf: "insert_policy platform p db = Inr db' \<Longrightarrow> db_wf db \<Longrightarrow> db_wf db'"
proof -
  assume wf: "db_wf db" and "insert_policy platform p db = Inr db'"
  then obtain r where r: "pr_id r \<notin> pr_id ` set (db_policies db)" "\<not> profile_taken r (db_policies db)"
    "db' = db\<lparr>db_policies := db_policies db @ [r]\<rparr>"
    by (auto simp: insert_policy_def split: if_splits)
  have "\<forall>r \<in> set (db_policies db'). \<forall>s \<in> set (db_policies db'). \<not> profile_clash r s"
    by (rule index_kept [where x = r and S = "set (db_policies db)", OF _ _ profile_clash_sym profile_clash_irrefl])
      (use wf r in \<open>simp_all add: db_wf_def profile_taken_iff\<close>)
  then show ?thesis using wf r by (simp add: db_wf_def profile_taken_iff)
qed

text \<open>What a journal write that is accepted does to the table.\<close>

definition row_of :: "runner_attempt \<Rightarrow> database \<Rightarrow> persisted_attempt" where
  "row_of a db =
     (let f = normalise (attempt_to_persisted a)
      in case find_row pa_id (attempt_id a) (db_attempts db) of Some old \<Rightarrow> merge_row f old | None \<Rightarrow> f)"

lemma row_of_frame [simp]:
  "pa_id (row_of a db) = attempt_id a" "pa_policy_id (row_of a db) = attempt_policy_id a"
  "pa_state (row_of a db) = attempt_state a" "active_row (row_of a db) = counts_against_capacity a"
  by (simp_all add: row_of_def Let_def split: option.split)

lemma record_attempt_Inr:
  assumes "record_attempt a db = Inr db'"
  shows "db' = db\<lparr>db_attempts := upsert pa_id (merge_row (normalise (attempt_to_persisted a)))
                     (normalise (attempt_to_persisted a)) (db_attempts db)\<rparr>"
    and "\<not> slot_taken (row_of a db) (db_attempts db)"
    and "\<And>old. find_row pa_id (attempt_id a) (db_attempts db) = Some old \<Longrightarrow> can_advance_to (pa_execution old) (pa_execution (row_of a db))"
    and "\<And>i. find_row pa_id i (db_attempts db') = (if i = attempt_id a then Some (row_of a db) else find_row pa_id i (db_attempts db))"
    and "map pa_id (db_attempts db') = (if attempt_id a \<in> pa_id ` set (db_attempts db) then map pa_id (db_attempts db)
           else map pa_id (db_attempts db) @ [attempt_id a])"
    and "distinct (map pa_id (db_attempts db)) \<Longrightarrow>
      set (db_attempts db') = insert (row_of a db) {s \<in> set (db_attempts db). pa_id s \<noteq> attempt_id a}"
proof -
  let ?f = "normalise (attempt_to_persisted a)"
  show db': "db' = db\<lparr>db_attempts := upsert pa_id (merge_row ?f) ?f (db_attempts db)\<rparr>"
    and "\<not> slot_taken (row_of a db) (db_attempts db)"
    and "\<And>old. find_row pa_id (attempt_id a) (db_attempts db) = Some old \<Longrightarrow> can_advance_to (pa_execution old) (pa_execution (row_of a db))"
    using assms by (auto simp: record_attempt_def Let_def row_of_def split: if_splits option.splits)
  show "find_row pa_id i (db_attempts db') = (if i = attempt_id a then Some (row_of a db) else find_row pa_id i (db_attempts db))" for i
    using find_upsert [of pa_id "merge_row ?f" ?f i "db_attempts db"] by (simp add: db' row_of_def Let_def)
  show "map pa_id (db_attempts db') = (if attempt_id a \<in> pa_id ` set (db_attempts db) then map pa_id (db_attempts db)
      else map pa_id (db_attempts db) @ [attempt_id a])"
    using keys_upsert [of pa_id "merge_row ?f" ?f "db_attempts db"] by (simp add: db')
  show "set (db_attempts db') = insert (row_of a db) {s \<in> set (db_attempts db). pa_id s \<noteq> attempt_id a}"
    if "distinct (map pa_id (db_attempts db))"
    using set_upsert_distinct [OF that, of "merge_row ?f" ?f] by (simp add: db' row_of_def Let_def)
qed

lemma record_attempt_wf: "record_attempt a db = Inr db' \<Longrightarrow> db_wf db \<Longrightarrow> db_wf db'"
proof -
  assume wf: "db_wf db" and w: "record_attempt a db = Inr db'"
  note rec = record_attempt_Inr [OF w]
  have dist: "distinct (map pa_id (db_attempts db))" using wf by (simp add: db_wf_def)
  let ?S = "{s \<in> set (db_attempts db). pa_id s \<noteq> attempt_id a}"
  have "\<forall>r \<in> set (db_attempts db'). \<forall>s \<in> set (db_attempts db'). \<not> slot_clash r s"
    by (rule index_kept [where x = "row_of a db" and S = ?S, OF _ _ slot_clash_sym slot_clash_irrefl])
      (use wf rec(2) in \<open>simp_all add: db_wf_def slot_taken_iff rec(6) [OF dist]\<close>)
  moreover have "distinct (map pa_id (db_attempts db'))" using dist by (auto simp: rec(5))
  moreover have "db_hosts db' = db_hosts db" "db_policies db' = db_policies db" by (simp_all add: rec(1))
  ultimately show ?thesis using wf by (simp add: db_wf_def slot_taken_iff)
qed

lemma map_upd_keys: "(\<And>s. key (f s) = key s) \<Longrightarrow> map key (map (\<lambda>s. if P s then f s else s) rows) = map key rows"
  by (induction rows) auto

lemma store_apply_wf: "store_apply platform op db = Inr db' \<Longrightarrow> db_wf db \<Longrightarrow> db_wf db'"
proof (cases op)
  case (PutHost h)
  assume "store_apply platform op db = Inr db'" "db_wf db"
  then show ?thesis
    using keys_upsert [of hr_id "\<lambda>_. host_to_row h" "host_to_row h" "db_hosts db"] by (auto simp: PutHost put_host_def db_wf_def)
next
  case (SetRunnerRootOverride i e n c)
  assume "store_apply platform op db = Inr db'" "db_wf db"
  moreover have "map hr_id (map (\<lambda>s. if hr_id s = i then s\<lparr>hr_runner_root_override := map_option lap_text n\<rparr> else s) (db_hosts db))
      = map hr_id (db_hosts db)"
    by (rule map_upd_keys) simp
  ultimately show ?thesis
    by (auto simp: SetRunnerRootOverride set_runner_root_override_def db_wf_def Let_def simp del: map_map split: option.splits if_splits)
next
  case (RemovePolicy i n0)
  assume "store_apply platform op db = Inr db'" "db_wf db"
  then show ?thesis
    by (auto simp: RemovePolicy remove_policy_def db_wf_def distinct_map_filter profile_taken_iff split: option.splits if_splits)
next
  case (RemoveAttempt i)
  assume "store_apply platform op db = Inr db'" "db_wf db"
  then show ?thesis by (auto simp: RemoveAttempt remove_attempt_def db_wf_def distinct_map_filter slot_taken_iff)
qed (auto simp: update_policy_def update_policy_confirming_count_def intro: write_policy_wf insert_policy_wf record_attempt_wf)

lemma store_run_wf: "db_wf db \<Longrightarrow> db_wf (store_run platform ops db)"
  unfolding store_run_def
  by (rule fold_invariant [where Q = "\<lambda>_. True" and P = db_wf]) (auto split: sum.splits intro: store_apply_wf)

section \<open>Attempts under any clock\<close>

text \<open>The mutations look at no timestamp: run with every reading no earlier than the allocation they
  give the clamped attempt.\<close>

fun clamp_op :: "timestamp \<Rightarrow> attempt_op \<Rightarrow> attempt_op" where
  "clamp_op c (OpBeginPrepare t) = OpBeginPrepare (max c t)"
| "clamp_op c (OpMarkPrepared t) = OpMarkPrepared (max c t)"
| "clamp_op c (OpJitReceived t) = OpJitReceived (max c t)"
| "clamp_op c (OpStarted pid t) = OpStarted pid (max c t)"
| "clamp_op c (OpStartedIsolated t) = OpStartedIsolated (max c t)"
| "clamp_op c (OpRegisteredIdle i t) = OpRegisteredIdle i (max c t)"
| "clamp_op c (OpAssignedJob i t) = OpAssignedJob i (max c t)"
| "clamp_op c (OpAssignmentNotTaken t) = OpAssignmentNotTaken (max c t)"
| "clamp_op c (OpConclude oc t) = OpConclude oc (max c t)"
| "clamp_op c (OpClean t) = OpClean (max c t)"
| "clamp_op c (OpBeginDestroy t) = OpBeginDestroy (max c t)"
| "clamp_op c (OpDeferCleanup t) = OpDeferCleanup (max c t)"
| "clamp_op c (OpCleanIsolated t) = OpCleanIsolated (max c t)"
| "clamp_op c op = op"

lemma clamp_times_frame [simp]:
  "attempt_state (clamp_times a) = attempt_state a" "attempt_execution (clamp_times a) = attempt_execution a"
  "created_at (clamp_times a) = created_at a" "process_id (clamp_times a) = process_id a"
  "attempt_outcome (clamp_times a) = attempt_outcome a" "attempt_id (clamp_times a) = attempt_id a"
  "attempt_policy_id (clamp_times a) = attempt_policy_id a" "github_runner_id (clamp_times a) = github_runner_id a"
  "attempt_workspace (clamp_times a) = attempt_workspace a" "runtime_path (clamp_times a) = runtime_path a"
  by (simp_all add: clamp_times_def)

lemma clamp_move: "move_to s now a = Inr a' \<Longrightarrow> move_to s (max (created_at a) now) (clamp_times a) = Inr (clamp_times a')"
  by (auto simp: move_to_Inr clamp_times_def)

lemma clamp_apply:
  assumes "attempt_apply op a = Inr a'"
  shows "attempt_apply (clamp_op (created_at a) op) (clamp_times a) = Inr (clamp_times a')"
  using assms
  by (cases op)
    (auto simp: attempt_op_defs move_to_Inr Let_def clamp_times_def split: if_splits attempt_execution.splits option.splits)

lemma clamp_op_time: "op_time (clamp_op c op) = Some t \<Longrightarrow> c \<le> t"
  by (cases op) auto

lemma clamp_op_jit: "jit_without_environment (clamp_op c op) (clamp_times a) = jit_without_environment op a"
  by (cases op) (auto simp: jit_without_environment_def)

inductive attempt_any_clock :: "runner_attempt \<Rightarrow> bool" where
  any_allocate: "attempt_workspace_wf w \<Longrightarrow> attempt_any_clock (allocate_in i policy path w now)"
| any_apply: "attempt_any_clock a \<Longrightarrow> attempt_apply op a = Inr a' \<Longrightarrow> \<not> jit_without_environment op a \<Longrightarrow> attempt_any_clock a'"

lemma any_clock_storable: "attempt_any_clock a \<Longrightarrow> attempt_storable (clamp_times a)"
proof (induction rule: attempt_any_clock.induct)
  case (any_allocate w i policy path now)
  moreover have "clamp_times (allocate_in i policy path w now) = allocate_in i policy path w now"
    by (simp add: clamp_times_def allocate_in_def)
  ultimately show ?case using allocate_in_storable by simp
next
  case (any_apply a op a')
  then show ?case
    using attempt_apply_storable [OF any_apply.IH clamp_apply [OF any_apply.hyps(2)]] clamp_op_jit clamp_op_time by auto
qed

lemma written_row_loads:
  assumes "attempt_storable (clamp_times a)"
    and "\<And>old. find_row pa_id (attempt_id a) (db_attempts db) = Some old \<Longrightarrow> pa_created_at old = created_at a
      \<and> pa_workspace_kind old = attempt_workspace_kind (attempt_workspace a)
      \<and> pa_workspace_slot old = workspace_slot (attempt_workspace a)"
  shows "row_of a db = attempt_to_persisted (clamp_times a)" "attempt_from_row (row_of a db) = Inr (clamp_times a)"
proof -
  have ident: "check_identity (attempt_execution a) (process_id a) = Inr ()" using assms(1) by (simp add: attempt_storable_def)
  have idem: "clamp_times (clamp_times a) = clamp_times a" by (cases "terminal_at a") (simp_all add: clamp_times_def)
  have n: "normalise (attempt_to_persisted (clamp_times a)) = attempt_to_persisted (clamp_times a)"
    using normalise_written [of "clamp_times a"] ident by (simp add: idem)
  show row: "row_of a db = attempt_to_persisted (clamp_times a)"
    using assms(2) normalise_written [OF ident]
    by (auto simp: row_of_def Let_def merge_row_def attempt_to_persisted_def split: option.split)
  show "attempt_from_row (row_of a db) = Inr (clamp_times a)"
    using attempt_row.load_store [OF assms(1)] by (simp add: row attempt_from_row_def n)
qed

section \<open>The configuration\<close>

fun target_ok :: "scale_target \<Rightarrow> bool" where
  "target_ok (RepositoryTarget r) \<longleftrightarrow> owner_repo_wf r"
| "target_ok (OrganizationTarget o') \<longleftrightarrow> org_new (org_str o') = Inr o'"

text \<open>What the types of the arguments guarantee of a policy: its target was constructed and its
  configured root parses on this platform.\<close>

definition policy_loadable :: "path_platform \<Rightarrow> scale_policy \<Rightarrow> bool" where
  "policy_loadable platform p \<longleftrightarrow>
     policy_wf p \<and> target_ok (policy_target p)
     \<and> (\<forall>root. workspace_policy_root (policy_workspace_policy p) = Some root \<longrightarrow> parse_for (lap_text root) platform = Inr root)"

lemma target_reads_back:
  "target_ok t \<Longrightarrow> (case scope t of Repository \<Rightarrow> target_repository (slug t) | Organization \<Rightarrow> target_organization (slug t)) = Inr t"
  using owner_repo_parse_display
  by (cases t) (simp_all add: target_repository_def target_organization_def and_then_def split: org.split)

lemma policy_row_reads_back:
  assumes "policy_params (policy_to_persisted p) = Inr r" "policy_loadable platform p"
  shows "policy_from_row platform r = Inr p" "pr_id r = policy_id p"
proof -
  have wf: "policy_wf p" "target_ok (policy_target p)" using assms(2) by (simp_all add: policy_loadable_def)
  have mx: "mode_max_capacity (policy_mode p) \<noteq> Some 0" using wf(1) by (cases "policy_mode p") (auto simp: policy_wf_def)
  have names: "trim (profile_name_str (policy_profile_name p)) = profile_name_str (policy_profile_name p)"
    "host_label_new (host_label_str (policy_requested_host_label p)) = Inr (policy_requested_host_label p)"
    "profile_name_new (profile_name_str (policy_profile_name p)) = Inr (policy_profile_name p)"
    using wf(1) slug_char_not_whitespace trim_no_whitespace
    by (auto simp: policy_wf_def host_label_new_iff profile_name_new_iff slug_wf_fixpoint slug_wf_def)
  have root: "try_option (\<lambda>raw. parse_for raw platform) (map_option lap_text (workspace_policy_root (policy_workspace_policy p)))
      = Inr (workspace_policy_root (policy_workspace_policy p))"
    using assms(2) by (cases "workspace_policy_root (policy_workspace_policy p)") (auto simp: try_option_def policy_loadable_def)
  have load: "policy_from_persisted (policy_to_persisted p) = Inr p"
    using policy_row.load_store [of p] wf(1) by (simp add: policy_wf_def)
  obtain "pr_id r = policy_id p" and t: "pr_target_scope r = scope (policy_target p)" "pr_target_slug r = slug (policy_target p)"
    and cols: "pr_max_capacity r = mode_max_capacity (policy_mode p)" "pr_profile_name r = profile_name_str (policy_profile_name p)"
    "pr_requested_host_label r = host_label_str (policy_requested_host_label p)"
    "pr_workspace_path r = map_option lap_text (workspace_policy_root (policy_workspace_policy p))"
    "pr_profile_selector r = map_option (\<lambda>l. label_str (rl_host_label l)) (routing_labels_of p)"
    "\<lparr>pp_id = pr_id r, pp_target = policy_target p, pp_installation_id = pr_installation_id r, pp_host_id = pr_host_id r,
        pp_requested_host_label = policy_requested_host_label p, pp_profile_name = policy_profile_name p,
        pp_routing_labels = pr_routing_labels r, pp_min_capacity = pr_min_capacity r,
        pp_max_capacity = mode_max_capacity (policy_mode p), pp_enabled = pr_enabled r,
        pp_state = pr_state r, pp_cache_policy = pr_cache_policy r, pp_workspace_kind = pr_workspace_mode r,
        pp_workspace_root = workspace_policy_root (policy_workspace_policy p), pp_execution_policy = pr_execution_policy r,
        pp_revision = pr_revision r\<rparr> = policy_to_persisted p"
    using assms(1) by (auto simp: policy_params_def policy_to_persisted_def routing_labels_of_def)
  have "(case pr_target_scope r of Repository \<Rightarrow> target_repository (pr_target_slug r)
      | Organization \<Rightarrow> target_organization (pr_target_slug r)) = Inr (policy_target p)"
    unfolding t by (rule target_reads_back [OF wf(2)])
  then show "policy_from_row platform r = Inr p" "pr_id r = policy_id p"
    using \<open>pr_id r = policy_id p\<close> cols mx names root load by (simp_all add: policy_from_row_def del: and_then_Inr)
qed

section \<open>Properties\<close>

text \<open>C29. Two runners never share a persistent slot: whatever sequence of writes a database went through,
  refused ones included, two journal rows that lease the same slot of the same policy are one row, and the
  identifiers of hosts, policies and attempts and the profile names under a target are unique.\<close>

theorem one_attempt_per_slot:
  fixes platform :: path_platform and ops :: "store_op list"
  defines "db \<equiv> store_run platform ops empty_database"
  shows "(\<forall>r \<in> set (db_attempts db). \<forall>s \<in> set (db_attempts db). leases r \<noteq> None \<longrightarrow> leases r = leases s \<longrightarrow> r = s) \<and> db_wf db"
proof -
  have wf: "db_wf db" unfolding db_def by (rule store_run_wf) (simp add: db_wf_def empty_database_def)
  have "r = s" if "r \<in> set (db_attempts db)" "s \<in> set (db_attempts db)" "leases r \<noteq> None" "leases r = leases s" for r s
  proof -
    have "\<not> slot_taken r (db_attempts db)" using wf that(1) by (simp add: db_wf_def)
    then have "pa_id s = pa_id r" using that by (metis slot_taken_def)
    then show ?thesis
      using find_row_unique [of pa_id "db_attempts db"] wf that(1,2) by (metis db_wf_def option.inject)
  qed
  then show ?thesis using wf by blast
qed

definition sample_slot_attempt :: "attempt_id \<Rightarrow> runner_attempt" where
  "sample_slot_attempt i = allocate_in i 7 (lit ''/r/s1'') (PersistentSlot 1) 100"

lemma sample_slot_row:
  "normalise (attempt_to_persisted (sample_slot_attempt i)) = attempt_to_persisted (sample_slot_attempt i)"
  by (simp add: sample_slot_attempt_def allocate_in_def attempt_to_persisted_def normalise_def Let_def)

lemma sample_slot_lease: "leases (attempt_to_persisted (sample_slot_attempt i)) = Some (7, 1)"
  by (simp add: sample_slot_attempt_def allocate_in_def attempt_to_persisted_def leases_def uncleaned_of_kind_def uncleaned_row_def)

definition sample_journal :: database where
  "sample_journal = empty_database\<lparr>db_attempts := [attempt_to_persisted (sample_slot_attempt 1)]\<rparr>"

lemma sample_slot_id: "attempt_id (sample_slot_attempt i) = i" "github_runner_id (sample_slot_attempt i) = None"
  by (simp_all add: sample_slot_attempt_def allocate_in_def)

lemma sample_slot_recorded:
  "record_attempt (sample_slot_attempt 1) empty_database = Inr sample_journal"
  "record_attempt (sample_slot_attempt 2) sample_journal = Inl (SlotAlreadyLeased 7 1)"
  by (simp_all add: record_attempt_def sample_slot_row attempt_params_def sample_slot_id find_row_def upsert_def slot_taken_def
      sample_journal_def empty_database_def sample_slot_lease)
    (simp add: slot_lease_error_def sample_slot_attempt_def allocate_in_def holds_slot_lease_def attempt_workspace_is_persistent_def
      kind_is_persistent_def)

theorem one_attempt_per_slot_witness:
  "store_run UnixPath [RecordAttempt (sample_slot_attempt 1), RecordAttempt (sample_slot_attempt 2)] empty_database = sample_journal
   \<and> db_wf sample_journal"
proof -
  have run: "store_run UnixPath [RecordAttempt (sample_slot_attempt 1), RecordAttempt (sample_slot_attempt 2)] empty_database = sample_journal"
    by (simp add: store_run_def sample_slot_recorded)
  then show ?thesis
    using one_attempt_per_slot [of UnixPath "[RecordAttempt (sample_slot_attempt 1), RecordAttempt (sample_slot_attempt 2)]"] by simp
qed

text \<open>The journal never rewrites an allocation: as long as a row is not removed, no write changes when its
  attempt was created, its workspace or its slot, and its execution identity only fills in.\<close>

theorem journal_keeps_allocation:
  assumes "store_apply platform op db = Inr db'" "find_row pa_id i (db_attempts db) = Some r" "op \<noteq> RemoveAttempt i"
  shows "\<exists>r'. find_row pa_id i (db_attempts db') = Some r' \<and> pa_created_at r' = pa_created_at r
    \<and> pa_workspace_kind r' = pa_workspace_kind r \<and> pa_workspace_slot r' = pa_workspace_slot r
    \<and> can_advance_to (pa_execution r) (pa_execution r')"
proof -
  have same: ?thesis if "db_attempts db' = db_attempts db" using that assms(2) by auto
  show ?thesis
  proof (cases op)
    case (RecordAttempt a)
    then have w: "record_attempt a db = Inr db'" using assms(1) by simp
    note rec = record_attempt_Inr [OF w]
    show ?thesis
    proof (cases "i = attempt_id a")
      case True
      then have "row_of a db = merge_row (normalise (attempt_to_persisted a)) r" using assms(2) by (simp add: row_of_def Let_def)
      then show ?thesis using rec(3) rec(4) [of i] True assms(2) by (intro exI [of _ "row_of a db"]) simp
    qed (use rec(4) [of i] assms(2) in auto)
  next
    case (RemoveAttempt j)
    then show ?thesis using assms find_row_filter [of i j pa_id "db_attempts db"] by (auto simp: remove_attempt_def)
  next
    case (UpdatePolicy p n0)
    then show ?thesis using assms(1) same replace_policy_set(4)
      by (auto simp: update_policy_def elim!: write_policy_Inr)
  next
    case (UpdatePolicyConfirming c p n0 k)
    then show ?thesis using assms(1) same replace_policy_set(4)
      by (auto simp: update_policy_confirming_count_def elim!: write_policy_Inr)
  qed (use assms(1) same in \<open>auto simp: put_host_def set_runner_root_override_def insert_policy_def remove_policy_def Let_def
      split: option.splits if_splits\<close>)
qed

theorem journal_keeps_allocation_witness:
  "\<exists>r'. find_row pa_id 1 (db_attempts sample_journal) = Some r' \<and> pa_workspace_slot r' = Some 1"
proof -
  have "store_apply UnixPath (RecordAttempt (sample_slot_attempt 1)) sample_journal = Inr sample_journal"
    by (simp add: record_attempt_def sample_slot_row attempt_params_def sample_slot_id find_row_def upsert_def slot_taken_def
        sample_journal_def empty_database_def merge_row_def)
  moreover have "find_row pa_id 1 (db_attempts sample_journal) = Some (attempt_to_persisted (sample_slot_attempt 1))"
    by (simp add: sample_journal_def find_row_def sample_slot_id)
  ultimately show ?thesis
    using journal_keeps_allocation [of UnixPath "RecordAttempt (sample_slot_attempt 1)" sample_journal sample_journal 1]
    by (auto simp: sample_slot_attempt_def allocate_in_def)
qed



text \<open>C31. Of writers that read the same revision one wins: an update is accepted only against the stored revision,
  and once it is, every other write or removal that names the old revision is refused and nothing is written;
  the removal says which revision it met. A write that changes the execution policy of a policy is accepted
  only when none of its attempts is uncleaned.\<close>

theorem stale_writers_lose:
  assumes "update_policy platform p n db = Inr db'" "policy_revision p \<noteq> n"
  shows "(\<exists>r. find_row pr_id (policy_id p) (db_policies db) = Some r \<and> pr_revision r = n)
    \<and> (\<forall>q. policy_id q = policy_id p \<longrightarrow> \<not> is_ok (update_policy platform q n db'))
    \<and> (\<forall>q c k. policy_id q = policy_id p \<longrightarrow> \<not> is_ok (update_policy_confirming_count platform c q n k db'))
    \<and> remove_policy (policy_id p) n db' = Inl (StaleRevision (policy_id p) n (policy_revision p))
    \<and> (\<forall>stored. find_policy platform (policy_id p) db = Inr (Some stored)
         \<longrightarrow> policy_execution_policy stored \<noteq> policy_execution_policy p
         \<longrightarrow> (\<forall>r \<in> set (db_attempts db). pa_policy_id r = policy_id p \<longrightarrow> \<not> uncleaned_row r))"
proof -
  obtain r s where r: "policy_params (policy_to_persisted p) = Inr r" "pr_id r = policy_id p"
    and s: "find_row pr_id (policy_id p) (db_policies db) = Some s" "pr_revision s = n" and db': "db' = replace_policy r db"
    and safe: "ensure_execution_mutation_safe platform db p = Inr ()"
    using write_policy_Inr [OF assms(1) [unfolded update_policy_def]] by metis
  have rev: "pr_revision r = policy_revision p" using r(1) by (auto simp: policy_params_def policy_to_persisted_def)
  have stored: "find_row pr_id (policy_id p) (db_policies db') = Some r"
    using find_row_map_update [of pr_id "pr_id r" "\<lambda>_. r" "policy_id p" "db_policies db"] s(1) r(2)
    by (simp add: db' replace_policy_def)
  have lost: "\<not> is_ok (write_policy platform agrees diagnose q n db')" if "policy_id q = policy_id p" for agrees diagnose q
    using stored rev assms(2) that by (auto simp: is_ok_iff elim!: write_policy_Inr)
  have fits: "u64_to_sql w n = Inr ()" for w
    using assms(1) by (auto simp: update_policy_def write_policy_def u64_to_sql_def split: if_splits)
  have gone: "remove_policy (policy_id p) n db' = Inl (StaleRevision (policy_id p) n (policy_revision p))"
    using stored rev assms(2) fits by (simp add: remove_policy_def conflict_or_missing_def)
  have clean: "\<not> uncleaned_row x"
    if "find_policy platform (policy_id p) db = Inr (Some q)" "policy_execution_policy q \<noteq> policy_execution_policy p"
      "x \<in> set (db_attempts db)" "pa_policy_id x = policy_id p" for q x
  proof -
    have "policy_from_row platform s = Inr q" using that(1) s(1) by (auto simp: find_policy_def try_option_def load_policy_def)
    then have "count_for UncleanedAttempts (policy_id p) db = 0"
      using safe that(2) s(1) by (auto simp: ensure_execution_mutation_safe_def Let_def split: if_splits)
    then have "min (length (filter (\<lambda>r. pa_policy_id r = policy_id p \<and> uncleaned_row r) (db_attempts db))) 65535 = 0"
      using unat_count_for [of UncleanedAttempts "policy_id p" db] by simp
    then have "filter (\<lambda>r. pa_policy_id r = policy_id p \<and> uncleaned_row r) (db_attempts db) = []" by (auto simp: min_def split: if_splits)
    then show ?thesis using that(3,4) by (auto simp: filter_empty_conv)
  qed
  show ?thesis
    using s lost gone clean by (auto simp: update_policy_def update_policy_confirming_count_def)
qed

definition sample_policy_row :: policy_row where
  "sample_policy_row =
     \<lparr>pr_id = 7, pr_target_scope = Repository, pr_target_slug = lit ''acme/app'', pr_installation_id = 1, pr_host_id = 3,
      pr_requested_host_label = lit ''home'', pr_profile_name = lit ''default'', pr_profile_selector = Some (lit ''rm-home''),
      pr_routing_labels = Some \<lparr>rl_host_label = Label (lit ''rm-home''), rl_additional = []\<rparr>, pr_min_capacity = 0,
      pr_max_capacity = Some 2, pr_enabled = False, pr_state = Pending, pr_cache_policy = RetainRunnerPackage,
      pr_workspace_mode = EphemeralKind, pr_workspace_path = None, pr_execution_policy = NativePolicy, pr_revision = 0\<rparr>"

definition sample_stored :: database where
  "sample_stored = empty_database\<lparr>db_policies := [sample_policy_row]\<rparr>"

lemma fresh_policy_loadable: "policy_loadable platform fresh_policy"
  using fresh_policy_reachable reachable_wf
  by (auto simp: policy_loadable_def)
    (simp_all add: fresh_policy_def new_for_host_label_def owner_repo_wf_def login_wf_def repo_name_wf_def repo_char_def str_defs)

lemma fresh_policy_params: "policy_params (policy_to_persisted (fresh_policy\<lparr>policy_revision := n\<rparr>)) =
    and_then (u64_to_sql (lit ''policies.revision'') n) (\<lambda>_. Inr (sample_policy_row\<lparr>pr_revision := n\<rparr>))"
  by (simp add: policy_params_def u64_to_sql_def I64_MAX_def policy_to_persisted_def
      fresh_policy_def new_for_host_label_def sample_policy_row_def default_profile_def owner_repo_display_def ch_def)

lemma sample_row_loads: "policy_from_row UnixPath sample_policy_row = Inr fresh_policy"
proof -
  have "policy_params (policy_to_persisted fresh_policy) = Inr sample_policy_row"
    using fresh_policy_params [of 0] by (simp add: u64_to_sql_def fresh_policy_def new_for_host_label_def sample_policy_row_def)
  then show ?thesis using policy_row_reads_back(1) fresh_policy_loadable by blast
qed

lemma sample_update:
  "update_policy UnixPath (fresh_policy\<lparr>policy_revision := 1\<rparr>) 0 sample_stored = Inr (replace_policy (sample_policy_row\<lparr>pr_revision := 1\<rparr>) sample_stored)"
proof -
  have "policy_params (policy_to_persisted (fresh_policy\<lparr>policy_revision := 1\<rparr>)) = Inr (sample_policy_row\<lparr>pr_revision := 1\<rparr>)"
    using fresh_policy_params [of 1] by (simp add: u64_to_sql_def I64_MAX_def)
  moreover have "pr_id sample_policy_row = 7" "pr_revision sample_policy_row = 0" "policy_id fresh_policy = 7"
    "policy_profile_name fresh_policy = default_profile"
    by (simp_all add: sample_policy_row_def fresh_policy_def new_for_host_label_def)
  moreover have "target_eq t t" for t using target_eq_key by blast
  ultimately show ?thesis
    using sample_row_loads
    by (simp add: update_policy_def write_policy_def u64_to_sql_def sample_stored_def empty_database_def find_row_def
        ensure_profile_identity_def ensure_execution_mutation_safe_def validate_profile_in_target_def check_selector_def
        profile_is_default_def routing_labels_of_def profile_taken_def) (simp add: default_profile_def)
qed

theorem stale_writers_lose_witness:
  "\<exists>db'. update_policy UnixPath (fresh_policy\<lparr>policy_revision := 1\<rparr>) 0 sample_stored = Inr db'
     \<and> remove_policy 7 0 db' = Inl (StaleRevision 7 0 1)"
  using stale_writers_lose [OF sample_update] sample_update by (auto simp: fresh_policy_def new_for_host_label_def)

lemma list_all2_filter:
  "list_all2 R xs ys \<Longrightarrow> (\<And>x y. R x y \<Longrightarrow> P x = Q y) \<Longrightarrow> list_all2 R (filter P xs) (filter Q ys)"
  by (induction rule: list_all2_induct) auto

lemma attempts_filtered:
  assumes "attempts db = Inr as" "\<And>r a. attempt_from_row r = Inr a \<Longrightarrow> P r = Q a"
  shows "attempts_where P db = Inr (filter Q as)" "length (filter P (db_attempts db)) = length (filter Q as)"
proof -
  let ?rows = "sort_key (\<lambda>r. (pa_created_at r, pa_id r)) (db_attempts db)"
  have "list_all2 (\<lambda>r a. attempt_from_row r = Inr a) ?rows as"
    using assms(1) by (simp add: attempts_def attempts_where_def try_map_Inr)
  then have all: "list_all2 (\<lambda>r a. attempt_from_row r = Inr a) (filter P ?rows) (filter Q as)"
    using assms(2) by (rule list_all2_filter)
  then show "attempts_where P db = Inr (filter Q as)" by (simp add: attempts_where_def try_map_Inr filter_sort)
  have "length (filter P (db_attempts db)) = length (filter P ?rows)" by (simp add: filter_sort)
  then show "length (filter P (db_attempts db)) = length (filter Q as)" using list_all2_lengthD [OF all] by simp
qed

text \<open>The queries over the journal agree with the domain's own predicates: when the journal can be read, the
  active, uncleaned and slot-holding attempts of a policy are the attempts \<open>counts_against_capacity\<close>, not
  cleaned and \<open>holds_slot_lease\<close> select from the listing, and the counts the guarded writes compare are the
  saturated numbers of those attempts, the active one being the allocator's own count.\<close>

theorem queries_follow_the_domain:
  assumes "attempts db = Inr as"
  shows "active_attempts_for_policy i db = Inr (filter (\<lambda>a. attempt_policy_id a = i \<and> counts_against_capacity a) as)
    \<and> uncleaned_attempts_for_policy i db = Inr (filter (\<lambda>a. attempt_policy_id a = i \<and> attempt_state a \<noteq> Cleaned) as)
    \<and> slot_leases_for_policy i db = Inr (filter (\<lambda>a. attempt_policy_id a = i \<and> holds_slot_lease a) as)
    \<and> count_for ActiveAttempts i db = active_count_for i as
    \<and> unat (count_for UncleanedAttempts i db)
        = min (length (filter (\<lambda>a. attempt_policy_id a = i \<and> attempt_state a \<noteq> Cleaned) as)) 65535"
proof -
  have active: "\<And>r a. attempt_from_row r = Inr a \<Longrightarrow> (pa_policy_id r = i \<and> active_row r) = (attempt_policy_id a = i \<and> counts_against_capacity a)"
    and uncleaned: "\<And>r a. attempt_from_row r = Inr a \<Longrightarrow> (pa_policy_id r = i \<and> uncleaned_row r) = (attempt_policy_id a = i \<and> attempt_state a \<noteq> Cleaned)"
    and slots: "\<And>r a. attempt_from_row r = Inr a \<Longrightarrow>
      (pa_policy_id r = i \<and> uncleaned_of_kind PersistentKind r) = (attempt_policy_id a = i \<and> holds_slot_lease a)"
    by (simp_all add: loaded_row uncleaned_row_def)
  have "unat (count_for ActiveAttempts i db) = unat (active_count_for i as)"
    using attempts_filtered(2) [OF assms active] by (simp add: unat_simps)
  then have "count_for ActiveAttempts i db = active_count_for i as" by (simp add: word_unat_eq_iff)
  then show ?thesis
    using attempts_filtered(1) [OF assms active] attempts_filtered [OF assms uncleaned] attempts_filtered(1) [OF assms slots]
    by (simp add: active_attempts_for_policy_def uncleaned_attempts_for_policy_def slot_leases_for_policy_def unat_simps)
qed

theorem queries_follow_the_domain_witness:
  "\<exists>as. attempts sample_journal = Inr as \<and> slot_leases_for_policy 7 sample_journal = Inr as"
proof -
  have "attempt_storable (sample_slot_attempt 1)"
    unfolding sample_slot_attempt_def by (rule allocate_in_storable) (simp add: attempt_workspace_wf_def)
  then have "attempts sample_journal = Inr [sample_slot_attempt 1]"
    using attempt_row.load_store [of "sample_slot_attempt 1"]
    by (simp add: attempts_def attempts_where_def sample_journal_def attempt_from_row_def sample_slot_row)
  from queries_follow_the_domain [OF this, of 7] this show ?thesis
    by (simp add: sample_slot_attempt_def allocate_in_def holds_slot_lease_def attempt_workspace_is_persistent_def kind_is_persistent_def)
qed

lemma validate_own_row:
  assumes "db_hosts db' = db_hosts db"
    and "filter (\<lambda>r. pr_id r \<noteq> policy_id p) (db_policies db') = filter (\<lambda>r. pr_id r \<noteq> policy_id p) (db_policies db)"
  shows "validate_profile_in_target platform db' p = validate_profile_in_target platform db p"
proof -
  have split: "filter (\<lambda>r. same_target_row p r \<and> pr_id r \<noteq> policy_id p) rows
      = filter (same_target_row p) (filter (\<lambda>r. pr_id r \<noteq> policy_id p) rows)" for rows
    by (simp add: conj_commute)
  show ?thesis unfolding validate_profile_in_target_def check_selector_def split assms ..
qed

lemma filter_replaced: "filter (\<lambda>s. key s \<noteq> key r) (map (\<lambda>s. if key s = key r then r else s) rows) = filter (\<lambda>s. key s \<noteq> key r) rows"
  by (induction rows) auto

text \<open>A policy that was written reads back exactly: after an insert or an update is accepted, the store returns
  that policy, every row of another policy is as it was, and the sibling rules that were checked before the
  write also pass on reading.\<close>

theorem policy_write_reads_back:
  assumes "policy_loadable platform p"
    and "insert_policy platform p db = Inr db' \<or> update_policy platform p n db = Inr db'"
  shows "find_policy platform (policy_id p) db' = Inr (Some p)
    \<and> (\<forall>j. j \<noteq> policy_id p \<longrightarrow> find_row pr_id j (db_policies db') = find_row pr_id j (db_policies db))"
proof -
  have "\<exists>r. policy_params (policy_to_persisted p) = Inr r \<and> validate_profile_in_target platform db p = Inr ()
      \<and> db_hosts db' = db_hosts db \<and> find_row pr_id (policy_id p) (db_policies db') = Some r
      \<and> filter (\<lambda>s. pr_id s \<noteq> policy_id p) (db_policies db') = filter (\<lambda>s. pr_id s \<noteq> policy_id p) (db_policies db)
      \<and> (\<forall>j. j \<noteq> policy_id p \<longrightarrow> find_row pr_id j (db_policies db') = find_row pr_id j (db_policies db))"
    using assms(2)
  proof
    assume "insert_policy platform p db = Inr db'"
    then obtain r where r: "policy_params (policy_to_persisted p) = Inr r" "validate_profile_in_target platform db p = Inr ()"
      "pr_id r \<notin> pr_id ` set (db_policies db)" "db' = db\<lparr>db_policies := db_policies db @ [r]\<rparr>"
      by (auto simp: insert_policy_def split: if_splits)
    moreover have "pr_id r = policy_id p" using policy_row_reads_back(2) [OF r(1) assms(1)] .
    ultimately show ?thesis
      using find_row_append_new [of "policy_id p" pr_id "db_policies db" r] find_row_append_other [of pr_id r _ "db_policies db"] by auto
  next
    assume "update_policy platform p n db = Inr db'"
    then obtain r s where r: "policy_params (policy_to_persisted p) = Inr r" "pr_id r = policy_id p"
      "find_row pr_id (policy_id p) (db_policies db) = Some s" "db' = replace_policy r db"
      "validate_profile_in_target platform db p = Inr ()"
      unfolding update_policy_def by (elim write_policy_Inr) blast
    then show ?thesis
      using find_row_map_update [of pr_id "pr_id r" "\<lambda>_. r" _ "db_policies db"] filter_replaced [of pr_id r "db_policies db"]
      by (auto simp: replace_policy_def)
  qed
  then obtain r where r: "policy_params (policy_to_persisted p) = Inr r" "validate_profile_in_target platform db p = Inr ()"
    "db_hosts db' = db_hosts db" "find_row pr_id (policy_id p) (db_policies db') = Some r"
    "filter (\<lambda>s. pr_id s \<noteq> policy_id p) (db_policies db') = filter (\<lambda>s. pr_id s \<noteq> policy_id p) (db_policies db)"
    "\<forall>j. j \<noteq> policy_id p \<longrightarrow> find_row pr_id j (db_policies db') = find_row pr_id j (db_policies db)"
    by blast
  then show ?thesis
    using policy_row_reads_back(1) [OF r(1) assms(1)] validate_own_row [OF r(3,5)]
    by (simp add: find_policy_def try_option_def load_policy_def)
qed

theorem policy_write_reads_back_witness:
  "\<exists>db'. update_policy UnixPath (fresh_policy\<lparr>policy_revision := 1\<rparr>) 0 sample_stored = Inr db'
     \<and> find_policy UnixPath 7 db' = Inr (Some (fresh_policy\<lparr>policy_revision := 1\<rparr>))"
proof -
  have load: "policy_loadable UnixPath (fresh_policy\<lparr>policy_revision := 1\<rparr>)"
    using fresh_policy_loadable [of UnixPath]
    by (simp add: policy_loadable_def policy_wf_def policy_storable_def)
  have "policy_id fresh_policy = 7" by (simp add: fresh_policy_def new_for_host_label_def)
  then show ?thesis using policy_write_reads_back [OF load] sample_update by auto
qed

end
