(* ===== verification/Runner_Root.thy ===== *)
theory Runner_Root
  imports Workspace "HOL-Library.Sublist"
begin

text \<open>
  Where runner files may be placed, \<open>crates/platform/src/runner_root.rs\<close>: how two paths overlap, the
  canonical projection of a path, the operational preflight \<open>RootPreflight::check\<close>, and containment of
  a derived child. What the operating system answers is the record \<open>root_env\<close>: metadata and
  canonicalisation of a path, the two questions of \<open>FilesystemProbe\<close>, the Unicode lower case of a
  character, and the build's platform. Nothing here changes the file system.
\<close>

section \<open>Data\<close>

datatype io_kind = IoNotFound | IoNotADirectory | IoPermissionDenied | IoOther

record metadata =
  md_is_dir :: bool
  md_is_symlink :: bool
  md_is_reparse :: bool

datatype root_owner = HostRoot | RepositoryRoot ustr | DependencyCacheRoot

datatype overlap = Disjoint | SamePath | Inside | Contains

datatype locality = LocalFs | RemoteFs | UnprovableFs

record filesystem_identity =
  fsi_locality :: locality
  fsi_name :: ustr

datatype runner_root_error =
    ForeignPlatform ustr path_platform
  | Inspect ustr io_kind
  | ExistingFile ustr
  | Symlinked ustr
  | MissingParents ustr ustr
  | ParentIsNotADirectory ustr
  | NotWritable ustr root_owner
  | DeniedByPrivacyPolicy ustr ustr root_owner
  | ParentNotWritable ustr ustr root_owner
  | ResolvesToFilesystemRoot ustr ustr
  | RemoteFilesystem ustr ustr
  | UnprovableFilesystem ustr ustr
  | OverlapsData ustr overlap ustr ustr
  | OverlapsRoot ustr overlap ustr root_owner
  | Escapes ustr ustr ustr
  | DerivedName local_path_error

record root_env =
  re_native :: path_platform
  re_macos :: bool
  re_lowercase :: "uchar \<Rightarrow> uchar list"
  re_symlink_metadata :: "ustr \<Rightarrow> io_kind + metadata"
  re_canonicalize :: "ustr \<Rightarrow> io_kind + ustr"
  re_is_dir :: "ustr \<Rightarrow> bool"
  re_identify :: "ustr \<Rightarrow> io_kind + filesystem_identity"
  re_is_writable :: "ustr \<Rightarrow> io_kind + bool"
  re_is_read_only :: "ustr \<Rightarrow> bool"
  re_on_gated_volume :: "ustr \<Rightarrow> bool"
  re_runs_as_superuser :: bool

record app_paths =
  ap_config_dir :: ustr
  ap_state_dir :: ustr
  ap_logs_dir :: ustr
  ap_runtime_dir :: ustr

record projection =
  pj_anchor :: ustr
  pj_anchor_as_written :: ustr
  pj_canonical :: ustr
  pj_missing :: nat

record preflighted_root =
  pf_root :: local_absolute_path
  pf_canonical :: ustr
  pf_exists :: bool
  pf_filesystem :: filesystem_identity

section \<open>Overlap\<close>

definition components_of :: "ustr \<Rightarrow> path_platform \<Rightarrow> ustr list" where
  "components_of path platform = filter (\<lambda>c. c \<noteq> [] \<and> c \<noteq> lit ''.'') (split_on (is_separator platform) path)"

fun same_component :: "root_env \<Rightarrow> ustr \<Rightarrow> ustr \<Rightarrow> path_platform \<Rightarrow> bool" where
  "same_component env l r WindowsPath = (concat (map (re_lowercase env) l) = concat (map (re_lowercase env) r))"
| "same_component env l r UnixPath = (l = r)"

definition overlap_of :: "root_env \<Rightarrow> ustr \<Rightarrow> ustr \<Rightarrow> path_platform \<Rightarrow> overlap" where
  "overlap_of env candidate other platform =
     (let left = components_of candidate platform; right = components_of other platform;
          shared = length (takeWhile (\<lambda>(l, r). same_component env l r platform) (zip left right))
      in if shared < min (length left) (length right) then Disjoint
         else if length left = length right then SamePath
         else if length left > length right then Inside else Contains)"

section \<open>Paths\<close>

text \<open>How much of a path is its root (\<open>/\<close>, a drive, a share): \<open>Path::parent\<close> stops there.\<close>

definition root_length :: "path_platform \<Rightarrow> ustr \<Rightarrow> nat" where
  "root_length platform p =
     (case platform of
        UnixPath \<Rightarrow> 1
      | WindowsPath \<Rightarrow>
          if starts_with p (lit [CHR 92, CHR 92])
          then (case split_on (is_separator WindowsPath) (drop 2 p) of
                  server # share # _ \<Rightarrow> 3 + length server + length share
                | _ \<Rightarrow> length p)
          else 3)"

definition last_component :: "path_platform \<Rightarrow> ustr \<Rightarrow> ustr" where
  "last_component platform p = rev (takeWhile (\<lambda>c. \<not> is_separator platform c) (rev p))"

definition path_parent :: "path_platform \<Rightarrow> ustr \<Rightarrow> ustr option" where
  "path_parent platform p =
     (let n = root_length platform p; rest = drop n p; name = last_component platform rest
      in if length p \<le> n then None
         else if length rest \<le> Suc (length name) then Some (take n p)
         else Some (take (length p - Suc (length name)) p))"

definition path_file_name :: "path_platform \<Rightarrow> ustr \<Rightarrow> ustr option" where
  "path_file_name platform p =
     (let name = last_component platform (drop (root_length platform p) p) in if name = [] then None else Some name)"

definition path_push :: "path_platform \<Rightarrow> ustr \<Rightarrow> ustr \<Rightarrow> ustr" where
  "path_push platform p name =
     (if p \<noteq> [] \<and> is_separator platform (last p) then p @ name else p @ [separator platform] @ name)"

section \<open>Canonical projection\<close>

definition means_absent :: "io_kind \<Rightarrow> bool" where
  "means_absent k \<longleftrightarrow> k \<in> {IoNotFound, IoNotADirectory}"

definition plain :: "path_platform \<Rightarrow> ustr \<Rightarrow> ustr" where
  "plain platform p =
     (case platform of
        UnixPath \<Rightarrow> p
      | WindowsPath \<Rightarrow>
          (case strip_prefix p (lit [CHR 92, CHR 92, CHR ''?'', CHR 92, CHR ''U'', CHR ''N'', CHR ''C'', CHR 92]) of
             Some rest \<Rightarrow> lit [CHR 92, CHR 92] @ rest
           | None \<Rightarrow>
               (case strip_prefix p (lit [CHR 92, CHR 92, CHR ''?'', CHR 92]) of
                  Some rest \<Rightarrow> rest
                | None \<Rightarrow> p)))"

lemma path_parent_shorter: "path_parent platform p = Some q \<Longrightarrow> length q < length p"
  by (auto simp: path_parent_def Let_def split: if_splits)

text \<open>The walk to the deepest ancestor that exists; \<open>missing\<close> holds the names passed, leaf first.\<close>

function deepest_existing :: "root_env \<Rightarrow> ustr \<Rightarrow> ustr list \<Rightarrow> runner_root_error + ustr \<times> ustr list" where
  "deepest_existing env cursor missing =
     (case re_symlink_metadata env cursor of
        Inr _ \<Rightarrow> Inr (cursor, missing)
      | Inl k \<Rightarrow>
          if means_absent k then
            (case (path_file_name (re_native env) cursor, path_parent (re_native env) cursor) of
               (Some name, Some parent) \<Rightarrow> deepest_existing env parent (missing @ [name])
             | _ \<Rightarrow> Inl (Inspect cursor k))
          else Inl (Inspect cursor k))"
  by pat_completeness auto

termination
  by (relation "measure (\<lambda>(_, cursor, _). length cursor)") (auto dest: path_parent_shorter [OF sym])

declare deepest_existing.simps [simp del]

definition project :: "root_env \<Rightarrow> ustr \<Rightarrow> runner_root_error + projection" where
  "project env path =
     and_then (deepest_existing env path []) (\<lambda>(cursor, missing).
     and_then (map_err (Inspect cursor) (re_canonicalize env cursor)) (\<lambda>c.
     let anchor = plain (re_native env) c
     in Inr \<lparr>pj_anchor = anchor, pj_anchor_as_written = cursor,
             pj_canonical = fold (\<lambda>name p. path_push (re_native env) p name) (rev missing) anchor,
             pj_missing = length missing\<rparr>))"

definition canonical_text :: "root_env \<Rightarrow> ustr \<Rightarrow> ustr option" where
  "canonical_text env path = map_option pj_canonical (result_ok (project env path))"

definition is_filesystem_root :: "root_env \<Rightarrow> ustr \<Rightarrow> bool" where
  "is_filesystem_root env p \<longleftrightarrow> path_parent (re_native env) p = None"

section \<open>Preflight\<close>

definition protected :: "app_paths \<Rightarrow> (ustr \<times> ustr) list" where
  "protected app =
     [(lit ''the application configuration directory'', ap_config_dir app),
      (lit ''the application state directory'', ap_state_dir app),
      (lit ''the application log directory'', ap_logs_dir app)]"

definition text_of :: "root_env \<Rightarrow> bool \<Rightarrow> ustr \<Rightarrow> ustr option" where
  "text_of env canonical path = (if canonical then canonical_text env path else Some path)"

definition inside_runtime :: "root_env \<Rightarrow> app_paths \<Rightarrow> bool \<Rightarrow> ustr \<Rightarrow> bool" where
  "inside_runtime env app canonical candidate =
     (case text_of env canonical (ap_runtime_dir app) of
        None \<Rightarrow> False
      | Some runtime \<Rightarrow> overlap_of env candidate runtime (re_native env) \<in> {SamePath, Inside})"

definition reject_protected :: "root_env \<Rightarrow> app_paths \<Rightarrow> bool \<Rightarrow> ustr \<Rightarrow> ustr \<times> ustr \<Rightarrow> runner_root_error + unit" where
  "reject_protected env app canonical candidate entry =
     (case text_of env canonical (snd entry) of
        None \<Rightarrow> Inr ()
      | Some other \<Rightarrow>
          (let relation = overlap_of env candidate other (re_native env)
           in if relation = Disjoint \<or> (relation = Inside \<and> inside_runtime env app canonical candidate) then Inr ()
              else Inl (OverlapsData candidate relation other (fst entry))))"

definition reject_other :: "root_env \<Rightarrow> root_owner \<Rightarrow> bool \<Rightarrow> ustr \<Rightarrow> root_owner \<times> local_absolute_path \<Rightarrow> runner_root_error + unit" where
  "reject_other env owner canonical candidate entry =
     (if fst entry = owner then Inr ()
      else case text_of env canonical (lap_text (snd entry)) of
        None \<Rightarrow> Inr ()
      | Some other \<Rightarrow>
          (let relation = overlap_of env candidate other (re_native env)
           in if relation = Disjoint then Inr () else Inl (OverlapsRoot candidate relation other (fst entry))))"

type_synonym other_roots = "(root_owner \<times> local_absolute_path) list"

definition reject_overlap ::
  "root_env \<Rightarrow> app_paths \<Rightarrow> other_roots \<Rightarrow> root_owner \<Rightarrow> ustr \<Rightarrow> bool \<Rightarrow> runner_root_error + unit" where
  "reject_overlap env app others owner candidate canonical =
     and_then (try_map (reject_protected env app canonical candidate) (protected app)) (\<lambda>_.
     and_then (try_map (reject_other env owner canonical candidate) others) (\<lambda>_. Inr ()))"

definition check_candidate :: "root_env \<Rightarrow> ustr \<Rightarrow> runner_root_error + unit" where
  "check_candidate env candidate =
     (case re_symlink_metadata env candidate of
        Inr m \<Rightarrow>
          if md_is_symlink m then Inl (Symlinked candidate)
          else if \<not> md_is_dir m then Inl (ExistingFile candidate) else Inr ()
      | Inl k \<Rightarrow> if means_absent k then Inr () else Inl (Inspect candidate k))"

definition check_missing :: "root_env \<Rightarrow> ustr \<Rightarrow> projection \<Rightarrow> runner_root_error + unit" where
  "check_missing env candidate pj =
     (if pj_missing pj = 0 then Inr ()
      else if pj_missing pj = 1 then
        (if \<not> re_is_dir env (pj_anchor pj) then Inl (ParentIsNotADirectory (pj_anchor_as_written pj)) else Inr ())
      else Inl (MissingParents candidate (pj_anchor_as_written pj)))"

definition check_local :: "root_env \<Rightarrow> projection \<Rightarrow> runner_root_error + filesystem_identity" where
  "check_local env pj =
     and_then (map_err (Inspect (pj_anchor pj)) (re_identify env (pj_anchor pj))) (\<lambda>fs.
     case fsi_locality fs of
       LocalFs \<Rightarrow> Inr fs
     | RemoteFs \<Rightarrow> Inl (RemoteFilesystem (pj_canonical pj) (fsi_name fs))
     | UnprovableFs \<Rightarrow> Inl (UnprovableFilesystem (pj_canonical pj) (fsi_name fs)))"

definition check_writable :: "root_env \<Rightarrow> root_owner \<Rightarrow> ustr \<Rightarrow> projection \<Rightarrow> runner_root_error + unit" where
  "check_writable env owner candidate pj =
     and_then (map_err (Inspect (pj_anchor pj)) (re_is_writable env (pj_anchor pj))) (\<lambda>writable.
     if writable then Inr ()
     else if re_macos env \<and> re_runs_as_superuser env \<and> re_on_gated_volume env (pj_anchor pj)
             \<and> \<not> re_is_read_only env (pj_anchor pj)
     then Inl (DeniedByPrivacyPolicy candidate (pj_anchor_as_written pj) owner)
     else if pj_missing pj = 0 then Inl (NotWritable (pj_anchor_as_written pj) owner)
     else Inl (ParentNotWritable (pj_anchor_as_written pj) candidate owner))"

definition preflight_check ::
  "root_env \<Rightarrow> app_paths \<Rightarrow> other_roots \<Rightarrow> root_owner \<Rightarrow> local_absolute_path \<Rightarrow> runner_root_error + preflighted_root" where
  "preflight_check env app others owner root =
     (let candidate = lap_text root in
      if lap_platform root \<noteq> re_native env then Inl (ForeignPlatform candidate (lap_platform root))
      else
      and_then (reject_overlap env app others owner candidate False) (\<lambda>_.
      and_then (check_candidate env candidate) (\<lambda>_.
      and_then (project env candidate) (\<lambda>pj.
      and_then (check_missing env candidate pj) (\<lambda>_.
      if is_filesystem_root env (pj_canonical pj) then Inl (ResolvesToFilesystemRoot candidate (pj_canonical pj))
      else
      and_then (check_local env pj) (\<lambda>fs.
      and_then (check_writable env owner candidate pj) (\<lambda>_.
      and_then (reject_overlap env app others owner (pj_canonical pj) True) (\<lambda>_.
      Inr \<lparr>pf_root = root, pf_canonical = pj_canonical pj, pf_exists = (pj_missing pj = 0), pf_filesystem = fs\<rparr>))))))))"

definition leaf_to_create :: "preflighted_root \<Rightarrow> ustr option" where
  "leaf_to_create pf = (if pf_exists pf then None else Some (lap_text (pf_root pf)))"

section \<open>Derived paths\<close>

definition derive_child :: "local_absolute_path \<Rightarrow> ustr \<Rightarrow> runner_root_error + local_absolute_path" where
  "derive_child root name = map_err DerivedName (join_child root name)"

definition verify_containment :: "root_env \<Rightarrow> local_absolute_path \<Rightarrow> local_absolute_path \<Rightarrow> runner_root_error + unit" where
  "verify_containment env root child =
     (if lap_platform root \<noteq> re_native env then Inl (ForeignPlatform (lap_text root) (lap_platform root))
      else if lap_platform child \<noteq> re_native env then Inl (ForeignPlatform (lap_text child) (lap_platform child))
      else if overlap_of env (lap_text child) (lap_text root) (lap_platform root) \<noteq> Inside
      then Inl (Escapes (lap_text root) (lap_text child) (lap_text child))
      else and_then (project env (lap_text root)) (\<lambda>rp.
        and_then (project env (lap_text child)) (\<lambda>cp.
        if overlap_of env (pj_canonical cp) (pj_canonical rp) (lap_platform root) \<noteq> Inside
        then Inl (Escapes (lap_text root) (lap_text child) (pj_canonical cp)) else Inr ())))"

section \<open>Overlap as a relation on component keys\<close>

fun component_key :: "root_env \<Rightarrow> path_platform \<Rightarrow> ustr \<Rightarrow> ustr" where
  "component_key env WindowsPath c = concat (map (re_lowercase env) c)"
| "component_key env UnixPath c = c"

definition keys :: "root_env \<Rightarrow> path_platform \<Rightarrow> ustr \<Rightarrow> ustr list" where
  "keys env platform p = map (component_key env platform) (components_of p platform)"

lemma same_component_key: "same_component env l r platform \<longleftrightarrow> component_key env platform l = component_key env platform r"
  by (cases platform) auto

lemma shared_prefix_full:
  "length (takeWhile (\<lambda>(l, r). f l = f r) (zip xs ys)) < min (length xs) (length ys)
     \<longleftrightarrow> \<not> prefix (map f xs) (map f ys) \<and> \<not> prefix (map f ys) (map f xs)"
proof (induction xs arbitrary: ys)
  case (Cons x xs)
  then show ?case by (cases ys) auto
qed simp

lemma not_parallel_lengths:
  assumes "\<not> xs \<parallel> ys"
  shows "length xs = length ys \<longleftrightarrow> xs = ys" "length ys < length xs \<longleftrightarrow> strict_prefix ys xs"
proof -
  from assms have p: "prefix xs ys \<or> prefix ys xs" by (auto simp: parallel_def)
  show "length xs = length ys \<longleftrightarrow> xs = ys"
    using p by (auto simp: prefix_def)
  show "length ys < length xs \<longleftrightarrow> strict_prefix ys xs"
    using p by (auto simp: strict_prefix_def dest: prefix_length_le prefix_length_less)
       (auto simp: prefix_def)
qed

lemma overlap_of_keys:
  "overlap_of env a b platform =
     (if keys env platform a \<parallel> keys env platform b then Disjoint
      else if keys env platform a = keys env platform b then SamePath
      else if strict_prefix (keys env platform b) (keys env platform a) then Inside else Contains)"
proof -
  let ?l = "components_of a platform" and ?r = "components_of b platform"
  have full: "length (takeWhile (\<lambda>(l, r). same_component env l r platform) (zip ?l ?r)) < min (length ?l) (length ?r)
                \<longleftrightarrow> keys env platform a \<parallel> keys env platform b"
    unfolding same_component_key shared_prefix_full keys_def parallel_def by blast
  have len: "length ?l = length (keys env platform a)" "length ?r = length (keys env platform b)"
    by (simp_all add: keys_def)
  show ?thesis
    unfolding overlap_of_def Let_def full unfolding len
    using not_parallel_lengths [of "keys env platform a" "keys env platform b"] by simp
qed

lemma overlap_cases:
  "overlap_of env a b platform = Disjoint \<longleftrightarrow> keys env platform a \<parallel> keys env platform b"
  "overlap_of env a b platform = SamePath \<longleftrightarrow> keys env platform a = keys env platform b"
  "overlap_of env a b platform = Inside \<longleftrightarrow> strict_prefix (keys env platform b) (keys env platform a)"
  "overlap_of env a b platform = Contains \<longleftrightarrow> strict_prefix (keys env platform a) (keys env platform b)"
  by (auto simp: overlap_of_keys parallel_def strict_prefix_def prefix_order.antisym)

text \<open>No path lies at or below both: removing either tree leaves the other alone.\<close>

definition separate :: "root_env \<Rightarrow> ustr \<Rightarrow> ustr \<Rightarrow> bool" where
  "separate env a b \<longleftrightarrow>
     \<not> (\<exists>ks. prefix (keys env (re_native env) a) ks \<and> prefix (keys env (re_native env) b) ks)"

lemma separate_iff: "separate env a b \<longleftrightarrow> overlap_of env a b (re_native env) = Disjoint"
  unfolding separate_def overlap_cases parallel_def
  by (metis prefix_order.refl prefix_same_cases)

section \<open>What an accepted root guarantees\<close>

lemma try_map_unit: "try_map f xs = Inr ys \<Longrightarrow> x \<in> set xs \<Longrightarrow> \<exists>y. f x = Inr y"
  by (auto simp: try_map_Inr list_all2_conv_all_nth in_set_conv_nth)

lemma reject_overlap_ok:
  assumes "reject_overlap env app others owner candidate canonical = Inr ()"
  shows "e \<in> set (protected app) \<Longrightarrow> reject_protected env app canonical candidate e = Inr ()"
    and "r \<in> set others \<Longrightarrow> reject_other env owner canonical candidate r = Inr ()"
  using assms by (auto simp: reject_overlap_def dest: try_map_unit)

lemma reject_protected_ok:
  assumes "reject_protected env app canonical candidate e = Inr ()" "text_of env canonical (snd e) = Some d"
  shows "separate env candidate d
           \<or> overlap_of env candidate d (re_native env) = Inside \<and> inside_runtime env app canonical candidate"
  using assms by (auto simp: reject_protected_def separate_iff Let_def split: if_splits)

lemma reject_other_ok:
  assumes "reject_other env owner canonical candidate (own, root) = Inr ()" "own \<noteq> owner"
    "text_of env canonical (lap_text root) = Some d"
  shows "separate env candidate d"
  using assms by (auto simp: reject_other_def separate_iff Let_def split: if_splits)

lemma preflight_steps:
  assumes "preflight_check env app others owner root = Inr pf"
  obtains pj where
    "lap_platform root = re_native env" "pf_root pf = root"
    "reject_overlap env app others owner (lap_text root) False = Inr ()"
    "check_candidate env (lap_text root) = Inr ()" "project env (lap_text root) = Inr pj"
    "check_missing env (lap_text root) pj = Inr ()" "\<not> is_filesystem_root env (pj_canonical pj)"
    "check_local env pj = Inr (pf_filesystem pf)" "check_writable env owner (lap_text root) pj = Inr ()"
    "reject_overlap env app others owner (pj_canonical pj) True = Inr ()"
    "pf_canonical pf = pj_canonical pj" "pf_exists pf \<longleftrightarrow> pj_missing pj = 0"
  using assms by (auto simp: preflight_check_def Let_def split: if_splits)

lemma canonical_of_project: "project env p = Inr pj \<Longrightarrow> canonical_text env p = Some (pj_canonical pj)"
  by (simp add: canonical_text_def result_ok_def)

lemma accepted_pass:
  assumes "reject_overlap env app others owner candidate canonical = Inr ()"
  shows "(own, other) \<in> set others \<Longrightarrow> own \<noteq> owner \<Longrightarrow> text_of env canonical (lap_text other) = Some d
           \<Longrightarrow> separate env candidate d"
    and "(label, dir) \<in> set (protected app) \<Longrightarrow> text_of env canonical dir = Some d
           \<Longrightarrow> \<not> prefix (keys env (re_native env) candidate) (keys env (re_native env) d)"
proof -
  show "separate env candidate d"
    if "(own, other) \<in> set others" "own \<noteq> owner" "text_of env canonical (lap_text other) = Some d"
    using reject_other_ok [OF reject_overlap_ok(2) [OF assms that(1)] that(2,3)] .
  assume dir: "(label, dir) \<in> set (protected app)" "text_of env canonical dir = Some d"
  have "separate env candidate d \<or> overlap_of env candidate d (re_native env) = Inside"
    using reject_protected_ok [OF reject_overlap_ok(1) [OF assms dir(1)]] dir(2) by auto
  then show "\<not> prefix (keys env (re_native env) candidate) (keys env (re_native env) d)"
    unfolding separate_def overlap_cases by auto
qed

lemma split_on_snoc:
  assumes "sep d" "\<And>x. x \<in> set w \<Longrightarrow> \<not> sep x"
  shows "split_on sep (s @ d # w) = split_on sep s @ [w]"
  using assms(1)
proof (induction s)
  case (Cons x s)
  then show ?case by (cases "split_on sep s") (auto split: list.splits)
qed (simp add: split_on_plain [OF assms(2)])

lemma components_of_child:
  assumes "\<forall>x \<in> set name. \<not> is_separator platform x" "name \<noteq> []" "name \<noteq> lit ''.''"
  shows "components_of (p @ [separator platform] @ name) platform = components_of p platform @ [name]"
proof -
  have "split_on (is_separator platform) (p @ separator platform # name) = split_on (is_separator platform) p @ [name]"
    using assms(1) by (intro split_on_snoc) auto
  then show ?thesis using assms(2,3) by (simp add: components_of_def)
qed

section \<open>A sample host\<close>

definition sample_env :: root_env where
  "sample_env =
     \<lparr>re_native = UnixPath, re_macos = False, re_lowercase = (\<lambda>c. [c]),
      re_symlink_metadata = (\<lambda>p. if p \<in> set [lit ''/'', lit ''/s'', lit ''/s/b'']
        then Inr \<lparr>md_is_dir = True, md_is_symlink = False, md_is_reparse = False\<rparr> else Inl IoNotFound),
      re_canonicalize = Inr, re_is_dir = (\<lambda>_. True),
      re_identify = (\<lambda>_. Inr \<lparr>fsi_locality = LocalFs, fsi_name = lit ''ext4''\<rparr>),
      re_is_writable = (\<lambda>_. Inr True), re_is_read_only = (\<lambda>_. False), re_on_gated_volume = (\<lambda>_. False),
      re_runs_as_superuser = False\<rparr>"

definition sample_app :: app_paths where
  "sample_app = \<lparr>ap_config_dir = lit ''/c'', ap_state_dir = lit ''/t'', ap_logs_dir = lit ''/l'', ap_runtime_dir = lit ''/r''\<rparr>"

abbreviation sample_root :: "string \<Rightarrow> local_absolute_path" where
  "sample_root s \<equiv> \<lparr>lap_text = lit s, lap_platform = UnixPath\<rparr>"

lemma sample_preflight:
  "preflight_check sample_env sample_app [(HostRoot, sample_root ''/s/b'')] (RepositoryRoot (lit ''o/x'')) (sample_root ''/s/a'')
     = Inr \<lparr>pf_root = sample_root ''/s/a'', pf_canonical = lit ''/s/a'', pf_exists = False,
            pf_filesystem = \<lparr>fsi_locality = LocalFs, fsi_name = lit ''ext4''\<rparr>\<rparr>"
  by code_simp

section \<open>Properties\<close>



text \<open>A derived child lies strictly inside its root, so whatever is separate from the root is
  separate from the child; and a child that passes the containment check is strictly inside the root
  also after both are resolved, so no link planted in the root leads a removal out of it.\<close>

theorem derived_child_is_contained:
  assumes "derive_child root name = Inr child" "lap_platform root = re_native env"
  shows "overlap_of env (lap_text child) (lap_text root) (re_native env) = Inside
    \<and> (\<forall>p. separate env (lap_text root) p \<longrightarrow> separate env (lap_text child) p)
    \<and> (verify_containment env root child = Inr () \<longrightarrow>
        (\<exists>c r. canonical_text env (lap_text child) = Some c \<and> canonical_text env (lap_text root) = Some r
           \<and> overlap_of env c r (re_native env) = Inside
           \<and> (\<forall>p. separate env r p \<longrightarrow> separate env c p)))"
proof -
  have inside: "separate env r p \<Longrightarrow> separate env c p" if "overlap_of env c r (re_native env) = Inside" for c r p
    using that unfolding separate_def overlap_cases
    by (meson prefix_order.dual_order.trans prefix_order.less_imp_le)
  have "lap_text child = lap_text root @ [separator (re_native env)] @ name" "name \<noteq> []" "name \<noteq> lit ''.''"
    "\<forall>x \<in> set name. \<not> is_separator (re_native env) x"
    using assms by (auto simp: derive_child_def join_child_def list_ex_iff map_err_def split: if_splits sum.splits)
  then have "overlap_of env (lap_text child) (lap_text root) (re_native env) = Inside"
    unfolding overlap_cases keys_def by (simp add: components_of_child [simplified] strict_prefix_def)
  then show ?thesis
    using inside assms(2) by (auto simp: verify_containment_def canonical_of_project split: if_splits)
qed

theorem derived_child_is_contained_witness:
  "derive_child (sample_root ''/s/b'') (lit ''s1'') = Inr (sample_root ''/s/b/s1'')
   \<and> overlap_of sample_env (lit ''/s/b/s1'') (lit ''/s/b'') UnixPath = Inside
   \<and> verify_containment sample_env (sample_root ''/s/b'') (sample_root ''/s/b/s1'') = Inr ()"
proof -
  have "derive_child (sample_root ''/s/b'') (lit ''s1'') = Inr (sample_root ''/s/b/s1'')"
    "lap_platform (sample_root ''/s/b'') = re_native sample_env"
    "verify_containment sample_env (sample_root ''/s/b'') (sample_root ''/s/b/s1'') = Inr ()"
    by code_simp+
  then show ?thesis
    using derived_child_is_contained [of "sample_root ''/s/b''" "lit ''s1''" "sample_root ''/s/b/s1''" sample_env] by simp
qed

end
