(* ===== verification/Slots.thy ===== *)
theory Slots
  imports Attempt Runner_Root
begin

text \<open>
  Persistent slots on disk, \<open>crates/agent/src/lifecycle.rs\<close>: choosing the lowest free slot, creating
  or validating its directory, accepting it for reuse, and the scrub that removes everything but a
  real \<open>_work\<close> when an attempt is cleaned. The file system is a table of nodes keyed by path, with
  the calls the operating system refuses; a directory listing is read in one piece. Names compare
  exactly. Removing a whole tree on Windows is the \<open>remove_dir_all\<close> package: the remover is a
  parameter, with the laws of locale \<open>tree_remover\<close>.
\<close>

section \<open>A file system\<close>

datatype fs_call = Lstat | ListDir | DirEntry | MakeDir | Unlink | Rmdir

record fs =
  fs_nodes :: "(ustr \<times> metadata) list"
  fs_refuses :: "fs_call \<Rightarrow> ustr \<Rightarrow> io_kind option"

type_synonym 'a fs_step = "(io_kind + 'a) \<times> fs"
type_synonym remover = "ustr \<Rightarrow> fs \<Rightarrow> unit fs_step"

definition guarded :: "fs \<Rightarrow> fs_call \<Rightarrow> ustr \<Rightarrow> (io_kind + 'a) \<Rightarrow> io_kind + 'a" where
  "guarded s call p r = (case fs_refuses s call p of Some k \<Rightarrow> Inl k | None \<Rightarrow> r)"

definition symlink_metadata :: "fs \<Rightarrow> ustr \<Rightarrow> io_kind + metadata" where
  "symlink_metadata s p = guarded s Lstat p (case map_of (fs_nodes s) p of None \<Rightarrow> Inl IoNotFound | Some m \<Rightarrow> Inr m)"

text \<open>The name of a direct entry of a directory.\<close>

definition child_name :: "path_platform \<Rightarrow> ustr \<Rightarrow> ustr \<Rightarrow> ustr option" where
  "child_name platform dir p =
     (case strip_prefix p (path_push platform dir []) of
        None \<Rightarrow> None
      | Some name \<Rightarrow> if name = [] \<or> list_ex (is_separator platform) name then None else Some name)"

definition read_dir :: "path_platform \<Rightarrow> fs \<Rightarrow> ustr \<Rightarrow> io_kind + (io_kind + ustr) list" where
  "read_dir platform s dir =
     guarded s ListDir dir
       (case map_of (fs_nodes s) dir of
          None \<Rightarrow> Inl IoNotFound
        | Some m \<Rightarrow>
            if md_is_dir m
            then Inr (map (\<lambda>name. guarded s DirEntry (path_push platform dir name) (Inr name))
                       (remdups (List.map_filter (child_name platform dir \<circ> fst) (fs_nodes s))))
            else Inl IoNotADirectory)"

definition forget :: "(ustr \<Rightarrow> bool) \<Rightarrow> fs \<Rightarrow> fs" where
  "forget P s = s\<lparr>fs_nodes := filter (\<lambda>(q, _). \<not> P q) (fs_nodes s)\<rparr>"

definition create_dir :: "ustr \<Rightarrow> fs \<Rightarrow> unit fs_step" where
  "create_dir p s =
     (case fs_refuses s MakeDir p of
        Some k \<Rightarrow> (Inl k, s)
      | None \<Rightarrow>
          if map_of (fs_nodes s) p \<noteq> None then (Inl IoOther, s)
          else (Inr (), s\<lparr>fs_nodes := fs_nodes s @ [(p, \<lparr>md_is_dir = True, md_is_symlink = False, md_is_reparse = False\<rparr>)]\<rparr>))"

definition at_or_below :: "path_platform \<Rightarrow> ustr \<Rightarrow> ustr \<Rightarrow> bool" where
  "at_or_below platform dir p \<longleftrightarrow> p = dir \<or> starts_with p (path_push platform dir [])"

definition unlink_node :: "fs_call \<Rightarrow> (metadata \<Rightarrow> bool) \<Rightarrow> ustr \<Rightarrow> fs \<Rightarrow> unit fs_step" where
  "unlink_node call permitted p s =
     (case fs_refuses s call p of
        Some k \<Rightarrow> (Inl k, s)
      | None \<Rightarrow>
          (case map_of (fs_nodes s) p of
             None \<Rightarrow> (Inl IoNotFound, s)
           | Some m \<Rightarrow> if permitted m then (Inr (), forget (\<lambda>q. q = p) s) else (Inl IoOther, s)))"

definition remove_file :: "ustr \<Rightarrow> fs \<Rightarrow> unit fs_step" where
  "remove_file = unlink_node Unlink (\<lambda>m. \<not> md_is_dir m)"

definition remove_dir :: "path_platform \<Rightarrow> ustr \<Rightarrow> fs \<Rightarrow> unit fs_step" where
  "remove_dir platform p s =
     unlink_node Rmdir (\<lambda>m. (md_is_dir m \<or> md_is_symlink m \<or> md_is_reparse m)
       \<and> list_all (\<lambda>(q, _). q = p \<or> \<not> at_or_below platform p q) (fs_nodes s)) p s"

section \<open>Choosing and creating a slot\<close>

definition lowest_free_slot :: "runner_attempt list \<Rightarrow> u16 \<Rightarrow> u16 option" where
  "lowest_free_slot leases ceiling =
     (let held = List.map_filter (\<lambda>a. workspace_slot (attempt_workspace a)) leases
      in find (\<lambda>slot. slot \<notin> set held) (map of_nat [1..<Suc (unat ceiling)]))"

definition DEFAULT_WORK_FOLDER :: ustr where
  "DEFAULT_WORK_FOLDER = lit ''_work''"

definition is_work_folder :: "path_platform \<Rightarrow> ustr \<Rightarrow> bool" where
  "is_work_folder platform name =
     (case platform of
        WindowsPath \<Rightarrow> eq_ignore_ascii_case name DEFAULT_WORK_FOLDER
      | UnixPath \<Rightarrow> name = DEFAULT_WORK_FOLDER)"

definition is_link_like :: "path_platform \<Rightarrow> metadata \<Rightarrow> bool" where
  "is_link_like platform m \<longleftrightarrow> md_is_symlink m \<or> (platform = WindowsPath \<and> md_is_reparse m)"

definition is_retainable_work_folder :: "path_platform \<Rightarrow> ustr \<Rightarrow> metadata \<Rightarrow> bool" where
  "is_retainable_work_folder platform name m \<longleftrightarrow>
     is_work_folder platform name \<and> md_is_dir m \<and> \<not> is_link_like platform m"

text \<open>Why a slot is refused before use; the operator's sentence is left to the front end.\<close>

datatype slot_failure =
    SlotIsLink ustr
  | SlotIsFile ustr
  | SlotNotCreated ustr io_kind
  | SlotNotInspected ustr io_kind
  | SlotNotRead ustr io_kind
  | SlotEntryNotInspected ustr ustr io_kind
  | SlotHolds ustr "ustr list"

definition create_or_validate_slot :: "path_platform \<Rightarrow> ustr \<Rightarrow> fs \<Rightarrow> (slot_failure + unit) \<times> fs" where
  "create_or_validate_slot platform slot s =
     (case symlink_metadata s slot of
        Inr m \<Rightarrow>
          if is_link_like platform m then (Inl (SlotIsLink slot), s)
          else if \<not> md_is_dir m then (Inl (SlotIsFile slot), s) else (Inr (), s)
      | Inl k \<Rightarrow>
          if k = IoNotFound then (let (r, s') = create_dir slot s in (map_err (SlotNotCreated slot) r, s'))
          else (Inl (SlotNotInspected slot k), s))"

fun refused_entries ::
  "path_platform \<Rightarrow> fs \<Rightarrow> ustr \<Rightarrow> (io_kind + ustr) list \<Rightarrow> slot_failure + ustr list" where
  "refused_entries platform s slot [] = Inr []"
| "refused_entries platform s slot (Inl k # es) = Inl (SlotNotRead slot k)"
| "refused_entries platform s slot (Inr name # es) =
     (case symlink_metadata s (path_push platform slot name) of
        Inl k \<Rightarrow> Inl (SlotEntryNotInspected slot name k)
      | Inr m \<Rightarrow>
          and_then (refused_entries platform s slot es) (\<lambda>rest.
          Inr (if is_retainable_work_folder platform name m then rest else name # rest)))"

definition accept_reusable_slot :: "path_platform \<Rightarrow> fs \<Rightarrow> ustr \<Rightarrow> slot_failure + unit" where
  "accept_reusable_slot platform s slot =
     and_then (map_err (SlotNotRead slot) (read_dir platform s slot)) (\<lambda>entries.
     and_then (refused_entries platform s slot entries) (\<lambda>refused.
     if refused = [] then Inr () else Inl (SlotHolds slot (sort refused))))"

section \<open>Removing a tree\<close>

text \<open>The reparse points below a directory, unlinked as links. A level goes one name deeper, so the
  length of the longest path bounds the walk.\<close>

primrec unlink_reparse_points :: "nat \<Rightarrow> path_platform \<Rightarrow> ustr \<Rightarrow> fs \<Rightarrow> fs" where
  "unlink_reparse_points 0 platform dir s = s"
| "unlink_reparse_points (Suc n) platform dir s =
     (case read_dir platform s dir of
        Inl _ \<Rightarrow> s
      | Inr entries \<Rightarrow>
          fold (\<lambda>entry s.
            case entry of
              Inl _ \<Rightarrow> s
            | Inr name \<Rightarrow>
                (let path = path_push platform dir name in
                 case symlink_metadata s path of
                   Inl _ \<Rightarrow> s
                 | Inr m \<Rightarrow>
                     if is_link_like platform m
                     then (case remove_dir platform path s of
                             (Inr (), s') \<Rightarrow> s'
                           | (Inl _, s') \<Rightarrow> snd (remove_file path s'))
                     else if md_is_dir m then unlink_reparse_points n platform path s
                     else s)) entries s)"

definition longest_path :: "fs \<Rightarrow> nat" where
  "longest_path s = fold max (map (length \<circ> fst) (fs_nodes s)) 0"

definition remove_runtime_tree :: "path_platform \<Rightarrow> remover \<Rightarrow> ustr \<Rightarrow> fs \<Rightarrow> unit fs_step" where
  "remove_runtime_tree platform rm path s =
     (case platform of
        UnixPath \<Rightarrow> rm path s
      | WindowsPath \<Rightarrow>
          (case rm path s of
             (Inl IoPermissionDenied, s') \<Rightarrow>
               rm path (unlink_reparse_points (Suc (longest_path s')) platform path s')
           | other \<Rightarrow> other))"

section \<open>Scrubbing a slot\<close>

datatype slot_refusal =
    NotTheJournalledSlot | PolicyRootDisagrees | Containment | SlotNotADirectory
  | Enumeration | WorkNotADirectory | Deletion | Residue

fun slot_refusal_class :: "slot_refusal \<Rightarrow> ustr" where
  "slot_refusal_class NotTheJournalledSlot = lit ''slot_path_is_not_the_journalled_slot''"
| "slot_refusal_class PolicyRootDisagrees = lit ''slot_root_disagrees_with_policy''"
| "slot_refusal_class Containment = lit ''slot_escapes_its_root''"
| "slot_refusal_class SlotNotADirectory = lit ''slot_is_not_a_directory''"
| "slot_refusal_class Enumeration = lit ''slot_could_not_be_enumerated''"
| "slot_refusal_class WorkNotADirectory = lit ''retained_work_is_not_a_directory''"
| "slot_refusal_class Deletion = lit ''slot_entry_could_not_be_removed''"
| "slot_refusal_class Residue = lit ''slot_still_holds_runner_state''"

text \<open>The facts a refusal's detail is worded from.\<close>

datatype quarantine_detail =
    AboutSlot ustr u16
  | AboutRoots ustr ustr
  | AboutContainment runner_root_error
  | AboutPath ustr
  | AboutCall ustr io_kind
  | AboutResidue ustr nat "ustr list"

record slot_quarantine =
  sq_refusal :: slot_refusal
  sq_detail :: quarantine_detail

definition quarantined :: "slot_refusal \<Rightarrow> quarantine_detail \<Rightarrow> slot_quarantine" where
  "quarantined refusal detail = \<lparr>sq_refusal = refusal, sq_detail = detail\<rparr>"

definition verify_journalled_slot ::
  "root_env \<Rightarrow> ustr \<Rightarrow> u16 \<Rightarrow> local_absolute_path option \<Rightarrow> slot_quarantine + unit" where
  "verify_journalled_slot env runtime slot configured =
     (let mislaid = quarantined NotTheJournalledSlot (AboutSlot runtime slot);
          local_path = (\<lambda>p. map_err (\<lambda>_. mislaid) (parse_for p (re_native env)))
      in and_then (local_path runtime) (\<lambda>runtime_path.
         case path_parent (re_native env) runtime of
           None \<Rightarrow> Inl mislaid
         | Some parent \<Rightarrow>
             and_then (local_path parent) (\<lambda>root.
             and_then (map_err (\<lambda>_. mislaid) (derive_child root (lit ''s'' @ decimal (unat slot)))) (\<lambda>derived.
             if derived \<noteq> runtime_path then Inl mislaid
             else
               (case configured of
                  Some c \<Rightarrow>
                    if c \<noteq> root then Inl (quarantined PolicyRootDisagrees (AboutRoots runtime (lap_text c)))
                    else map_err (\<lambda>e. quarantined Containment (AboutContainment e)) (verify_containment env root derived)
                | None \<Rightarrow>
                    map_err (\<lambda>e. quarantined Containment (AboutContainment e)) (verify_containment env root derived))))))"

definition slot_is_present :: "path_platform \<Rightarrow> fs \<Rightarrow> ustr \<Rightarrow> slot_quarantine + bool" where
  "slot_is_present platform s slot =
     (case symlink_metadata s slot of
        Inl k \<Rightarrow> if k = IoNotFound then Inr False else Inl (quarantined SlotNotADirectory (AboutCall slot k))
      | Inr m \<Rightarrow>
          if \<not> md_is_dir m \<or> is_link_like platform m then Inl (quarantined SlotNotADirectory (AboutPath slot))
          else Inr True)"

definition listed_entry_metadata :: "fs \<Rightarrow> ustr \<Rightarrow> io_kind + metadata option" where
  "listed_entry_metadata s p =
     (case symlink_metadata s p of
        Inr m \<Rightarrow> Inr (Some m)
      | Inl k \<Rightarrow> if k = IoNotFound then Inr None else Inl k)"

definition remove_slot_entry :: "path_platform \<Rightarrow> remover \<Rightarrow> ustr \<Rightarrow> metadata \<Rightarrow> fs \<Rightarrow> unit fs_step" where
  "remove_slot_entry platform rm p m s =
     (let (removed, s') =
        (if is_link_like platform m
         then (case remove_file p s of
                 (Inr (), s') \<Rightarrow> (Inr (), s')
               | (Inl _, s') \<Rightarrow> remove_dir platform p s')
         else if md_is_dir m then remove_runtime_tree platform rm p s
         else remove_file p s)
      in (if removed = Inl IoNotFound then Inr () else removed, s'))"

fun scrub_entries ::
  "path_platform \<Rightarrow> remover \<Rightarrow> ustr \<Rightarrow> (io_kind + ustr) list \<Rightarrow> fs \<Rightarrow> (slot_quarantine + unit) \<times> fs" where
  "scrub_entries platform rm slot [] s = (Inr (), s)"
| "scrub_entries platform rm slot (Inl k # es) s = (Inl (quarantined Enumeration (AboutCall slot k)), s)"
| "scrub_entries platform rm slot (Inr name # es) s =
     (let path = path_push platform slot name in
      case listed_entry_metadata s path of
        Inl k \<Rightarrow> (Inl (quarantined Enumeration (AboutCall slot k)), s)
      | Inr None \<Rightarrow> scrub_entries platform rm slot es s
      | Inr (Some m) \<Rightarrow>
          if is_work_folder platform name
          then if is_retainable_work_folder platform name m then scrub_entries platform rm slot es s
               else (Inl (quarantined WorkNotADirectory (AboutPath slot)), s)
          else (case remove_slot_entry platform rm path m s of
                  (Inl k, s') \<Rightarrow> (Inl (quarantined Deletion (AboutCall slot k)), s')
                | (Inr (), s') \<Rightarrow> scrub_entries platform rm slot es s'))"

definition scrub_slot_entries :: "path_platform \<Rightarrow> remover \<Rightarrow> ustr \<Rightarrow> fs \<Rightarrow> (slot_quarantine + unit) \<times> fs" where
  "scrub_slot_entries platform rm slot s =
     (case read_dir platform s slot of
        Inl k \<Rightarrow> (Inl (quarantined Enumeration (AboutCall slot k)), s)
      | Inr entries \<Rightarrow> scrub_entries platform rm slot entries s)"

definition SENSITIVE_SLOT_ENTRIES :: "ustr list" where
  "SENSITIVE_SLOT_ENTRIES = map lit
     [''bin'', ''externals'', ''run.sh'', ''run.cmd'', ''config.sh'', ''config.cmd'', ''.runner'', ''.credentials'',
      ''.credentials_rsaparams'', ''.env'', ''.path'', ''_diag'', ''.runner-process.json'', ''.runner-process.recovery.json'',
      ''.runner-process.unresolved'', ''.github-runner-id'', ''.terminate-registration-timeout'']"

definition NAME_PREFIX :: ustr where
  "NAME_PREFIX = lit ''jit-''"

fun count_residue ::
  "path_platform \<Rightarrow> fs \<Rightarrow> ustr \<Rightarrow> (io_kind + ustr) list \<Rightarrow> slot_quarantine + nat \<times> ustr list" where
  "count_residue platform s slot [] = Inr (0, [])"
| "count_residue platform s slot (Inl k # es) = Inl (quarantined Enumeration (AboutCall slot k))"
| "count_residue platform s slot (Inr name # es) =
     (case listed_entry_metadata s (path_push platform slot name) of
        Inl k \<Rightarrow> Inl (quarantined Enumeration (AboutCall slot k))
      | Inr None \<Rightarrow> count_residue platform s slot es
      | Inr (Some m) \<Rightarrow>
          if is_retainable_work_folder platform name m then count_residue platform s slot es
          else and_then (count_residue platform s slot es) (\<lambda>(residue, named).
            Inr (Suc residue, if starts_with name NAME_PREFIX then lit ''an encoded JIT handoff'' # named else named)))"

definition verify_slot_scrubbed :: "path_platform \<Rightarrow> fs \<Rightarrow> ustr \<Rightarrow> slot_quarantine + unit" where
  "verify_slot_scrubbed platform s slot =
     (case read_dir platform s slot of
        Inl k \<Rightarrow> Inl (quarantined Enumeration (AboutCall slot k))
      | Inr entries \<Rightarrow>
          and_then (count_residue platform s slot entries) (\<lambda>(residue, listed).
          let named = listed @ map (\<lambda>entry. lit ''`'' @ entry @ lit ''`'')
                (filter (\<lambda>entry. \<not> isl (symlink_metadata s (path_push platform slot entry))) SENSITIVE_SLOT_ENTRIES)
          in if residue = 0 \<and> named = [] then Inr ()
             else Inl (quarantined Residue (AboutResidue slot residue (remdups_adj (sort named))))))"

definition remove_materialized_package ::
  "path_platform \<Rightarrow> remover \<Rightarrow> runner_attempt \<Rightarrow> fs \<Rightarrow> unit fs_step" where
  "remove_materialized_package platform rm a s =
     (case attempt_workspace a of
        EphemeralWorkspace \<Rightarrow> remove_runtime_tree platform rm (runtime_path a) s
      | PersistentSlot _ \<Rightarrow>
          (let (r, s') = scrub_slot_entries platform rm (runtime_path a) s in (map_err (\<lambda>_. IoOther) r, s')))"

section \<open>Confinement\<close>

abbreviation node :: "fs \<Rightarrow> ustr \<Rightarrow> metadata option" where
  "node s \<equiv> map_of (fs_nodes s)"

text \<open>Between two states only nodes of a region went away, and nothing else changed.\<close>

definition confined :: "(ustr \<Rightarrow> bool) \<Rightarrow> fs \<Rightarrow> fs \<Rightarrow> bool" where
  "confined R s s' \<longleftrightarrow> fs_refuses s' = fs_refuses s \<and> (\<forall>q. node s' q = node s q \<or> R q \<and> node s' q = None)"

lemma confined_refl [intro, simp]: "confined R s s"
  by (simp add: confined_def)

lemma confined_trans: "confined R s s' \<Longrightarrow> confined R s' s'' \<Longrightarrow> confined R s s''"
  unfolding confined_def by metis

lemma confined_mono: "confined R s s' \<Longrightarrow> (\<And>q. R q \<Longrightarrow> R' q) \<Longrightarrow> confined R' s s'"
  unfolding confined_def by blast

lemma confined_outside: "confined R s s' \<Longrightarrow> \<not> R q \<Longrightarrow> node s' q = node s q"
  unfolding confined_def by blast

lemma confined_gone: "confined R s s' \<Longrightarrow> node s q = None \<Longrightarrow> node s' q = None"
  unfolding confined_def by metis

lemma confined_kept: "confined R s s' \<Longrightarrow> node s' q = Some m \<Longrightarrow> node s q = Some m"
  unfolding confined_def by (metis option.discI)

lemma confined_refuses: "confined R s s' \<Longrightarrow> fs_refuses s' = fs_refuses s"
  by (simp add: confined_def)

lemma node_forget [simp]: "node (forget P s) q = (if P q then None else node s q)"
proof -
  have "map_of (filter (\<lambda>(q, _). \<not> P q) xs) q = (if P q then None else map_of xs q)" for xs :: "(ustr \<times> metadata) list"
    by (induction xs) auto
  then show ?thesis by (simp add: forget_def)
qed

lemma forget_confined: "(\<And>q. P q \<Longrightarrow> R q) \<Longrightarrow> confined R s (forget P s)"
  by (simp add: confined_def) (simp add: forget_def)

lemma unlink_node_confined: "unlink_node call ok p s = (r, s') \<Longrightarrow> R p \<Longrightarrow> confined R s s'"
  by (auto simp: unlink_node_def intro!: forget_confined split: option.splits if_splits)

lemma unlink_node_done: "unlink_node call ok p s = (Inr (), s') \<Longrightarrow> node s' p = None"
  by (auto simp: unlink_node_def split: option.splits if_splits)

section \<open>Regions\<close>

lemma path_push_append: "path_push platform p name = path_push platform p [] @ name"
  by (simp add: path_push_def)

lemma starts_with_iff: "starts_with s p \<longleftrightarrow> (\<exists>r. s = p @ r)"
  by (auto simp: starts_with_def) (metis append_take_drop_id)

lemma path_push_extends: "\<exists>x. path_push platform p [] = p @ x"
  by (simp add: path_push_def)

lemma below_push: "at_or_below platform (path_push platform dir name) q \<Longrightarrow> at_or_below platform dir q"
proof -
  obtain x where "path_push platform (path_push platform dir name) [] = path_push platform dir [] @ name @ x"
    using path_push_extends [of platform "path_push platform dir name"] path_push_append [of platform dir name] by auto
  then show "at_or_below platform (path_push platform dir name) q \<Longrightarrow> at_or_below platform dir q"
    using path_push_append [of platform dir name] by (auto simp: at_or_below_def starts_with_iff)
qed

definition entry_name :: "path_platform \<Rightarrow> ustr \<Rightarrow> bool" where
  "entry_name platform name \<longleftrightarrow> name \<noteq> [] \<and> \<not> list_ex (is_separator platform) name"

lemma child_name_iff: "child_name platform dir p = Some name \<longleftrightarrow> entry_name platform name \<and> p = path_push platform dir name"
  unfolding path_push_append [of platform dir name] child_name_def entry_name_def strip_prefix_def starts_with_iff
  by (auto split: if_splits option.splits)

lemma push_entry: "entry_name platform name \<Longrightarrow> path_push platform (path_push platform dir name) [] = path_push platform dir name @ [separator platform]"
  using last_in_set [of name] unfolding path_push_append [of platform dir name]
  by (auto simp: path_push_def entry_name_def list_ex_iff)

text \<open>What lies at or below one entry lies at or below no other.\<close>

lemma entries_apart:
  assumes "entry_name platform a" "entry_name platform b"
    and "at_or_below platform (path_push platform dir a) q" "at_or_below platform (path_push platform dir b) q"
  shows "a = b"
proof -
  have form: "\<exists>r. q = path_push platform dir [] @ n @ r \<and> (r = [] \<or> hd r = separator platform)"
    if "entry_name platform n" "at_or_below platform (path_push platform dir n) q" for n
    using that(2) unfolding at_or_below_def starts_with_iff push_entry [OF that(1)]
    by (auto simp: path_push_append [of platform dir n])
  have first: "takeWhile (\<lambda>c. \<not> is_separator platform c) (n @ r) = n"
    if "entry_name platform n" "r = [] \<or> hd r = separator platform" for n r :: ustr
  proof -
    have "takeWhile (\<lambda>c. \<not> is_separator platform c) r = []" using that(2) by (cases r) auto
    then show ?thesis using that(1) by (simp add: takeWhile_append2 entry_name_def list_ex_iff)
  qed
  show ?thesis using form [OF assms(1,3)] form [OF assms(2,4)] first assms(1,2) by (metis append_same_eq same_append_eq)
qed

lemma at_or_below_self [simp]: "at_or_below platform p p"
  by (simp add: at_or_below_def)

lemma remove_dir_confined: "remove_dir platform p s = (r, s') \<Longrightarrow> R p \<Longrightarrow> confined R s s'"
  unfolding remove_dir_def by (rule unlink_node_confined)

lemma remove_file_confined: "remove_file p s = (r, s') \<Longrightarrow> R p \<Longrightarrow> confined R s s'"
  unfolding remove_file_def by (rule unlink_node_confined)

lemma unlink_link_confined:
  assumes "R p"
  shows "confined R s (case remove_dir platform p s of (Inr (), s') \<Rightarrow> s' | (Inl _, s') \<Rightarrow> snd (remove_file p s'))"
proof -
  obtain r s1 where d: "remove_dir platform p s = (r, s1)" by fastforce
  obtain r' s2 where f: "remove_file p s1 = (r', s2)" by fastforce
  have "confined R s s1" "confined R s s2"
    using remove_dir_confined [where R = R, OF d] remove_file_confined [where R = R, OF f] assms confined_trans by blast+
  then show ?thesis by (simp add: d f split: sum.split unit.split)
qed

lemma fold_confined: "(\<And>x s. confined R s (f x s)) \<Longrightarrow> confined R s (fold f xs s)"
  by (induction xs arbitrary: s) (auto intro: confined_trans)

lemma unlink_reparse_points_confined: "confined (at_or_below platform dir) s (unlink_reparse_points n platform dir s)"
proof (induction n arbitrary: dir s)
  case (Suc n)
  have down: "confined (at_or_below platform dir) s (unlink_reparse_points n platform (path_push platform dir name) s)" for name s
    by (rule confined_mono [OF Suc.IH]) (rule below_push)
  have link: "at_or_below platform dir (path_push platform dir name)" for name
    by (rule below_push [of _ _ name]) simp
  show ?case
    by (auto simp: Let_def down unlink_link_confined [where R = "at_or_below platform dir", OF link] intro!: fold_confined split: sum.splits)
qed simp

section \<open>The tree remover\<close>

locale tree_remover =
  fixes platform :: path_platform and rm :: remover
  assumes rm_confined: "rm p s = (r, s') \<Longrightarrow> confined (at_or_below platform p) s s'"
    and rm_done: "rm p s = (Inr (), s') \<Longrightarrow> at_or_below platform p q \<Longrightarrow> node s' q = None"
begin

lemma tree_alt:
  "remove_runtime_tree platform rm p s =
     (if platform = UnixPath \<or> fst (rm p s) \<noteq> Inl IoPermissionDenied then rm p s
      else rm p (unlink_reparse_points (Suc (longest_path (snd (rm p s)))) platform p (snd (rm p s))))"
  unfolding remove_runtime_tree_def
  by (cases platform; cases "rm p s"; cases "fst (rm p s)") (auto split: io_kind.splits)

lemma tree_confined:
  assumes "remove_runtime_tree platform rm p s = (r, s')"
  shows "confined (at_or_below platform p) s s'"
proof -
  have one: "confined (at_or_below platform p) s (snd (rm p s))" for s by (rule rm_confined) (rule prod.collapse [symmetric])
  have "s' = snd (remove_runtime_tree platform rm p s)" using assms by simp
  then show ?thesis
    using one [of s] confined_trans [OF one confined_trans [OF unlink_reparse_points_confined one]]
    unfolding tree_alt by (simp del: unlink_reparse_points.simps)
qed

lemma tree_done: "remove_runtime_tree platform rm p s = (Inr (), s') \<Longrightarrow> at_or_below platform p q \<Longrightarrow> node s' q = None"
  unfolding tree_alt by (auto split: if_splits intro: rm_done simp del: unlink_reparse_points.simps)

lemma entry_confined:
  assumes "remove_slot_entry platform rm p m s = (r, s')"
  shows "confined (at_or_below platform p) s s'"
proof -
  let ?R = "at_or_below platform p"
  have dir: "confined ?R s (snd (remove_dir platform p s))" for s
    by (rule remove_dir_confined [where R = ?R, OF prod.collapse [symmetric]]) simp
  have unlink: "confined ?R s (snd (remove_file p s))" for s
    by (rule remove_file_confined [where R = ?R, OF prod.collapse [symmetric]]) simp
  have tree: "confined ?R s (snd (remove_runtime_tree platform rm p s))" for s
    by (rule tree_confined [OF prod.collapse [symmetric]])
  have link: "confined ?R s (snd (case remove_file p s of (Inr (), s') \<Rightarrow> (Inr (), s') | (Inl _, s') \<Rightarrow> remove_dir platform p s'))"
    using unlink [of s] confined_trans [OF unlink dir, of s] by (simp add: case_prod_beta split: sum.split unit.split)
  have "s' = snd (remove_slot_entry platform rm p m s)" using assms by simp
  then show ?thesis
    unfolding remove_slot_entry_def Let_def using link unlink [of s] tree [of s] by (auto simp: case_prod_beta split: if_splits)
qed

text \<open>The region a scrub may touch: what lies at or below an entry that is no work folder.\<close>

definition disposable :: "ustr \<Rightarrow> ustr \<Rightarrow> bool" where
  "disposable slot q \<longleftrightarrow> (\<exists>name. \<not> is_work_folder platform name \<and> entry_name platform name
     \<and> at_or_below platform (path_push platform slot name) q)"

end

lemma set_map_filter: "y \<in> set (List.map_filter f xs) \<longleftrightarrow> (\<exists>x \<in> set xs. f x = Some y)"
  by (induction xs) (auto simp: map_filter_simps split: option.splits)

lemma child_names:
  "name \<in> set (List.map_filter (child_name platform dir \<circ> fst) xs)
     \<longleftrightarrow> entry_name platform name \<and> path_push platform dir name \<in> fst ` set xs"
  unfolding set_map_filter comp_apply child_name_iff image_iff by metis

lemma read_dir_names:
  assumes "read_dir platform s dir = Inr es" "Inr name \<in> set es"
  shows "entry_name platform name"
  using assms
  by (auto simp: read_dir_def guarded_def child_names split: option.splits if_splits)

lemma read_dir_complete:
  assumes "read_dir platform s dir = Inr es" "entry_name platform name" "node s (path_push platform dir name) = Some m"
  shows "Inr name \<in> set es \<or> (\<exists>k. Inl k \<in> set es)"
proof -
  have "(path_push platform dir name, m) \<in> set (fs_nodes s)" using assms(3) by (rule map_of_SomeD)
  then have "name \<in> set (remdups (List.map_filter (child_name platform dir \<circ> fst) (fs_nodes s)))"
    using assms(2) by (force simp: child_names)
  moreover have "es = map (\<lambda>name. guarded s DirEntry (path_push platform dir name) (Inr name))
      (remdups (List.map_filter (child_name platform dir \<circ> fst) (fs_nodes s)))"
    using assms(1) by (simp add: read_dir_def guarded_def split: option.splits if_splits)
  ultimately have "guarded s DirEntry (path_push platform dir name) (Inr name) \<in> set es" by simp
  then show ?thesis by (cases "fs_refuses s DirEntry (path_push platform dir name)") (auto simp: guarded_def)
qed

context tree_remover
begin

lemma scrub_entries_confined:
  assumes "scrub_entries platform rm slot es s = (r, s')" "\<And>name. Inr name \<in> set es \<Longrightarrow> entry_name platform name"
  shows "confined (disposable slot) s s'"
  using assms
proof (induction es arbitrary: s)
  case (Cons e es)
  show ?case
  proof (cases e)
    case (Inr name)
    let ?p = "path_push platform slot name"
    have rest: "confined (disposable slot) s1 s'" if "scrub_entries platform rm slot es s1 = (r, s')" for s1
      using Cons.IH [OF that] Cons.prems(2) by simp
    have step: "confined (disposable slot) s s1"
      if "remove_slot_entry platform rm ?p m s = (r1, s1)" "\<not> is_work_folder platform name" for m r1 s1
      using confined_mono [OF entry_confined [OF that(1)], of "disposable slot"] that(2) Cons.prems(2) Inr
      unfolding disposable_def by auto
    show ?thesis
    proof (cases "\<exists>m. listed_entry_metadata s ?p = Inr (Some m) \<and> \<not> is_work_folder platform name")
      case True
      then obtain m r1 s1 where m: "listed_entry_metadata s ?p = Inr (Some m)" "\<not> is_work_folder platform name"
        and rm: "remove_slot_entry platform rm ?p m s = (r1, s1)" by (metis surj_pair)
      show ?thesis
        using Cons.prems(1) step [OF rm m(2)] rest confined_trans [OF step [OF rm m(2)] rest] unfolding Inr
        by (cases r1) (simp_all add: Let_def m rm split: unit.splits)
    next
      case False
      then show ?thesis
        using Cons.prems(1) rest [of s] unfolding Inr by (simp add: Let_def split: sum.splits option.splits if_splits)
    qed
  qed (use Cons.prems in simp)
qed simp

lemma scrub_confined:
  assumes "scrub_slot_entries platform rm slot s = (r, s')"
  shows "confined (disposable slot) s s'"
  using assms
  by (auto simp: scrub_slot_entries_def split: sum.splits intro!: scrub_entries_confined dest: read_dir_names)

text \<open>Outside the slot, and at or below its work folder, nothing is disposable.\<close>

lemma not_disposable:
  assumes "\<not> at_or_below platform slot q \<or> q = slot
    \<or> (\<exists>w. is_work_folder platform w \<and> entry_name platform w \<and> at_or_below platform (path_push platform slot w) q)"
  shows "\<not> disposable slot q"
proof
  assume "disposable slot q"
  then obtain name where n: "\<not> is_work_folder platform name" "entry_name platform name"
      "at_or_below platform (path_push platform slot name) q"
    unfolding disposable_def by blast
  have "at_or_below platform slot q" by (rule below_push) (rule n(3))
  moreover have "q \<noteq> slot"
  proof
    assume "q = slot"
    moreover have "length slot < length (path_push platform slot name)"
      using n(2) path_push_extends [of platform slot]
      by (auto simp: path_push_append [of platform slot name] entry_name_def)
    moreover obtain x where "q = path_push platform slot name @ x"
      using n(3) push_entry [OF n(2), of slot] by (auto simp: at_or_below_def starts_with_iff)
    ultimately show False by (metis append_eq_conv_conj length_append not_add_less1)
  qed
  ultimately show False using assms n entries_apart by blast
qed

end

lemma count_residue_zero:
  assumes "count_residue platform s slot es = Inr (0, named)" "Inr name \<in> set es"
    and "symlink_metadata s (path_push platform slot name) = Inr m"
  shows "is_retainable_work_folder platform name m"
  using assms
proof (induction es arbitrary: named)
  case (Cons e es)
  then show ?case
    by (cases e) (auto simp: listed_entry_metadata_def split: sum.splits option.splits if_splits)
qed simp

lemma count_residue_readable: "count_residue platform s slot es = Inr r \<Longrightarrow> Inl k \<notin> set es"
proof (induction es arbitrary: r)
  case (Cons e es)
  then show ?case by (cases e) (auto split: sum.splits option.splits if_splits)
qed simp

section \<open>The standard remover\<close>

text \<open>\<open>std::fs::remove_dir_all\<close>: the tree goes entry by entry, deepest first, until a call is refused.\<close>

fun unlink_all :: "(ustr \<times> metadata) list \<Rightarrow> fs \<Rightarrow> unit fs_step" where
  "unlink_all [] s = (Inr (), s)"
| "unlink_all ((q, m) # qs) s =
     (case fs_refuses s (if md_is_dir m then Rmdir else Unlink) q of
        Some k \<Rightarrow> (Inl k, s)
      | None \<Rightarrow> unlink_all qs (forget (\<lambda>r. r = q) s))"

definition remove_dir_all :: "path_platform \<Rightarrow> ustr \<Rightarrow> fs \<Rightarrow> unit fs_step" where
  "remove_dir_all platform p s =
     (if node s p = None then (Inl IoNotFound, s)
      else unlink_all (rev (sort_key (length \<circ> fst) (filter (at_or_below platform p \<circ> fst) (fs_nodes s)))) s)"

lemma unlink_all_confined: "unlink_all qs s = (r, s') \<Longrightarrow> (\<And>q. q \<in> fst ` set qs \<Longrightarrow> R q) \<Longrightarrow> confined R s s'"
proof (induction qs s rule: unlink_all.induct)
  case (2 q m qs s)
  have step: "confined R s (forget (\<lambda>r. r = q) s)" using 2(3) by (intro forget_confined) auto
  show ?case
  proof (cases "fs_refuses s (if md_is_dir m then Rmdir else Unlink) q")
    case None
    then show ?thesis using 2 confined_trans [OF step] by simp
  qed (use 2(2) in simp)
qed simp

lemma unlink_all_done: "unlink_all qs s = (Inr (), s') \<Longrightarrow> q \<in> fst ` set qs \<Longrightarrow> node s' q = None"
proof (induction qs s rule: unlink_all.induct)
  case (2 p m qs s)
  show ?case
  proof (cases "q \<in> fst ` set qs")
    case True
    then show ?thesis using 2 by (simp split: option.splits)
  next
    case False
    then have "q = p" using 2(3) by auto
    moreover have "unlink_all qs (forget (\<lambda>r. r = p) s) = (Inr (), s')" using 2(2) by (simp split: option.splits)
    then have "confined (\<lambda>_. True) (forget (\<lambda>r. r = p) s) s'" by (rule unlink_all_confined) simp
    ultimately show ?thesis using confined_gone by fastforce
  qed
qed simp

lemma remove_dir_all_confined:
  assumes "remove_dir_all platform p s = (r, s')"
  shows "confined (at_or_below platform p) s s'"
proof (cases "node s p = None")
  case False
  let ?ts = "rev (sort_key (length \<circ> fst) (filter (at_or_below platform p \<circ> fst) (fs_nodes s)))"
  have "unlink_all ?ts s = (r, s')" using assms False by (simp add: remove_dir_all_def)
  then show ?thesis by (rule unlink_all_confined) auto
qed (use assms in \<open>simp add: remove_dir_all_def\<close>)

lemma remove_dir_all_done:
  assumes rm: "remove_dir_all platform p s = (Inr (), s')" and q: "at_or_below platform p q"
  shows "node s' q = None"
proof (cases "node s q")
  case None
  then show ?thesis using confined_gone [OF remove_dir_all_confined [OF rm]] by simp
next
  case (Some m)
  let ?ts = "rev (sort_key (length \<circ> fst) (filter (at_or_below platform p \<circ> fst) (fs_nodes s)))"
  have "unlink_all ?ts s = (Inr (), s')" using rm by (simp add: remove_dir_all_def split: if_splits)
  moreover have "(q, m) \<in> set ?ts" using q map_of_SomeD [OF Some] by simp
  then have "q \<in> fst ` set ?ts" by (rule rev_image_eqI) simp
  ultimately show ?thesis by (rule unlink_all_done)
qed

interpretation std_remover: tree_remover platform "remove_dir_all platform" for platform
  by unfold_locales (rule remove_dir_all_confined, assumption, rule remove_dir_all_done)

section \<open>Slots in use\<close>

lemma work_folder_entry:
  assumes "is_work_folder platform w"
  shows "entry_name platform w"
proof -
  have "map to_ascii_lower w = lit ''_work''"
    using assms by (cases platform) (simp_all add: is_work_folder_def DEFAULT_WORK_FOLDER_def str_defs)
  then have w: "w \<noteq> []" "to_ascii_lower ` set w = set (lit ''_work'')"
    by (auto simp flip: set_map)
  have sep: "to_ascii_lower x \<notin> set (lit ''_work'')" if "is_separator platform x" for x
    using that by (cases platform) (auto simp: to_ascii_lower_def is_ascii_uppercase_def)
  then show ?thesis using w unfolding entry_name_def list_ex_iff by (metis imageI)
qed

definition held_slots :: "runner_attempt list \<Rightarrow> u16 set" where
  "held_slots leases = {slot. \<exists>a \<in> set leases. workspace_slot (attempt_workspace a) = Some slot}"

lemma find_least:
  assumes "sorted xs" "find P xs = Some x"
  shows "x \<in> set xs \<and> P x \<and> (\<forall>y \<in> set xs. y < x \<longrightarrow> \<not> P y)"
  using assms by (induction xs) (auto split: if_splits simp: not_less)

lemma slot_numbers:
  "set (map of_nat [1..<Suc (unat n)]) = {s :: u16. 1 \<le> s \<and> s \<le> n}" "sorted (map of_nat [1..<Suc (unat n)] :: u16 list)"
proof -
  have small: "k < 2 ^ 16" if "k \<le> unat n" for k using that unsigned_less [of n, where ?'a = nat] by simp
  have unat_back: "unat (of_nat k :: u16) = k" if "k \<le> unat n" for k
    using small [OF that] by (simp add: unat_of_nat take_bit_nat_eq_self)
  show "sorted (map of_nat [1..<Suc (unat n)] :: u16 list)"
    by (intro sorted_map_mono sorted_upt) (auto simp: mono_on_def word_le_nat_alt unat_back simp del: upt_Suc)
  show "set (map of_nat [1..<Suc (unat n)]) = {s :: u16. 1 \<le> s \<and> s \<le> n}"
  proof (intro equalityI subsetI)
    fix s :: u16 assume "s \<in> {s. 1 \<le> s \<and> s \<le> n}"
    then have "unat s \<in> set [1..<Suc (unat n)]" "s = of_nat (unat s)"
      by (auto simp: word_le_nat_alt)
    then show "s \<in> set (map of_nat [1..<Suc (unat n)])" by (metis image_eqI image_set)
  qed (auto simp: word_le_nat_alt unat_back)
qed

lemma held_slots_list: "set (List.map_filter (\<lambda>a. workspace_slot (attempt_workspace a)) leases) = held_slots leases"
  by (auto simp: held_slots_def set_map_filter)

lemma card_held_slots: "finite (held_slots leases)" "card (held_slots leases) \<le> length leases"
proof -
  have "held_slots leases \<subseteq> (\<lambda>a. the (workspace_slot (attempt_workspace a))) ` set leases"
    by (force simp: held_slots_def)
  then show "finite (held_slots leases)" "card (held_slots leases) \<le> length leases"
    by (auto intro: finite_subset) (meson card_image_le card_length card_mono finite_imageI finite_set le_trans)
qed

lemma count_residue_accepts:
  assumes "count_residue platform s slot es = Inr (0, named)"
    and "\<And>name. Inr name \<in> set es \<Longrightarrow> symlink_metadata s (path_push platform slot name) \<noteq> Inl IoNotFound"
  shows "refused_entries platform s slot es = Inr []"
  using assms
proof (induction es arbitrary: named)
  case (Cons e es)
  show ?case
  proof (cases e)
    case (Inr name)
    then show ?thesis
      using Cons.prems Cons.IH
      by (cases "symlink_metadata s (path_push platform slot name)")
         (auto simp: listed_entry_metadata_def split: if_splits)
  qed (use Cons.prems in simp)
qed simp

lemma count_residue_stat:
  assumes "count_residue platform s slot es = Inr r" "Inr name \<in> set es"
  shows "symlink_metadata s (path_push platform slot name) = Inl IoNotFound
    \<or> (\<exists>m. symlink_metadata s (path_push platform slot name) = Inr m)"
  using assms
proof (induction es arbitrary: r)
  case (Cons e es)
  then show ?case
    by (cases e; cases "symlink_metadata s (path_push platform slot name)")
       (auto simp: listed_entry_metadata_def split: sum.splits option.splits if_splits)
qed simp

lemma read_dir_present:
  assumes "read_dir platform s dir = Inr es" "Inr name \<in> set es"
  shows "\<exists>m. node s (path_push platform dir name) = Some m"
proof -
  have "path_push platform dir name \<in> fst ` set (fs_nodes s)"
    using assms by (auto simp: read_dir_def guarded_def child_names split: option.splits if_splits)
  then show ?thesis by (metis map_of_eq_None_iff not_None_eq)
qed

lemma card_slot_numbers: "card {s :: u16. 1 \<le> s \<and> s \<le> n} = unat n"
proof -
  have "bij_betw unat {s :: u16. 1 \<le> s \<and> s \<le> n} {1..unat n}"
  proof (rule bij_betw_byWitness [where f' = of_nat])
    show "of_nat ` {1..unat n} \<subseteq> {s :: u16. 1 \<le> s \<and> s \<le> n}"
      using slot_numbers(1) [of n] by (simp add: atLeastLessThanSuc_atLeastAtMost del: upt_Suc)
    have "unat (of_nat k :: u16) = k" if "k \<le> unat n" for k
      using that unsigned_less [of n, where ?'a = nat] by (simp add: unat_of_nat take_bit_nat_eq_self)
    then show "\<forall>k \<in> {1..unat n}. unat (of_nat k :: u16) = k" by simp
  qed (auto simp: word_le_nat_alt)
  then show ?thesis by (simp add: bij_betw_same_card)
qed

lemma verify_scrubbed_steps:
  assumes "verify_slot_scrubbed platform s slot = Inr ()"
  obtains es named where "read_dir platform s slot = Inr es" "count_residue platform s slot es = Inr (0, named)"
    "\<And>entry. entry \<in> set SENSITIVE_SLOT_ENTRIES \<Longrightarrow> isl (symlink_metadata s (path_push platform slot entry))"
  using assms
  by (auto simp: verify_slot_scrubbed_def Let_def filter_empty_conv split: sum.splits if_splits)

section \<open>A sample slot\<close>

definition a_dir :: metadata where
  "a_dir = \<lparr>md_is_dir = True, md_is_symlink = False, md_is_reparse = False\<rparr>"

definition a_file :: metadata where
  "a_file = \<lparr>md_is_dir = False, md_is_symlink = False, md_is_reparse = False\<rparr>"

definition sample_fs :: fs where
  "sample_fs =
     \<lparr>fs_nodes = [(lit ''/b/s1'', a_dir), (lit ''/b/s1/_work'', a_dir), (lit ''/b/s1/_work/x'', a_file),
        (lit ''/b/s1/bin'', a_dir), (lit ''/b/s1/bin/r'', a_file), (lit ''/b/s2'', a_dir)],
      fs_refuses = (\<lambda>_ _. None)\<rparr>"

definition scrubbed_fs :: fs where
  "scrubbed_fs = snd (scrub_slot_entries UnixPath (remove_dir_all UnixPath) (lit ''/b/s1'') sample_fs)"

lemma sample_scrub:
  "fst (scrub_slot_entries UnixPath (remove_dir_all UnixPath) (lit ''/b/s1'') sample_fs) = Inr ()"
  "map fst (fs_nodes scrubbed_fs) = [lit ''/b/s1'', lit ''/b/s1/_work'', lit ''/b/s1/_work/x'', lit ''/b/s2'']"
  "verify_slot_scrubbed UnixPath scrubbed_fs (lit ''/b/s1'') = Inr ()"
  "isl (verify_slot_scrubbed UnixPath sample_fs (lit ''/b/s1''))"
  by code_simp+

section \<open>Properties\<close>

text \<open>C38. Cleaning a persistent slot is confined: whatever the scrub answers, it adds nothing, removes
  nothing outside the slot, keeps the slot directory itself, and never touches anything at or below
  the retained job workspace, in any spelling of its name the platform treats as the same
  directory. The tree remover is only assumed to stay at or below the path it is given.\<close>

theorem scrub_keeps_job_workspace:
  assumes "tree_remover platform rm" "scrub_slot_entries platform rm slot s = (r, s')"
  shows "(\<forall>q m. node s' q = Some m \<longrightarrow> node s q = Some m)
    \<and> (\<forall>q. \<not> at_or_below platform slot q \<longrightarrow> node s' q = node s q) \<and> node s' slot = node s slot
    \<and> (\<forall>w q. is_work_folder platform w \<and> at_or_below platform (path_push platform slot w) q \<longrightarrow> node s' q = node s q)"
proof -
  note c = tree_remover.scrub_confined [OF assms]
  note keep = confined_outside [OF c tree_remover.not_disposable [OF assms(1)]]
  show ?thesis using confined_kept [OF c] keep work_folder_entry by blast
qed

theorem scrub_keeps_job_workspace_witness:
  "fst (scrub_slot_entries UnixPath (remove_dir_all UnixPath) (lit ''/b/s1'') sample_fs) = Inr ()
   \<and> node scrubbed_fs (lit ''/b/s1/bin'') = None \<and> node sample_fs (lit ''/b/s1/bin'') = Some a_dir
   \<and> node scrubbed_fs (lit ''/b/s1/_work/x'') = node sample_fs (lit ''/b/s1/_work/x'')"
proof -
  have run: "scrub_slot_entries UnixPath (remove_dir_all UnixPath) (lit ''/b/s1'') sample_fs = (Inr (), scrubbed_fs)"
    using sample_scrub(1) by (simp add: scrubbed_fs_def prod_eq_iff)
  have "is_work_folder UnixPath (lit ''_work'')"
    "at_or_below UnixPath (path_push UnixPath (lit ''/b/s1'') (lit ''_work'')) (lit ''/b/s1/_work/x'')"
    "node scrubbed_fs (lit ''/b/s1/bin'') = None" "node sample_fs (lit ''/b/s1/bin'') = Some a_dir"
    by code_simp+
  then show ?thesis
    using scrub_keeps_job_workspace [OF std_remover.tree_remover_axioms run] sample_scrub(1) by blast
qed

text \<open>C39. A slot that passes verification after its scrub holds nothing but a real work folder: every
  direct entry that is there is a directory named as the job workspace and no link, so none of the
  runner's binaries, credentials, sidecars or handoffs is left. Such a slot is accepted for reuse by
  the next attempt. (A file that exists is assumed not to be reported as missing.)\<close>

theorem scrubbed_slot_is_reusable:
  assumes "verify_slot_scrubbed platform s slot = Inr ()" "\<And>q m. node s q = Some m \<Longrightarrow> fs_refuses s Lstat q \<noteq> Some IoNotFound"
  shows "(\<forall>name m. entry_name platform name \<and> node s (path_push platform slot name) = Some m
            \<longrightarrow> is_retainable_work_folder platform name m)
    \<and> (\<forall>entry \<in> set SENSITIVE_SLOT_ENTRIES. isl (symlink_metadata s (path_push platform slot entry)))
    \<and> accept_reusable_slot platform s slot = Inr ()"
proof -
  obtain es named where es: "read_dir platform s slot = Inr es" "count_residue platform s slot es = Inr (0, named)"
    and sens: "\<And>entry. entry \<in> set SENSITIVE_SLOT_ENTRIES \<Longrightarrow> isl (symlink_metadata s (path_push platform slot entry))"
    using verify_scrubbed_steps [OF assms(1)] by blast
  have there: "symlink_metadata s (path_push platform slot name) \<noteq> Inl IoNotFound"
    if "Inr name \<in> set es" for name
  proof -
    from read_dir_present [OF es(1) that] show ?thesis using assms(2) by (auto simp: symlink_metadata_def guarded_def split: option.splits)
  qed
  have "is_retainable_work_folder platform name m"
    if "entry_name platform name" "node s (path_push platform slot name) = Some m" for name m
  proof -
    have listed: "Inr name \<in> set es"
      using read_dir_complete [OF es(1) that] count_residue_readable [OF es(2)] by blast
    then have "\<exists>m'. symlink_metadata s (path_push platform slot name) = Inr m'"
      using count_residue_stat [OF es(2) listed] there [OF listed] by blast
    then have "symlink_metadata s (path_push platform slot name) = Inr m"
      using that(2) by (auto simp: symlink_metadata_def guarded_def split: option.splits)
    then show ?thesis by (rule count_residue_zero [OF es(2) listed])
  qed
  moreover have "accept_reusable_slot platform s slot = Inr ()"
    using count_residue_accepts [OF es(2) there] es(1) by (simp add: accept_reusable_slot_def)
  ultimately show ?thesis using sens by blast
qed

theorem scrubbed_slot_is_reusable_witness:
  "accept_reusable_slot UnixPath scrubbed_fs (lit ''/b/s1'') = Inr ()
   \<and> isl (accept_reusable_slot UnixPath sample_fs (lit ''/b/s1''))"
proof -
  have "fs_refuses scrubbed_fs Lstat q \<noteq> Some IoNotFound" for q
    using confined_refuses [OF std_remover.scrub_confined, of UnixPath "lit ''/b/s1''" sample_fs]
    by (metis option.discI fs.select_convs(2) prod.collapse sample_fs_def scrubbed_fs_def)
  moreover have "isl (accept_reusable_slot UnixPath sample_fs (lit ''/b/s1''))" by code_simp
  ultimately show ?thesis using scrubbed_slot_is_reusable [OF sample_scrub(3)] by blast
qed

text \<open>The slot an allocation takes is the lowest positive number no uncleaned attempt of the policy
  leases, never above the policy's ceiling; a refusal means that every slot up to the ceiling is
  leased, so with fewer leases than the ceiling there is always a slot.\<close>

theorem lowest_free_slot_is_least:
  "(case lowest_free_slot leases ceiling of
      Some n \<Rightarrow> 1 \<le> n \<and> n \<le> ceiling \<and> n \<notin> held_slots leases \<and> {s. 1 \<le> s \<and> s < n} \<subseteq> held_slots leases
    | None \<Rightarrow> {s. 1 \<le> s \<and> s \<le> ceiling} \<subseteq> held_slots leases \<and> unat ceiling \<le> length leases)"
proof (cases "lowest_free_slot leases ceiling")
  case None
  then have all: "{s. 1 \<le> s \<and> s \<le> ceiling} \<subseteq> held_slots leases"
    unfolding lowest_free_slot_def Let_def held_slots_list find_None_iff by (subst (asm) slot_numbers(1)) blast
  have "card {s :: u16. 1 \<le> s \<and> s \<le> ceiling} = unat ceiling"
    by (rule card_slot_numbers)
  then show ?thesis using None all card_mono [OF card_held_slots(1) all] card_held_slots(2) [of leases] by simp
next
  case (Some n)
  then have "find (\<lambda>slot. slot \<notin> held_slots leases) (map of_nat [1..<Suc (unat ceiling)]) = Some n"
    by (simp add: lowest_free_slot_def Let_def held_slots_list)
  from find_least [OF slot_numbers(2) this] show ?thesis
    using Some unfolding slot_numbers(1) by (auto intro: order.strict_implies_order order.strict_trans2)
qed

end
