(* ===== verification/Lifecycle.thy ===== *)
theory Lifecycle
  imports Fleet Store Slots Recovery
begin

text \<open>
  The data of the production launcher, \<open>LifecycleLauncher\<close> of \<open>crates/agent/src/lifecycle.rs\<close>, and how
  its operations are sequenced. The launcher keeps the durable store of theory \<open>Store\<close> and its own
  fields; GitHub, the package cache, the execution provider, the clock and the operating system are
  functions of the record \<open>lifecycle_ports\<close> over an outside state, which holds the file system of
  theory \<open>Slots\<close>; the contents of sidecar files are reached through ports too. An operation answers a
  result or a \<open>lifecycle_error\<close> and the new launcher; the attempt it changes is part of its result. A
  poisoned mutex, launch timings and log lines are not modelled.
\<close>

section \<open>Data\<close>

datatype lifecycle_error =
    JournalError
  | MissingAttempt attempt_id
  | TransitionRefused
  | RecoveryIncomplete
  | SlotQuarantined slot_quarantine
  | WorkspaceCleanupStuck
  | EnvironmentCleanupStuck
  | LifecycleFailed failure_reason

datatype provider_capability =
    ProviderReady | ProviderUnsupported | ProviderNotInstalled | ProviderPermissionDenied
  | ProviderImageUnavailable | ProviderDiskQuotaUnavailable | ProviderDegraded

fun capability_refusal :: "provider_capability \<Rightarrow> failure_reason" where
  "capability_refusal ProviderReady = IsolationProvider Degraded"
| "capability_refusal ProviderDegraded = IsolationProvider Degraded"
| "capability_refusal ProviderUnsupported = IsolationProvider Unsupported"
| "capability_refusal ProviderNotInstalled = IsolationProvider NotInstalled"
| "capability_refusal ProviderPermissionDenied = IsolationProvider PermissionDenied"
| "capability_refusal ProviderImageUnavailable = IsolationProvider ImageUnavailableOrIncompatible"
| "capability_refusal ProviderDiskQuotaUnavailable = IsolationProvider DiskQuotaUnavailable"

fun safe_isolation_reason :: "failure_reason \<Rightarrow> isolation_provider_failure \<Rightarrow> failure_reason" where
  "safe_isolation_reason (IsolationProvider f) fallback = IsolationProvider f"
| "safe_isolation_reason _ fallback = IsolationProvider fallback"

datatype environment_identity =
    NativeProcess u32
  | IsolatedEnvironment host_id attempt_id backend ustr image_reference ustr

datatype environment_state = EnvStarting | EnvRunning | EnvExited | EnvMissing

datatype provider_stop = ProviderStopped | ProviderStillRunning

datatype provider_destroy = ProviderDestroyed | ProviderDeferred ustr

record resolved_environment =
  res_provider_kind :: backend
  res_image :: image_reference

record prepared_environment_handle =
  prep_attempt :: attempt_id
  prep_identity :: "environment_identity option"
  prep_cache_target :: "scale_target option"

record process_start_failure =
  psf_reason :: failure_reason
  psf_retryable :: bool
  psf_live_pid :: "u32 option"

record jit_request_failure =
  jrf_terminal :: bool
  jrf_reason :: failure_reason
  jrf_retry_after :: "duration option"

record jit_registration =
  jr_runner_id :: u64
  jr_config :: ustr

record github_observation =
  gho_status :: github_runner_observation
  gho_runner_id :: "u64 option"

datatype job_evidence = RanAJob | NoJob | UnknownEvidence

datatype reconcile_progress = Reconciled | Deferred | Replacement attempt_id ustr

text \<open>How the write of a runner-id sidecar (temporary file, rename, sync) ends.\<close>

datatype sidecar_write = SidecarWritten | SidecarExists | SidecarFailed

datatype diagnostics_failure = DirectoryNotCreated | DiagnosticsNotWritten

datatype attempt_event =
    StateEvent attempt_id attempt_state
  | RetryEvent attempt_id ustr duration
  | LaunchedEvent attempt_id bool
  | AdoptedEvent attempt_id
  | RemoteIdentityRecovered attempt_id u64
  | TerminateIntentEvent attempt_id
  | TerminatedEvent attempt_id
  | DeregisteredEvent attempt_id u64
  | ConcludedEvent attempt_id outcome_kind
  | CleanedEvent attempt_id outcome_kind
  | QuarantinedOwnedResource attempt_id

text \<open>What lies outside the launcher; a port is a call into it.\<close>

type_synonym 'e outside = "fs \<times> 'e"
type_synonym ('e, 'a) port = "'e outside \<Rightarrow> 'a \<times> 'e outside"

record 'e execution_provider =
  xp_probe :: "scale_policy \<Rightarrow> ('e, provider_capability) port"
  xp_resolve :: "scale_policy \<Rightarrow> ('e, failure_reason + resolved_environment option) port"
  xp_prepare :: "runner_attempt \<Rightarrow> scale_policy \<Rightarrow> ('e, failure_reason + prepared_environment_handle) port"
  xp_start :: "prepared_environment_handle \<Rightarrow> runner_attempt \<Rightarrow> ustr \<Rightarrow> ('e, process_start_failure + environment_identity) port"
  xp_inspect :: "runner_attempt \<Rightarrow> ('e, failure_reason + environment_state) port"
  xp_recover :: "runner_attempt \<Rightarrow> ('e, failure_reason + environment_state) port"
  xp_stop :: "runner_attempt \<Rightarrow> ('e, failure_reason + provider_stop) port"
  xp_destroy :: "runner_attempt \<Rightarrow> ('e, failure_reason + provider_destroy) port"
  xp_owns :: "runner_attempt \<Rightarrow> ('e, failure_reason + bool) port"
  xp_enumerate_owned :: "host_id \<Rightarrow> ('e, environment_identity list) port"
  xp_recovered_pid :: "runner_attempt \<Rightarrow> ('e, failure_reason + u32 option) port"
  xp_completed_successfully :: "runner_attempt \<Rightarrow> ('e, bool) port"
  xp_has_terminate_intent :: "runner_attempt \<Rightarrow> ('e, bool) port"
  xp_record_terminate_intent :: "runner_attempt \<Rightarrow> ('e, failure_reason + unit) port"

record 'e lifecycle_github =
  gh_register :: "scale_target \<Rightarrow> ustr \<Rightarrow> u64 \<Rightarrow> routing_labels \<Rightarrow> ('e, jit_request_failure + jit_registration) port"
  gh_observe :: "scale_target \<Rightarrow> attempt_id \<Rightarrow> ('e, github_observation) port"
  gh_deregister :: "scale_target \<Rightarrow> u64 \<Rightarrow> ('e, bool) port"

record 'e runtime_packages =
  pk_materialize :: "runner_attempt \<Rightarrow> ('e, failure_reason + ustr) port"
  pk_release :: "attempt_id \<Rightarrow> ('e, failure_reason + unit) port"
  pk_prune :: "ustr \<Rightarrow> runner_attempt list \<Rightarrow> ('e, failure_reason + unit) port"

text \<open>The operating system and the random source, as far as the launcher calls them directly.\<close>

record 'e host_system =
  sys_root_env :: "'e outside \<Rightarrow> root_env"
  sys_default_root :: "'e outside \<Rightarrow> runner_root_error + local_absolute_path"
  sys_remover :: remover
  sys_new_uuid :: "('e, uuid) port"
  sys_new_generation :: "('e, ustr) port"
  sys_read_runner_id :: "ustr \<Rightarrow> ('e, u64 option) port"
  sys_store_runner_id :: "ustr \<Rightarrow> u64 \<Rightarrow> ('e, sidecar_write) port"
  sys_write_diagnostics :: "attempt_id \<Rightarrow> ustr \<Rightarrow> ('e, diagnostics_failure + unit) port"
  sys_create_dir_all :: "ustr \<Rightarrow> ('e, io_kind + unit) port"
  sys_directory_responds :: "ustr \<Rightarrow> ('e, bool) port"
  sys_record_root_refusal :: "policy_id \<Rightarrow> timestamp \<Rightarrow> ustr \<Rightarrow> runner_root_error \<Rightarrow> ('e, unit) port"
  sys_clear_root_refusal :: "policy_id \<Rightarrow> ('e, unit) port"
  sys_try_lock :: "('e, bool) port"
  sys_unlock :: "('e, unit) port"

text \<open>The \<open>Display\<close> forms a failure reason may carry.\<close>

record wording =
  say_uuid :: "uuid \<Rightarrow> ustr"
  say_root :: "runner_root_error \<Rightarrow> ustr"
  say_slot :: "slot_failure \<Rightarrow> ustr"
  say_store :: "store_error \<Rightarrow> ustr"
  say_io :: "io_kind \<Rightarrow> ustr"
  say_quarantine :: "slot_quarantine \<Rightarrow> ustr"

record 'e lifecycle_ports =
  lp_host_id :: host_id
  lp_app_paths :: app_paths
  lp_runner_group_id :: u64
  lp_timeouts :: recovery_timeouts
  lp_retry :: retry_policy
  lp_store_fails :: "('e, bool) port"
  lp_github :: "'e lifecycle_github"
  lp_packages :: "'e runtime_packages"
  lp_processes :: "'e execution_provider"
  lp_now :: "('e, timestamp) port"
  lp_persists :: "policy_id \<Rightarrow> ('e, bool) port"
  lp_wait :: "duration \<Rightarrow> ('e, unit) port"
  lp_system :: "'e host_system"
  lp_wording :: wording

record 'e launcher =
  lw_db :: database
  lw_outside :: "'e outside"
  lw_recovery_complete :: bool
  lw_versions :: "(attempt_id, ustr) btree_map"
  lw_pending :: "(attempt_id, replacement_intent) btree_map"
  lw_retries :: clean_backoff
  lw_locked :: bool
  lw_events :: "attempt_event list"
  lw_reconcile_events :: "lifecycle_event list"

type_synonym ('e, 'a) act = "'e launcher \<Rightarrow> (lifecycle_error + 'a) \<times> 'e launcher"

section \<open>Sequencing\<close>

definition act_return :: "'a \<Rightarrow> ('e, 'a) act" where
  "act_return x w = (Inr x, w)"

definition act_fail :: "lifecycle_error \<Rightarrow> ('e, 'a) act" where
  "act_fail e w = (Inl e, w)"

definition act_bind :: "('e, 'a) act \<Rightarrow> ('a \<Rightarrow> ('e, 'b) act) \<Rightarrow> ('e, 'b) act" where
  "act_bind m f w = (case m w of (Inl e, w') \<Rightarrow> (Inl e, w') | (Inr x, w') \<Rightarrow> f x w')"

text \<open>A result taken as a value (\<open>match\<close> on a \<open>Result\<close> instead of \<open>?\<close>).\<close>

definition act_try :: "('e, 'a) act \<Rightarrow> ('e, lifecycle_error + 'a) act" where
  "act_try m w = (case m w of (r, w') \<Rightarrow> (Inr r, w'))"

definition act_lift :: "lifecycle_error + 'a \<Rightarrow> ('e, 'a) act" where
  "act_lift r w = (r, w)"

definition act_call :: "('e, 'a) port \<Rightarrow> ('e, 'a) act" where
  "act_call p w = (case p (lw_outside w) of (x, outside') \<Rightarrow> (Inr x, w\<lparr>lw_outside := outside'\<rparr>))"

text \<open>A port whose failure is the launcher's (\<open>map_err(LifecycleError::Failed)?\<close>).\<close>

definition act_checked :: "('e, failure_reason + 'a) port \<Rightarrow> ('e, 'a) act" where
  "act_checked p = act_bind (act_call p) (\<lambda>r. act_lift (map_err LifecycleFailed r))"

definition act_read :: "('e launcher \<Rightarrow> 'a) \<Rightarrow> ('e, 'a) act" where
  "act_read f w = (Inr (f w), w)"

definition act_files :: "(fs \<Rightarrow> 'a \<times> fs) \<Rightarrow> ('e, 'a) act" where
  "act_files f w = (case f (fst (lw_outside w)) of (x, s) \<Rightarrow> (Inr x, w\<lparr>lw_outside := (s, snd (lw_outside w))\<rparr>))"

definition act_emit :: "attempt_event \<Rightarrow> ('e, unit) act" where
  "act_emit e w = (Inr (), w\<lparr>lw_events := lw_events w @ [e]\<rparr>)"

definition act_report :: "lifecycle_event \<Rightarrow> ('e, unit) act" where
  "act_report e w = (Inr (), w\<lparr>lw_reconcile_events := lw_reconcile_events w @ [e]\<rparr>)"

definition act_retries :: "(clean_backoff \<Rightarrow> clean_backoff) \<Rightarrow> ('e, unit) act" where
  "act_retries f w = (Inr (), w\<lparr>lw_retries := f (lw_retries w)\<rparr>)"

text \<open>A query of the store: an unavailable database or an unreadable row is \<open>JournalError\<close>.\<close>

definition act_query :: "'e lifecycle_ports \<Rightarrow> (database \<Rightarrow> store_error + 'a) \<Rightarrow> ('e, 'a) act" where
  "act_query io q =
     act_bind (act_call (lp_store_fails io)) (\<lambda>fails.
     act_bind (act_read lw_db) (\<lambda>db.
     if fails then act_fail JournalError else act_lift (map_err (\<lambda>_. JournalError) (q db))))"

primrec act_each :: "('a \<Rightarrow> ('e, unit) act) \<Rightarrow> 'a list \<Rightarrow> ('e, unit) act" where
  "act_each f [] = act_return ()"
| "act_each f (x # xs) = act_bind (f x) (\<lambda>_. act_each f xs)"

text \<open>A retry loop: the body is told how many tries this one makes and answers \<open>None\<close> to go round
  again. The first argument bounds the rounds; a body that stops by itself within the bound never
  reaches its end (\<open>act_loop_enough\<close>).\<close>

primrec act_loop :: "nat \<Rightarrow> (u32 \<Rightarrow> ('e, 'a option) act) \<Rightarrow> u32 \<Rightarrow> ('e, 'a) act" where
  "act_loop 0 body issued = act_fail JournalError"
| "act_loop (Suc n) body issued =
     (let issued' = saturating_add issued 1 in
      act_bind (body issued') (\<lambda>r. case r of Some x \<Rightarrow> act_return x | None \<Rightarrow> act_loop n body issued'))"

lemma act_loop_enough:
  assumes "\<And>i w w'. bound \<le> i \<Longrightarrow> body i w \<noteq> (Inr None, w')" "unat bound - unat issued \<le> n" "issued < bound"
  shows "act_loop (n + k) body issued = act_loop n body issued"
  using assms(2,3)
proof (induction n arbitrary: issued)
  case 0
  then show ?case by (simp add: word_less_nat_alt)
next
  case (Suc n)
  let ?next = "saturating_add issued 1"
  have up: "unat ?next = unat issued + 1"
    using Suc.prems(2) unsigned_less [of bound, where 'a = nat] by (simp add: unat_saturating_add word_less_nat_alt)
  have "act_bind (body ?next) (\<lambda>r. case r of Some x \<Rightarrow> act_return x | None \<Rightarrow> act_loop (n + k) body ?next)
      = act_bind (body ?next) (\<lambda>r. case r of Some x \<Rightarrow> act_return x | None \<Rightarrow> act_loop n body ?next)"
  proof (cases "?next < bound")
    case True
    moreover have "unat bound - unat ?next \<le> n" using Suc.prems(1) up by simp
    ultimately have "act_loop (n + k) body ?next = act_loop n body ?next" using Suc.IH by blast
    then show ?thesis by (simp only:)
  next
    case False
    then have "body ?next w \<noteq> (Inr None, w')" for w w' using assms(1) by simp
    then show ?thesis by (auto simp: act_bind_def fun_eq_iff split: prod.split sum.split option.split)
  qed
  then show ?case by (simp add: Let_def)
qed

section \<open>Rules for sequencing\<close>

text \<open>\<open>ensures F m Q\<close>: every run of \<open>m\<close> relates the launchers before and after by \<open>F\<close>, and a result it
  answers satisfies \<open>Q\<close>.\<close>

definition ensures :: "('e launcher \<Rightarrow> 'e launcher \<Rightarrow> bool) \<Rightarrow> ('e, 'a) act \<Rightarrow> ('a \<Rightarrow> bool) \<Rightarrow> bool" where
  "ensures F m Q \<longleftrightarrow> (\<forall>w r w'. m w = (r, w') \<longrightarrow> F w w' \<and> (\<forall>x. r = Inr x \<longrightarrow> Q x))"

lemma ensuresD: "ensures F m Q \<Longrightarrow> m w = (r, w') \<Longrightarrow> F w w'" "ensures F m Q \<Longrightarrow> m w = (Inr x, w') \<Longrightarrow> Q x"
  unfolding ensures_def by blast+

lemma ensures_mono: "ensures F m Q \<Longrightarrow> (\<And>x. Q x \<Longrightarrow> Q' x) \<Longrightarrow> ensures F m Q'"
  unfolding ensures_def by blast

locale sequencing =
  fixes F :: "'e launcher \<Rightarrow> 'e launcher \<Rightarrow> bool"
  assumes F_refl [intro, simp]: "F w w"
    and F_trans: "F w w' \<Longrightarrow> F w' w'' \<Longrightarrow> F w w''"
    and F_fields:
      "F w (w\<lparr>lw_outside := outside'\<rparr>)"
      "F w (w\<lparr>lw_retries := retries\<rparr>)"
      "F w (w\<lparr>lw_reconcile_events := log\<rparr>)"
      "(\<And>i. e \<noteq> LaunchedEvent i True) \<Longrightarrow> F w (w\<lparr>lw_events := lw_events w @ [e]\<rparr>)"
begin

lemma ensures_return: "Q x \<Longrightarrow> ensures F (act_return x) Q"
  by (simp add: ensures_def act_return_def)

lemma ensures_fail: "ensures F (act_fail e) Q"
  by (simp add: ensures_def act_fail_def)

lemma ensures_lift: "(\<And>x. r = Inr x \<Longrightarrow> Q x) \<Longrightarrow> ensures F (act_lift r) Q"
  by (simp add: ensures_def act_lift_def)

lemma ensures_read: "(\<And>x. Q x) \<Longrightarrow> ensures F (act_read f) Q"
  by (simp add: ensures_def act_read_def)

lemma ensures_bind:
  assumes "ensures F m (\<lambda>x. ensures F (f x) Q)"
  shows "ensures F (act_bind m f) Q"
  unfolding ensures_def
proof (intro allI impI)
  fix w r w'
  assume run: "act_bind m f w = (r, w')"
  obtain r1 w1 where m: "m w = (r1, w1)" by fastforce
  have one: "F w w1" using ensuresD(1) [OF assms m] .
  show "F w w' \<and> (\<forall>x. r = Inr x \<longrightarrow> Q x)"
  proof (cases r1)
    case (Inr x)
    then have "f x w1 = (r, w')" using run m by (simp add: act_bind_def)
    moreover have "ensures F (f x) Q" using ensuresD(2) [OF assms] m Inr by blast
    ultimately show ?thesis using F_trans [OF one] by (simp add: ensures_def)
  qed (use run m one in \<open>auto simp: act_bind_def\<close>)
qed

lemma ensures_try: "ensures F m (\<lambda>x. Q (Inr x)) \<Longrightarrow> (\<And>e. Q (Inl e)) \<Longrightarrow> ensures F (act_try m) Q"
  unfolding ensures_def act_try_def by (auto split: prod.splits) (metis sum.exhaust)

lemma ensures_call: "(\<And>x. Q x) \<Longrightarrow> ensures F (act_call p) Q"
  using F_fields(1) by (auto simp: ensures_def act_call_def split: prod.splits)

lemma ensures_files: "(\<And>x. Q x) \<Longrightarrow> ensures F (act_files f) Q"
  using F_fields(1) by (auto simp: ensures_def act_files_def split: prod.splits)

lemma ensures_emit: "(\<And>i. e \<noteq> LaunchedEvent i True) \<Longrightarrow> Q () \<Longrightarrow> ensures F (act_emit e) Q"
  using F_fields(4) by (auto simp: ensures_def act_emit_def)

lemma ensures_report: "Q () \<Longrightarrow> ensures F (act_report e) Q"
  using F_fields(3) by (auto simp: ensures_def act_report_def)

lemma ensures_retries: "Q () \<Longrightarrow> ensures F (act_retries f) Q"
  using F_fields(2) by (auto simp: ensures_def act_retries_def)

lemma ensures_checked: "(\<And>x. Q x) \<Longrightarrow> ensures F (act_checked p) Q"
  unfolding act_checked_def by (intro ensures_bind ensures_call ensures_lift)

lemma ensures_query: "(\<And>db x. q db = Inr x \<Longrightarrow> Q x) \<Longrightarrow> ensures F (act_query io q) Q"
  unfolding act_query_def by (intro ensures_bind ensures_call ensures_read) (auto intro!: ensures_fail ensures_lift)

lemma ensures_if: "(c \<Longrightarrow> ensures F m Q) \<Longrightarrow> (\<not> c \<Longrightarrow> ensures F m' Q) \<Longrightarrow> ensures F (if c then m else m') Q"
  by simp

lemma ensures_option:
  "(x = None \<Longrightarrow> ensures F m Q) \<Longrightarrow> (\<And>y. x = Some y \<Longrightarrow> ensures F (f y) Q)
    \<Longrightarrow> ensures F (case x of None \<Rightarrow> m | Some y \<Rightarrow> f y) Q"
  by (cases x) simp_all

lemma ensures_sum:
  "(\<And>e. x = Inl e \<Longrightarrow> ensures F (g e) Q) \<Longrightarrow> (\<And>y. x = Inr y \<Longrightarrow> ensures F (f y) Q)
    \<Longrightarrow> ensures F (case x of Inl e \<Rightarrow> g e | Inr y \<Rightarrow> f y) Q"
  by (cases x) simp_all

lemma ensures_prod: "(\<And>a b. x = (a, b) \<Longrightarrow> ensures F (f a b) Q) \<Longrightarrow> ensures F (case x of (a, b) \<Rightarrow> f a b) Q"
  by (cases x) simp

lemma ensures_loop:
  assumes "\<And>i. ensures F (body i) (\<lambda>r. \<forall>x. r = Some x \<longrightarrow> Q x)"
  shows "ensures F (act_loop n body issued) Q"
proof (induction n arbitrary: issued)
  case (Suc n)
  show ?case unfolding act_loop.simps Let_def
    by (rule ensures_bind, rule ensures_mono [OF assms]) (auto intro: ensures_return Suc.IH split: option.split)
qed (simp add: ensures_fail)

lemma ensures_each:
  assumes "\<And>x Q. x \<in> set xs \<Longrightarrow> Q () \<Longrightarrow> ensures F (f x) Q" "Q ()"
  shows "ensures F (act_each f xs) Q"
  using assms(1)
proof (induction xs)
  case (Cons x xs)
  have "ensures F (act_each f xs) Q" using Cons by simp
  then show ?case unfolding act_each.simps by (intro ensures_bind Cons.prems) simp_all
qed (simp add: assms(2) ensures_return)

lemmas ensures_rules = ensures_bind ensures_return ensures_fail ensures_lift ensures_read ensures_call ensures_files
  ensures_emit ensures_report ensures_retries ensures_checked ensures_query ensures_if ensures_option ensures_sum ensures_prod

end

end
