(* ===== verification/Launcher.thy ===== *)
theory Launcher
  imports Lifecycle
begin

text \<open>
  The operations of \<open>LifecycleLauncher\<close>, \<open>crates/agent/src/lifecycle.rs\<close>: placing and journalling an
  attempt, launching it, supervising it against what its process and GitHub say, cleaning it, and
  recovering the journal at startup. Long methods are cut at their comments; each part carries its
  own definition. The macOS sweep of abandoned package seeds is not modelled.
\<close>

section \<open>Reasons and names\<close>

definition lifecycle_reason :: "'e lifecycle_ports \<Rightarrow> lifecycle_error \<Rightarrow> failure_reason" where
  "lifecycle_reason io e =
     (case e of
        LifecycleFailed reason \<Rightarrow> reason
      | RecoveryIncomplete \<Rightarrow> OtherReason (lit ''startup recovery incomplete'')
      | JournalError \<Rightarrow> OtherReason (lit ''attempt journal operation failed'')
      | MissingAttempt _ \<Rightarrow> OtherReason (lit ''attempt disappeared from the journal'')
      | TransitionRefused \<Rightarrow> OtherReason (lit ''attempt transition was refused'')
      | SlotQuarantined q \<Rightarrow>
          OtherReason (lit ''the persistent slot was not cleaned: '' @ say_quarantine (lp_wording io) q)
      | WorkspaceCleanupStuck \<Rightarrow> WorkspaceCleanupDeferred
      | EnvironmentCleanupStuck \<Rightarrow> OtherReason (lit ''isolated environment cleanup is deferred''))"

definition WORKSPACE_NAME_LEN :: nat where
  "WORKSPACE_NAME_LEN = 12"

definition workspace_name :: "'e lifecycle_ports \<Rightarrow> attempt_id \<Rightarrow> ustr" where
  "workspace_name io i = take WORKSPACE_NAME_LEN (filter (\<lambda>c. c \<noteq> ch CHR ''-'') (say_uuid (lp_wording io) i))"

definition runner_name :: "'e lifecycle_ports \<Rightarrow> attempt_id \<Rightarrow> ustr" where
  "runner_name io i = lit ''runner-manager-'' @ say_uuid (lp_wording io) i"

fun package_failure_is_terminal :: "failure_reason \<Rightarrow> bool" where
  "package_failure_is_terminal RunnerPackageUnverified = True"
| "package_failure_is_terminal RunnerVersionRejected = True"
| "package_failure_is_terminal _ = False"

fun replacement_operation :: "attempt_outcome \<Rightarrow> ustr option" where
  "replacement_operation (FailedWith JitExpired) = Some (lit ''jit_expired_replacement'')"
| "replacement_operation (FailedWith ProcessExitedUnexpectedly) = Some (lit ''exit_before_acceptance_replacement'')"
| "replacement_operation _ = None"

fun outcome_kind_str :: "outcome_kind \<Rightarrow> ustr" where
  "outcome_kind_str KindCompletedJob = lit ''completed_job''"
| "outcome_kind_str KindIdleExit = lit ''exited_idle_without_work''"
| "outcome_kind_str KindFailed = lit ''failed''"
| "outcome_kind_str KindOrphaned = lit ''orphaned''"

fun identity_same_allocation :: "host_id \<Rightarrow> runner_attempt \<Rightarrow> environment_identity \<Rightarrow> bool" where
  "identity_same_allocation h a (NativeProcess _) = False"
| "identity_same_allocation h a (IsolatedEnvironment owner owner_attempt kind env_id img generation) =
     (case attempt_execution a of
        Native _ \<Rightarrow> False
      | Isolated kind' _ img' generation' \<Rightarrow>
          owner = h \<and> owner_attempt = attempt_id a \<and> kind' = kind \<and> img' = img \<and> generation' = generation)"

fun identity_matches_intent :: "host_id \<Rightarrow> runner_attempt \<Rightarrow> environment_identity \<Rightarrow> bool" where
  "identity_matches_intent h a (NativeProcess _) = False"
| "identity_matches_intent h a (IsolatedEnvironment owner owner_attempt kind env_id img generation) =
     (identity_same_allocation h a (IsolatedEnvironment owner owner_attempt kind env_id img generation)
      \<and> (case attempt_execution a of
           Native _ \<Rightarrow> False
         | Isolated _ stored _ _ \<Rightarrow> (case stored of None \<Rightarrow> True | Some j \<Rightarrow> j = env_id)))"

section \<open>The journal\<close>

definition clock_now :: "'e lifecycle_ports \<Rightarrow> ('e, timestamp) act" where
  "clock_now io = act_call (lp_now io)"

definition root_env_of :: "'e lifecycle_ports \<Rightarrow> ('e, root_env) act" where
  "root_env_of io = act_read (\<lambda>w. sys_root_env (lp_system io) (lw_outside w))"

text \<open>One domain edge (\<open>map_err(|_| LifecycleError::Transition)?\<close>).\<close>

definition edge :: "attempt_op \<Rightarrow> runner_attempt \<Rightarrow> ('e, runner_attempt) act" where
  "edge op a = act_lift (map_err (\<lambda>_. TransitionRefused) (attempt_apply op a))"

definition edge_now :: "'e lifecycle_ports \<Rightarrow> (timestamp \<Rightarrow> attempt_op) \<Rightarrow> runner_attempt \<Rightarrow> ('e, runner_attempt) act" where
  "edge_now io op a = act_bind (clock_now io) (\<lambda>now. edge (op now) a)"

text \<open>\<open>Store::record_attempt\<close>, with its error as a value.\<close>

definition store_attempt :: "'e lifecycle_ports \<Rightarrow> runner_attempt \<Rightarrow> ('e, store_error + unit) act" where
  "store_attempt io a w =
     (case lp_store_fails io (lw_outside w) of (fails, outside') \<Rightarrow>
        let w' = w\<lparr>lw_outside := outside'\<rparr> in
        if fails then (Inr (Inl Sqlite), w')
        else case record_attempt a (lw_db w') of
               Inl e \<Rightarrow> (Inr (Inl e), w')
             | Inr db \<Rightarrow> (Inr (Inr ()), w'\<lparr>lw_db := db\<rparr>))"

definition journal :: "'e lifecycle_ports \<Rightarrow> runner_attempt \<Rightarrow> ('e, unit) act" where
  "journal io a =
     act_bind (store_attempt io a) (\<lambda>r.
     case r of
       Inl _ \<Rightarrow> act_fail JournalError
     | Inr _ \<Rightarrow> act_emit (StateEvent (attempt_id a) (attempt_state a)))"

definition record_allocation :: "'e lifecycle_ports \<Rightarrow> runner_attempt \<Rightarrow> ('e, unit) act" where
  "record_allocation io a =
     act_bind (store_attempt io a) (\<lambda>r.
     case r of
       Inl e \<Rightarrow>
         (case e of
            SlotAlreadyLeased _ _ \<Rightarrow> act_fail (LifecycleFailed (OtherReason (say_store (lp_wording io) e)))
          | _ \<Rightarrow> act_fail JournalError)
     | Inr _ \<Rightarrow> act_emit (StateEvent (attempt_id a) (attempt_state a)))"

definition journalled :: "'e lifecycle_ports \<Rightarrow> runner_attempt \<Rightarrow> ('e, runner_attempt) act" where
  "journalled io a = act_bind (journal io a) (\<lambda>_. act_return a)"

definition transition :: "'e lifecycle_ports \<Rightarrow> attempt_op \<Rightarrow> runner_attempt \<Rightarrow> ('e, runner_attempt) act" where
  "transition io op a = act_bind (edge op a) (journalled io)"

definition conclude_attempt :: "'e lifecycle_ports \<Rightarrow> attempt_outcome \<Rightarrow> runner_attempt \<Rightarrow> ('e, runner_attempt) act" where
  "conclude_attempt io oc a =
     act_bind (clock_now io) (\<lambda>now.
     act_bind (transition io (OpConclude oc now) a) (\<lambda>a.
     act_bind (act_emit (ConcludedEvent (attempt_id a) (outcome_kind_of oc))) (\<lambda>_.
     act_return a)))"

section \<open>The runner-id sidecar and GitHub\<close>

definition read_runner_id :: "'e lifecycle_ports \<Rightarrow> ustr \<Rightarrow> ('e, u64 option) act" where
  "read_runner_id io runtime = act_call (sys_read_runner_id (lp_system io) runtime)"

definition write_runner_id :: "'e lifecycle_ports \<Rightarrow> ustr \<Rightarrow> u64 \<Rightarrow> ('e, unit) act" where
  "write_runner_id io runtime runner =
     act_bind (read_runner_id io runtime) (\<lambda>existing.
     case existing of
       Some i \<Rightarrow> if i = runner then act_return () else act_fail JournalError
     | None \<Rightarrow>
         act_bind (act_call (sys_store_runner_id (lp_system io) runtime runner)) (\<lambda>r.
         case r of
           SidecarWritten \<Rightarrow> act_return ()
         | SidecarExists \<Rightarrow>
             act_bind (read_runner_id io runtime) (\<lambda>now_there.
             if now_there = Some runner then act_return () else act_fail JournalError)
         | SidecarFailed \<Rightarrow> act_fail JournalError))"

definition known_runner_id :: "'e lifecycle_ports \<Rightarrow> runner_attempt \<Rightarrow> u64 option \<Rightarrow> ('e, u64 option) act" where
  "known_runner_id io a observed =
     (case github_runner_id a of
        Some r \<Rightarrow> act_return (Some r)
      | None \<Rightarrow>
          (case observed of
             Some r \<Rightarrow> act_return (Some r)
           | None \<Rightarrow> read_runner_id io (runtime_path a)))"

definition deregister_runner :: "'e lifecycle_ports \<Rightarrow> scale_policy \<Rightarrow> runner_attempt \<Rightarrow> ('e, unit) act" where
  "deregister_runner io p a =
     act_bind (known_runner_id io a None) (\<lambda>runner.
     case runner of
       None \<Rightarrow> act_return ()
     | Some r \<Rightarrow>
         act_bind (act_call (gh_deregister (lp_github io) (policy_target p) r)) (\<lambda>gone.
         if gone then act_emit (DeregisteredEvent (attempt_id a) r) else act_return ()))"

section \<open>Cleaning\<close>

definition preserve_diagnostics :: "'e lifecycle_ports \<Rightarrow> runner_attempt \<Rightarrow> attempt_outcome \<Rightarrow> ('e, unit) act" where
  "preserve_diagnostics io a oc =
     (let say = say_uuid (lp_wording io);
          reason_kind = (case oc of FailedWith reason \<Rightarrow> failure_reason_kind reason | _ \<Rightarrow> lit ''none'');
          diagnostic = lit ''attempt_id='' @ say (attempt_id a) @ [10] @ lit ''policy_id='' @ say (attempt_policy_id a) @ [10]
            @ lit ''outcome='' @ outcome_kind_str (outcome_kind_of oc) @ [10] @ lit ''reason='' @ reason_kind @ [10]
      in act_bind (act_call (sys_write_diagnostics (lp_system io) (attempt_id a) diagnostic)) (\<lambda>r.
         case r of
           Inr _ \<Rightarrow> act_return ()
         | Inl DirectoryNotCreated \<Rightarrow>
             act_fail (LifecycleFailed (OtherReason (lit ''diagnostics directory could not be created'')))
         | Inl DiagnosticsNotWritten \<Rightarrow>
             act_fail (LifecycleFailed (OtherReason (lit ''redacted diagnostics could not be preserved'')))))"

definition scrub_slot ::
  "root_env \<Rightarrow> remover \<Rightarrow> ustr \<Rightarrow> u16 \<Rightarrow> local_absolute_path option \<Rightarrow> fs \<Rightarrow> (slot_quarantine + unit) \<times> fs" where
  "scrub_slot env rm runtime slot configured s =
     (case verify_journalled_slot env runtime slot configured of
        Inl q \<Rightarrow> (Inl q, s)
      | Inr _ \<Rightarrow>
          (case slot_is_present (re_native env) s runtime of
             Inl q \<Rightarrow> (Inl q, s)
           | Inr present \<Rightarrow>
               if present
               then (case scrub_slot_entries (re_native env) rm runtime s of
                       (Inl q, s') \<Rightarrow> (Inl q, s')
                     | (Inr _, s') \<Rightarrow> (verify_slot_scrubbed (re_native env) s' runtime, s'))
               else (Inr (), s)))"

definition scrub_persistent_slot :: "'e lifecycle_ports \<Rightarrow> runner_attempt \<Rightarrow> u16 \<Rightarrow> ('e, unit) act" where
  "scrub_persistent_slot io a slot =
     act_bind (root_env_of io) (\<lambda>env.
     act_bind (act_query io (find_policy (re_native env) (attempt_policy_id a))) (\<lambda>stored.
     let configured = (case stored of None \<Rightarrow> None | Some p \<Rightarrow> workspace_policy_root (policy_workspace_policy p)) in
     act_bind (act_files (scrub_slot env (sys_remover (lp_system io)) (runtime_path a) slot configured)) (\<lambda>r.
     case r of Inl q \<Rightarrow> act_fail (SlotQuarantined q) | Inr _ \<Rightarrow> act_return ())))"

definition scrub_workspace :: "'e lifecycle_ports \<Rightarrow> runner_attempt \<Rightarrow> ('e, unit) act" where
  "scrub_workspace io a =
     (case attempt_workspace a of
        EphemeralWorkspace \<Rightarrow>
          act_bind (root_env_of io) (\<lambda>env.
          act_bind (act_files (remove_runtime_tree (re_native env) (sys_remover (lp_system io)) (runtime_path a))) (\<lambda>r.
          case r of
            Inr _ \<Rightarrow> act_return ()
          | Inl k \<Rightarrow> if k = IoNotFound then act_return () else act_fail WorkspaceCleanupStuck))
      | PersistentSlot slot \<Rightarrow> scrub_persistent_slot io a slot)"

text \<open>The last steps both cleanups share: diagnostics, the workspace, the package lease, the journal.\<close>

definition finish_cleaning ::
  "'e lifecycle_ports \<Rightarrow> (timestamp \<Rightarrow> attempt_op) \<Rightarrow> attempt_outcome \<Rightarrow> runner_attempt \<Rightarrow> ('e, runner_attempt) act" where
  "finish_cleaning io op oc a =
     act_bind (preserve_diagnostics io a oc) (\<lambda>_.
     act_bind (scrub_workspace io a) (\<lambda>_.
     act_bind (act_checked (pk_release (lp_packages io) (attempt_id a))) (\<lambda>_.
     act_bind (edge_now io op a) (\<lambda>a.
     act_bind (journal io a) (\<lambda>_.
     act_bind (act_emit (CleanedEvent (attempt_id a) (outcome_kind_of oc))) (\<lambda>_.
     act_bind (act_report (AttemptCleaned (attempt_policy_id a) (attempt_id a) (outcome_kind_of oc))) (\<lambda>_.
     act_return a)))))))"

definition defer_environment_cleanup :: "'e lifecycle_ports \<Rightarrow> runner_attempt \<Rightarrow> ('e, 'a) act" where
  "defer_environment_cleanup io a =
     act_bind (edge_now io OpDeferCleanup a) (\<lambda>a.
     act_bind (journal io a) (\<lambda>_. act_fail EnvironmentCleanupStuck))"

definition quarantine_environment :: "'e lifecycle_ports \<Rightarrow> runner_attempt \<Rightarrow> ('e, 'a) act" where
  "quarantine_environment io a =
     act_bind (act_emit (QuarantinedOwnedResource (attempt_id a))) (\<lambda>_. defer_environment_cleanup io a)"

text \<open>Stopping and destroying an environment that is still there.\<close>

definition destroy_environment :: "'e lifecycle_ports \<Rightarrow> runner_attempt \<Rightarrow> environment_state \<Rightarrow> ('e, unit) act" where
  "destroy_environment io a current =
     (let px = lp_processes io; defer = defer_environment_cleanup io a in
      if current = EnvMissing then act_return ()
      else
        act_bind (act_call (xp_owns px a)) (\<lambda>owned.
        if owned \<noteq> Inr True then quarantine_environment io a
        else
          act_bind (if current \<in> {EnvStarting, EnvRunning}
                    then act_bind (act_call (xp_stop px a)) (\<lambda>r. act_return (r = Inr ProviderStopped))
                    else act_return True) (\<lambda>stopped.
          if \<not> stopped then defer
          else
            act_bind (act_call (xp_destroy px a)) (\<lambda>destroyed.
            if destroyed \<noteq> Inr ProviderDestroyed then defer
            else
              act_bind (act_call (xp_inspect px a)) (\<lambda>seen.
              if seen \<noteq> Inr EnvMissing then defer else act_return ())))))"

definition begin_destroying :: "'e lifecycle_ports \<Rightarrow> runner_attempt \<Rightarrow> ('e, runner_attempt) act" where
  "begin_destroying io a =
     (if attempt_state a \<noteq> Destroying
      then act_bind (edge_now io OpBeginDestroy a) (journalled io)
      else act_return a)"

definition clean_isolated_attempt :: "'e lifecycle_ports \<Rightarrow> runner_attempt \<Rightarrow> ('e, runner_attempt) act" where
  "clean_isolated_attempt io a =
     act_bind (begin_destroying io a) (\<lambda>a.
     let px = lp_processes io; h = lp_host_id io; has_identity = has_environment (attempt_execution a);
         defer = defer_environment_cleanup io a
     in act_bind (act_call (xp_enumerate_owned px h)) (\<lambda>resources.
        let matching = filter (identity_same_allocation h a) resources in
        if length matching > 1 \<or> list_ex (\<lambda>r. \<not> identity_matches_intent h a r) matching then quarantine_environment io a
        else if \<not> has_identity \<and> list_ex (identity_matches_intent h a) resources then defer
        else
          act_bind (act_call (if has_identity then xp_inspect px a else xp_recover px a)) (\<lambda>current.
          case current of
            Inl _ \<Rightarrow> defer
          | Inr st \<Rightarrow>
              if \<not> has_identity \<and> st \<noteq> EnvMissing then defer
              else
                act_bind (destroy_environment io a st) (\<lambda>_.
                act_bind (act_call (xp_enumerate_owned px h)) (\<lambda>left.
                if list_ex (identity_same_allocation h a) left then defer
                else case attempt_outcome a of
                       None \<Rightarrow> act_fail TransitionRefused
                     | Some oc \<Rightarrow> finish_cleaning io OpCleanIsolated oc a)))))"

definition clean_attempt :: "'e lifecycle_ports \<Rightarrow> runner_attempt \<Rightarrow> ('e, runner_attempt) act" where
  "clean_attempt io a =
     (if \<not> execution_is_native (attempt_execution a) then clean_isolated_attempt io a
      else
        act_bind (act_checked (xp_destroy (lp_processes io) a)) (\<lambda>d.
        case d of
          ProviderDeferred reason \<Rightarrow> act_fail (LifecycleFailed (OtherReason reason))
        | ProviderDestroyed \<Rightarrow>
            (case attempt_outcome a of
               None \<Rightarrow> act_fail TransitionRefused
             | Some oc \<Rightarrow> finish_cleaning io OpClean oc a)))"

fun clean_failure_class :: "lifecycle_error \<Rightarrow> ustr option" where
  "clean_failure_class (SlotQuarantined q) = Some (slot_refusal_class (sq_refusal q))"
| "clean_failure_class WorkspaceCleanupStuck = Some (failure_reason_kind WorkspaceCleanupDeferred)"
| "clean_failure_class EnvironmentCleanupStuck = Some (lit ''isolated_environment_cleanup_deferred'')"
| "clean_failure_class _ = None"

definition clean_or_quarantine :: "'e lifecycle_ports \<Rightarrow> runner_attempt \<Rightarrow> ('e, unit) act" where
  "clean_or_quarantine io a =
     act_bind (clock_now io) (\<lambda>now.
     act_bind (act_read lw_retries) (\<lambda>retries.
     if \<not> is_due retries (attempt_id a) now then act_return ()
     else
       act_bind (act_try (clean_attempt io a)) (\<lambda>r.
       case r of
         Inr _ \<Rightarrow> act_retries (clean_succeeded (attempt_id a))
       | Inl e \<Rightarrow>
           (case clean_failure_class e of
              None \<Rightarrow> act_fail e
            | Some reason \<Rightarrow>
                act_bind (act_retries (clean_failed (attempt_id a) now)) (\<lambda>_.
                act_report (AttemptCleanFailed (attempt_policy_id a) (attempt_id a) reason))))))"

section \<open>Supervising one attempt\<close>

definition path_exists :: "fs \<Rightarrow> ustr \<Rightarrow> bool" where
  "path_exists s p = is_ok (symlink_metadata s p)"

text \<open>A native attempt already cleaned: only late residue of a disposable directory is left to do.\<close>

definition reconcile_cleaned :: "'e lifecycle_ports \<Rightarrow> runner_attempt \<Rightarrow> ('e, reconcile_progress) act" where
  "reconcile_cleaned io a =
     act_bind (act_read (\<lambda>w. path_exists (fst (lw_outside w)) (runtime_path a))) (\<lambda>there.
     if attempt_workspace a \<noteq> EphemeralWorkspace \<or> \<not> there then act_return Reconciled
     else
       act_bind (clock_now io) (\<lambda>now.
       act_bind (act_read lw_retries) (\<lambda>retries.
       if \<not> is_due retries (attempt_id a) now then act_return Reconciled
       else
         act_bind (act_try (scrub_workspace io a)) (\<lambda>r.
         case r of
           Inr _ \<Rightarrow> act_bind (act_retries (clean_succeeded (attempt_id a))) (\<lambda>_. act_return Reconciled)
         | Inl e \<Rightarrow>
             if e = WorkspaceCleanupStuck
             then
               act_bind (act_retries (clean_failed (attempt_id a) now)) (\<lambda>_.
               act_bind (act_report (AttemptCleanFailed (attempt_policy_id a) (attempt_id a)
                 (lit ''late_ephemeral_workspace_could_not_be_removed''))) (\<lambda>_.
               act_return Reconciled))
             else act_fail e))))"

definition remember_remote_id :: "'e lifecycle_ports \<Rightarrow> bool \<Rightarrow> runner_attempt \<Rightarrow> github_observation \<Rightarrow> ('e, unit) act" where
  "remember_remote_id io announce a seen =
     (case gho_runner_id seen of
        None \<Rightarrow> act_return ()
      | Some runner \<Rightarrow>
          act_bind (read_runner_id io (runtime_path a)) (\<lambda>existing.
          if existing \<noteq> None then act_return ()
          else
            act_bind (write_runner_id io (runtime_path a) runner) (\<lambda>_.
            if announce then act_emit (RemoteIdentityRecovered (attempt_id a) runner) else act_return ())))"

definition recover_spawned :: "'e lifecycle_ports \<Rightarrow> bool \<Rightarrow> runner_attempt \<Rightarrow> ('e, runner_attempt) act" where
  "recover_spawned io alive a =
     (if attempt_state a = JitReceived \<and> alive
      then
        act_bind (act_checked (xp_recovered_pid (lp_processes io) a)) (\<lambda>pid.
        case pid of
          None \<Rightarrow> act_return a
        | Some pid \<Rightarrow> act_bind (edge_now io (OpStarted pid) a) (journalled io))
      else act_return a)"

definition evidence_of :: "ustr list \<Rightarrow> job_evidence" where
  "evidence_of names =
     (let logs = filter (\<lambda>n. ends_with n (lit ''.log'')) names in
      if list_ex (\<lambda>n. starts_with n (lit ''Worker_'')) logs then RanAJob
      else if list_ex (\<lambda>n. starts_with n (lit ''Runner_'')) logs then NoJob else UnknownEvidence)"

definition job_evidence_of :: "'e lifecycle_ports \<Rightarrow> ustr \<Rightarrow> ('e, job_evidence) act" where
  "job_evidence_of io runtime =
     act_bind (root_env_of io) (\<lambda>env.
     let diag = path_push (re_native env) runtime (lit ''_diag'') in
     act_bind (act_call (sys_directory_responds (lp_system io) diag)) (\<lambda>responds.
     if \<not> responds then act_return UnknownEvidence
     else
       act_bind (act_read (\<lambda>w. read_dir (re_native env) (fst (lw_outside w)) diag)) (\<lambda>listing.
       act_return (case listing of
         Inl _ \<Rightarrow> UnknownEvidence
       | Inr entries \<Rightarrow> evidence_of (List.map_filter result_ok entries)))))"

text \<open>The outcome of a child that exited successfully, with the runner id to walk to \<open>busy\<close> with.\<close>

definition completed_outcome ::
  "'e lifecycle_ports \<Rightarrow> bool \<Rightarrow> github_observation \<Rightarrow> runner_attempt \<Rightarrow> ('e, (u64 option \<times> attempt_outcome) option) act" where
  "completed_outcome io alive seen a =
     (if alive \<or> gho_status seen = Unreachable \<or> attempt_state a \<notin> {Starting, Idle, Busy} then act_return None
      else
        act_bind (act_call (xp_completed_successfully (lp_processes io) a)) (\<lambda>completed.
        if \<not> completed then act_return None
        else
          act_bind (job_evidence_of io (runtime_path a)) (\<lambda>evidence.
          if attempt_state a \<noteq> Busy then
            (if evidence = RanAJob
             then act_bind (known_runner_id io a (gho_runner_id seen)) (\<lambda>runner.
               act_return (map_option (\<lambda>r. (Some r, CompletedJob)) runner))
             else act_return None)
          else act_return
            (case evidence of
               RanAJob \<Rightarrow> Some (None, CompletedJob)
             | NoJob \<Rightarrow> Some (None, ExitedIdleWithoutWork)
             | UnknownEvidence \<Rightarrow> if gho_status seen = NotRegistered then Some (None, CompletedJob) else None))))"

definition is_registered :: "github_observation \<Rightarrow> bool" where
  "is_registered seen \<longleftrightarrow> gho_status seen \<in> {Registered True, Registered False}"

definition deregister_if_listed ::
  "'e lifecycle_ports \<Rightarrow> scale_policy \<Rightarrow> github_observation \<Rightarrow> runner_attempt \<Rightarrow> ('e, unit) act" where
  "deregister_if_listed io p seen a = (if is_registered seen then deregister_runner io p a else act_return ())"

text \<open>Conclude and clean, answering a progress.\<close>

definition retire ::
  "'e lifecycle_ports \<Rightarrow> attempt_outcome \<Rightarrow> reconcile_progress \<Rightarrow> runner_attempt \<Rightarrow> ('e, reconcile_progress) act" where
  "retire io oc progress a =
     act_bind (conclude_attempt io oc a) (\<lambda>a.
     act_bind (clean_or_quarantine io a) (\<lambda>_. act_return progress))"

definition conclude_completed ::
  "'e lifecycle_ports \<Rightarrow> scale_policy \<Rightarrow> github_observation \<Rightarrow> u64 option \<Rightarrow> attempt_outcome \<Rightarrow> runner_attempt
   \<Rightarrow> ('e, reconcile_progress) act" where
  "conclude_completed io p seen walk oc a =
     act_bind (deregister_if_listed io p seen a) (\<lambda>_.
     act_bind (clock_now io) (\<lambda>now.
     act_bind (case walk of
                 Some r \<Rightarrow> transition io (OpAssignedJob r now) a
               | None \<Rightarrow> if oc = ExitedIdleWithoutWork then transition io (OpAssignmentNotTaken now) a else act_return a)
       (retire io oc Reconciled)))"

text \<open>Is a live attempt journalled busy one whose assignment was never taken up?\<close>

definition never_taken_up :: "'e lifecycle_ports \<Rightarrow> bool \<Rightarrow> github_observation \<Rightarrow> runner_attempt \<Rightarrow> ('e, bool) act" where
  "never_taken_up io alive seen a =
     (if alive \<and> attempt_state a = Busy \<and> gho_status seen = Registered False
      then act_bind (job_evidence_of io (runtime_path a)) (\<lambda>e. act_return (e = NoJob))
      else act_return False)"

definition replacing :: "runner_attempt \<Rightarrow> ustr option \<Rightarrow> reconcile_progress" where
  "replacing a operation = (case operation of None \<Rightarrow> Reconciled | Some o' \<Rightarrow> Replacement (attempt_id a) o')"

definition REGISTRATION_TIMEOUT_REPLACEMENT :: ustr where
  "REGISTRATION_TIMEOUT_REPLACEMENT = lit ''registration_timeout_replacement''"

definition observed_edge :: "attempt_state \<Rightarrow> u64 \<Rightarrow> runner_attempt \<Rightarrow> (timestamp \<Rightarrow> attempt_op) option" where
  "observed_edge s runner a =
     (case s of
        JitReceived \<Rightarrow> Some OpJitReceived
      | Starting \<Rightarrow> map_option OpStarted (process_id a)
      | Idle \<Rightarrow> Some (OpRegisteredIdle runner)
      | Busy \<Rightarrow> Some (OpAssignedJob runner)
      | _ \<Rightarrow> None)"

definition observe_state ::
  "'e lifecycle_ports \<Rightarrow> (timestamp \<Rightarrow> attempt_op) option \<Rightarrow> runner_attempt \<Rightarrow> ('e, reconcile_progress) act" where
  "observe_state io op a =
     (case op of
        None \<Rightarrow> act_fail TransitionRefused
      | Some op \<Rightarrow>
          act_bind (edge_now io op a) (\<lambda>a.
          act_bind (journal io a) (\<lambda>_. act_return Reconciled)))"

definition terminate_attempt ::
  "'e lifecycle_ports \<Rightarrow> scale_policy \<Rightarrow> attempt_outcome \<Rightarrow> runner_attempt \<Rightarrow> ('e, reconcile_progress) act" where
  "terminate_attempt io p payload a =
     (let px = lp_processes io; idle_exit = is_idle_exit payload in
      act_bind (act_checked (xp_record_terminate_intent px a)) (\<lambda>_.
      act_bind (act_emit (TerminateIntentEvent (attempt_id a))) (\<lambda>_.
      act_bind (act_checked (xp_stop px a)) (\<lambda>stopped.
      if stopped = ProviderStillRunning then act_return Deferred
      else
        act_bind (act_checked (xp_inspect px a)) (\<lambda>st.
        if st = EnvRunning then act_return Deferred
        else
          act_bind (act_emit (TerminatedEvent (attempt_id a))) (\<lambda>_.
          act_bind (deregister_runner io p a) (\<lambda>_.
          retire io
            (if idle_exit then ExitedIdleWithoutWork else FailedWith TerminatedAfterRegistrationTimeout)
            (if idle_exit then Reconciled else Replacement (attempt_id a) REGISTRATION_TIMEOUT_REPLACEMENT)
            a)))))))"

text \<open>\<open>recovery_decision\<close> always decides (\<open>recovery_total\<close>).\<close>

definition decide_recovery ::
  "'e lifecycle_ports \<Rightarrow> bool \<Rightarrow> github_observation \<Rightarrow> runner_attempt \<Rightarrow> ('e, recovery_decision) act" where
  "decide_recovery io alive seen a =
     act_bind (clock_now io) (\<lambda>now.
     act_return (case Recovery.recovery_decision a \<lparr>process_alive = alive, github = gho_status seen\<rparr> (lp_timeouts io) now of
       Some d \<Rightarrow> d
     | None \<Rightarrow> Nothing))"

definition conclude_decided ::
  "'e lifecycle_ports \<Rightarrow> scale_policy \<Rightarrow> github_observation \<Rightarrow> attempt_outcome \<Rightarrow> runner_attempt \<Rightarrow> ('e, reconcile_progress) act" where
  "conclude_decided io p seen oc a =
     act_bind (deregister_if_listed io p seen a) (\<lambda>_.
     retire io oc (replacing a (replacement_operation oc)) a)"

definition adopt :: "runner_attempt \<Rightarrow> ('e, reconcile_progress) act" where
  "adopt a = act_bind (act_emit (AdoptedEvent (attempt_id a))) (\<lambda>_. act_return Reconciled)"

definition clean_up :: "'e lifecycle_ports \<Rightarrow> runner_attempt \<Rightarrow> ('e, reconcile_progress) act" where
  "clean_up io a = act_bind (clean_or_quarantine io a) (\<lambda>_. act_return Reconciled)"

definition apply_decision ::
  "'e lifecycle_ports \<Rightarrow> scale_policy \<Rightarrow> github_observation \<Rightarrow> runner_attempt \<Rightarrow> recovery_decision \<Rightarrow> ('e, reconcile_progress) act" where
  "apply_decision io p seen a d =
     (case d of
        Nothing \<Rightarrow> act_return Reconciled
      | Wait \<Rightarrow> act_return Reconciled
      | Defer \<Rightarrow> act_return Deferred
      | Adopt \<Rightarrow> adopt a
      | Clean \<Rightarrow> clean_up io a
      | Observe s \<Rightarrow>
          act_bind (known_runner_id io a (gho_runner_id seen)) (\<lambda>runner.
          case runner of
            None \<Rightarrow> act_fail TransitionRefused
          | Some r \<Rightarrow> observe_state io (observed_edge s r a) a)
      | Conclude oc \<Rightarrow> conclude_decided io p seen oc a
      | Terminate payload \<Rightarrow> terminate_attempt io p payload a)"

text \<open>A registration whose process is gone has lost its one-shot secret.\<close>

definition expire_registration :: "'e lifecycle_ports \<Rightarrow> scale_policy \<Rightarrow> runner_attempt \<Rightarrow> ('e, reconcile_progress) act" where
  "expire_registration io p a =
     act_bind (if attempt_state a = Allocated
               then act_bind (edge_now io OpJitReceived a) (journalled io) else act_return a) (\<lambda>a.
     act_bind (deregister_runner io p a) (\<lambda>_.
     retire io (FailedWith JitExpired) (Replacement (attempt_id a) (lit ''jit_expired_replacement'')) a))"

definition reconcile_live ::
  "'e lifecycle_ports \<Rightarrow> scale_policy \<Rightarrow> bool \<Rightarrow> github_observation \<Rightarrow> runner_attempt \<Rightarrow> ('e, reconcile_progress) act" where
  "reconcile_live io p alive seen a =
     act_bind (completed_outcome io alive seen a) (\<lambda>completed.
     case completed of
       Some (walk, oc) \<Rightarrow> conclude_completed io p seen walk oc a
     | None \<Rightarrow>
         act_bind (never_taken_up io alive seen a) (\<lambda>untaken.
         if untaken
         then act_bind (clock_now io) (\<lambda>now.
              act_bind (transition io (OpAssignmentNotTaken now) a) (\<lambda>_. act_return Reconciled))
         else
           act_bind (act_call (xp_has_terminate_intent (lp_processes io) a)) (\<lambda>intent.
           if intent \<and> \<not> alive
           then act_bind (deregister_runner io p a) (\<lambda>_.
                retire io (FailedWith TerminatedAfterRegistrationTimeout)
                  (Replacement (attempt_id a) REGISTRATION_TIMEOUT_REPLACEMENT) a)
           else if attempt_state a \<in> {Allocated, JitReceived} \<and> \<not> alive \<and> is_registered seen
           then expire_registration io p a
           else act_bind (decide_recovery io alive seen a) (apply_decision io p seen a))))"

text \<open>The isolated twin: what the provider recovered stands for the process.\<close>

definition apply_isolated_decision ::
  "'e lifecycle_ports \<Rightarrow> scale_policy \<Rightarrow> github_observation \<Rightarrow> runner_attempt \<Rightarrow> recovery_decision \<Rightarrow> ('e, reconcile_progress) act" where
  "apply_isolated_decision io p seen a d =
     (case d of
        Nothing \<Rightarrow> act_return Reconciled
      | Wait \<Rightarrow> act_return Reconciled
      | Defer \<Rightarrow> act_return Deferred
      | Adopt \<Rightarrow> adopt a
      | Clean \<Rightarrow> clean_up io a
      | Observe s \<Rightarrow>
          act_bind (case gho_runner_id seen of
                      Some r \<Rightarrow> act_return (Some r)
                    | None \<Rightarrow> read_runner_id io (runtime_path a)) (\<lambda>runner.
          case runner of
            None \<Rightarrow> act_fail TransitionRefused
          | Some r \<Rightarrow> observe_state io (if s \<in> {Idle, Busy} then observed_edge s r a else None) a)
      | Conclude oc \<Rightarrow> conclude_decided io p seen oc a
      | Terminate oc \<Rightarrow> conclude_decided io p seen oc a)"

definition reconcile_isolated_live ::
  "'e lifecycle_ports \<Rightarrow> scale_policy \<Rightarrow> bool \<Rightarrow> runner_attempt \<Rightarrow> ('e, reconcile_progress) act" where
  "reconcile_isolated_live io p running a =
     act_bind (if attempt_state a = JitReceived \<and> running
               then act_bind (edge_now io OpStartedIsolated a) (journalled io) else act_return a) (\<lambda>a.
     act_bind (act_call (gh_observe (lp_github io) (policy_target p) (attempt_id a))) (\<lambda>seen.
     act_bind (remember_remote_id io False a seen) (\<lambda>_.
     act_bind (if attempt_state a = Busy \<and> \<not> running \<and> gho_status seen = NotRegistered
               then act_call (xp_completed_successfully (lp_processes io) a) else act_return False) (\<lambda>completed.
     if completed then retire io CompletedJob Reconciled a
     else act_bind (decide_recovery io running seen a) (apply_isolated_decision io p seen a)))))"

definition reconcile_isolated_one :: "'e lifecycle_ports \<Rightarrow> scale_policy \<Rightarrow> runner_attempt \<Rightarrow> ('e, reconcile_progress) act" where
  "reconcile_isolated_one io p a =
     (if attempt_state a = Cleaned then act_return Reconciled
      else if is_terminal (attempt_state a) then clean_up io a
      else if attempt_state a \<in> {Allocated, Preparing, Prepared}
      then retire io (FailedWith (OtherReason (lit ''isolated preparation interrupted''))) Reconciled a
      else
        act_bind (act_call (xp_recover (lp_processes io) a)) (\<lambda>recovered.
        case recovered of
          Inl _ \<Rightarrow> act_return Deferred
        | Inr st \<Rightarrow>
            act_bind (if st = EnvMissing then act_return (Inr True)
                      else act_call (xp_owns (lp_processes io) a)) (\<lambda>owned.
            case owned of
              Inl _ \<Rightarrow> act_return Deferred
            | Inr owned \<Rightarrow>
                if \<not> owned
                then act_bind (act_emit (QuarantinedOwnedResource (attempt_id a))) (\<lambda>_. act_return Deferred)
                else reconcile_isolated_live io p (st \<in> {EnvStarting, EnvRunning}) a)))"

definition reconcile_one :: "'e lifecycle_ports \<Rightarrow> scale_policy \<Rightarrow> runner_attempt \<Rightarrow> ('e, reconcile_progress) act" where
  "reconcile_one io p a =
     (if \<not> execution_is_native (attempt_execution a) then reconcile_isolated_one io p a
      else if attempt_state a = Cleaned then reconcile_cleaned io a
      else if is_terminal (attempt_state a) then clean_up io a
      else
        act_bind (act_checked (xp_inspect (lp_processes io) a)) (\<lambda>st.
        let alive = (st = EnvRunning) in
        act_bind (act_call (gh_observe (lp_github io) (policy_target p) (attempt_id a))) (\<lambda>seen.
        act_bind (remember_remote_id io True a seen) (\<lambda>_.
        act_bind (recover_spawned io alive a) (\<lambda>a.
        reconcile_live io p alive seen a)))))"

section \<open>Supervision and startup\<close>

definition authorized :: "'e lifecycle_ports \<Rightarrow> scale_policy \<Rightarrow> runner_attempt \<Rightarrow> ('e, unit) act" where
  "authorized io p a = act_lift (map_err (\<lambda>_. JournalError) (authorize (lp_host_id io) p a))"

definition replacement_intent_for :: "scale_policy \<Rightarrow> attempt_id \<Rightarrow> ustr \<Rightarrow> replacement_intent" where
  "replacement_intent_for p i operation =
     \<lparr>ri_policy = policy_id p, ri_previous_attempt = i, ri_operation = operation\<rparr>"

primrec supervise_each :: "'e lifecycle_ports \<Rightarrow> scale_policy \<Rightarrow> runner_attempt list \<Rightarrow> ('e, replacement_intent list) act" where
  "supervise_each io p [] = act_return []"
| "supervise_each io p (a # as) =
     act_bind (authorized io p a) (\<lambda>_.
     act_bind (reconcile_one io p a) (\<lambda>progress.
     act_bind (supervise_each io p as) (\<lambda>rest.
     act_return (case progress of Replacement i operation \<Rightarrow> replacement_intent_for p i operation # rest | _ \<Rightarrow> rest))))"

definition take_pending :: "scale_policy \<Rightarrow> ('e, replacement_intent list) act" where
  "take_pending p w =
     (let mine = filter (\<lambda>(_, r). ri_policy r = policy_id p) (lw_pending w)
      in (Inr (map snd mine), w\<lparr>lw_pending := filter (\<lambda>(_, r). ri_policy r \<noteq> policy_id p) (lw_pending w)\<rparr>))"

definition supervise :: "'e lifecycle_ports \<Rightarrow> scale_policy \<Rightarrow> ('e, replacement_intent list) act" where
  "supervise io p =
     act_bind (take_pending p) (\<lambda>pending.
     act_bind (act_query io (attempts_for_policy (policy_id p))) (\<lambda>as.
     act_bind (supervise_each io p as) (\<lambda>new.
     act_return (pending @ new))))"

text \<open>Startup: an environment found for an attempt that was never told its identity.\<close>

definition adopt_environment ::
  "'e lifecycle_ports \<Rightarrow> environment_identity list \<Rightarrow> runner_attempt \<Rightarrow> ('e, runner_attempt) act" where
  "adopt_environment io resources a =
     (case resources of
        [IsolatedEnvironment _ _ _ env_id _ _] \<Rightarrow>
          if attempt_state a \<noteq> Cleaned \<and> lacks_environment (attempt_execution a)
          then
            act_bind (edge (OpPreparedEnvironment env_id) a) (\<lambda>a.
            act_bind (if attempt_state a = Preparing then edge_now io OpMarkPrepared a else act_return a) (journalled io))
          else act_return a
      | _ \<Rightarrow> act_return a)"

definition remember_replacement :: "scale_policy \<Rightarrow> attempt_id \<Rightarrow> ustr \<Rightarrow> ('e, unit) act" where
  "remember_replacement p i operation w =
     (Inr (), w\<lparr>lw_pending := btm_insert i (replacement_intent_for p i operation) (lw_pending w)\<rparr>)"

text \<open>One journalled attempt at startup; the answer says whether it stays unresolved.\<close>

definition recover_one ::
  "'e lifecycle_ports \<Rightarrow> scale_policy list \<Rightarrow> environment_identity list \<Rightarrow> runner_attempt \<Rightarrow> ('e, bool) act" where
  "recover_one io known owned a =
     (case map_of (map (\<lambda>p. (policy_id p, p)) (rev known)) (attempt_policy_id a) of
        None \<Rightarrow> act_return (counts_against_capacity a)
      | Some p \<Rightarrow>
          act_bind (authorized io p a) (\<lambda>_.
          let resources = filter (identity_same_allocation (lp_host_id io) a) owned in
          act_bind (if length resources > 1 then act_emit (QuarantinedOwnedResource (attempt_id a)) else act_return ()) (\<lambda>_.
          act_bind (adopt_environment io resources a) (\<lambda>a.
          act_bind (reconcile_one io p a) (\<lambda>progress.
          case progress of
            Deferred \<Rightarrow> act_return (execution_policy_is_native (policy_execution_policy p))
          | Replacement i operation \<Rightarrow>
              act_bind (remember_replacement p i operation) (\<lambda>_. act_return False)
          | Reconciled \<Rightarrow> act_return False)))))"

primrec recover_each ::
  "'e lifecycle_ports \<Rightarrow> scale_policy list \<Rightarrow> environment_identity list \<Rightarrow> runner_attempt list \<Rightarrow> ('e, bool) act" where
  "recover_each io known owned [] = act_return False"
| "recover_each io known owned (a # as) =
     act_bind (recover_one io known owned a) (\<lambda>unresolved.
     act_bind (recover_each io known owned as) (\<lambda>rest.
     act_return (unresolved \<or> rest)))"

definition set_recovery_complete :: "bool \<Rightarrow> ('e, unit) act" where
  "set_recovery_complete b w = (Inr (), w\<lparr>lw_recovery_complete := b\<rparr>)"

definition quarantine_unowned :: "'e lifecycle_ports \<Rightarrow> runner_attempt list \<Rightarrow> environment_identity \<Rightarrow> ('e, unit) act" where
  "quarantine_unowned io as identity =
     (case identity of
        NativeProcess _ \<Rightarrow> act_return ()
      | IsolatedEnvironment _ i _ _ _ _ \<Rightarrow>
          if list_ex (\<lambda>a. attempt_state a \<noteq> Cleaned \<and> identity_matches_intent (lp_host_id io) a identity) as
          then act_return () else act_emit (QuarantinedOwnedResource i))"

definition recover_startup :: "'e lifecycle_ports \<Rightarrow> scale_policy list \<Rightarrow> ('e, replacement_intent list) act" where
  "recover_startup io known =
     act_bind (set_recovery_complete False) (\<lambda>_.
     act_bind (act_query io attempts) (\<lambda>as.
     act_bind (act_call (xp_enumerate_owned (lp_processes io) (lp_host_id io))) (\<lambda>owned.
     act_bind (act_each (quarantine_unowned io as) owned) (\<lambda>_.
     act_bind (recover_each io known owned as) (\<lambda>unresolved.
     if unresolved then act_fail RecoveryIncomplete
     else
       act_bind (set_recovery_complete True) (\<lambda>_.
       act_read (\<lambda>w. map snd (lw_pending w))))))))"

section \<open>Placement\<close>

record placement =
  pl_runtime :: ustr
  pl_workspace :: attempt_workspace

definition root_failure :: "'e lifecycle_ports \<Rightarrow> runner_root_error \<Rightarrow> lifecycle_error" where
  "root_failure io e = LifecycleFailed (OtherReason (say_root (lp_wording io) e))"

definition root_refused :: "'e lifecycle_ports \<Rightarrow> policy_id \<Rightarrow> ustr \<Rightarrow> runner_root_error \<Rightarrow> ('e, 'a) act" where
  "root_refused io i root e =
     act_bind (clock_now io) (\<lambda>now.
     act_bind (act_call (sys_record_root_refusal (lp_system io) i now root e)) (\<lambda>_.
     act_fail (root_failure io e)))"

definition or_refused :: "'e lifecycle_ports \<Rightarrow> policy_id \<Rightarrow> ustr \<Rightarrow> runner_root_error + 'a \<Rightarrow> ('e, 'a) act" where
  "or_refused io i root r = (case r of Inl e \<Rightarrow> root_refused io i root e | Inr x \<Rightarrow> act_return x)"

definition configured_host_root :: "'e lifecycle_ports \<Rightarrow> ('e, local_absolute_path option) act" where
  "configured_host_root io =
     act_bind (root_env_of io) (\<lambda>env.
     act_bind (act_query io (find_host (re_native env) (lp_host_id io))) (\<lambda>h.
     case h of
       None \<Rightarrow> act_fail (LifecycleFailed (OtherReason (lit ''host not found'')))
     | Some h \<Rightarrow> act_return (host_runner_root_override h)))"

definition default_runner_root :: "'e lifecycle_ports \<Rightarrow> ('e, runner_root_error + local_absolute_path) act" where
  "default_runner_root io = act_read (\<lambda>w. sys_default_root (lp_system io) (lw_outside w))"

definition resolvable_host_root :: "'e lifecycle_ports \<Rightarrow> ('e, local_absolute_path option) act" where
  "resolvable_host_root io =
     act_bind (configured_host_root io) (\<lambda>configured.
     case configured of
       Some root \<Rightarrow> act_return (Some root)
     | None \<Rightarrow> act_bind (default_runner_root io) (\<lambda>r. act_return (result_ok r)))"

definition effective_host_root :: "'e lifecycle_ports \<Rightarrow> scale_policy \<Rightarrow> ('e, local_absolute_path) act" where
  "effective_host_root io p =
     act_bind (configured_host_root io) (\<lambda>configured.
     case configured of
       Some root \<Rightarrow> act_return root
     | None \<Rightarrow>
         act_bind (default_runner_root io) (or_refused io (policy_id p) (lit ''the platform default runner root'')))"

definition allocate_disposable :: "'e lifecycle_ports \<Rightarrow> scale_policy \<Rightarrow> attempt_id \<Rightarrow> ('e, placement) act" where
  "allocate_disposable io p i =
     act_bind (effective_host_root io p) (\<lambda>root.
     act_bind (root_env_of io) (\<lambda>env.
     act_bind (or_refused io (policy_id p) (lap_text root) (preflight_check env (lp_app_paths io) [] HostRoot root)) (\<lambda>_.
     let runtime = path_push (re_native env) (lap_text root) (workspace_name io i) in
     act_bind (act_call (sys_create_dir_all (lp_system io) runtime)) (\<lambda>r.
     if \<not> is_ok r then act_fail (LifecycleFailed ProcessStartFailed)
     else act_return \<lparr>pl_runtime = runtime, pl_workspace = EphemeralWorkspace\<rparr>))))"

definition slot_failed :: "'e lifecycle_ports \<Rightarrow> slot_failure + unit \<Rightarrow> ('e, unit) act" where
  "slot_failed io r = act_lift (map_err (\<lambda>f. LifecycleFailed (OtherReason (say_slot (lp_wording io) f))) r)"

text \<open>Which slot, from the journal's leases and the policy's ceiling.\<close>

definition choose_slot :: "'e lifecycle_ports \<Rightarrow> scale_policy \<Rightarrow> ('e, u16) act" where
  "choose_slot io p =
     (case mode_max_capacity (policy_mode p) of
        None \<Rightarrow> act_fail (LifecycleFailed (OtherReason
          (lit ''a persistent workspace needs the policy's max_capacity to bound its slots'')))
      | Some ceiling \<Rightarrow>
          act_bind (act_query io (slot_leases_for_policy (policy_id p))) (\<lambda>leases.
          case lowest_free_slot leases ceiling of
            None \<Rightarrow> act_fail (LifecycleFailed (OtherReason
              (lit ''every persistent slot s1 to s'' @ decimal (unat ceiling) @ lit '' for '' @ slug (policy_target p)
               @ lit '' is leased by an attempt that has not been cleaned, so no slot is free; raise the repository's max capacity, or finish cleaning a concluded attempt'')))
          | Some slot \<Rightarrow> act_return slot))"

definition create_root_leaf :: "'e lifecycle_ports \<Rightarrow> preflighted_root \<Rightarrow> ('e, unit) act" where
  "create_root_leaf io checked =
     (case leaf_to_create checked of
        None \<Rightarrow> act_return ()
      | Some leaf \<Rightarrow>
          act_bind (act_files (create_dir leaf)) (\<lambda>r.
          case r of
            Inr _ \<Rightarrow> act_return ()
          | Inl k \<Rightarrow> act_fail (LifecycleFailed (OtherReason
              (lit ''the persistent workspace root '' @ leaf @ lit '' could not be created: '' @ say_io (lp_wording io) k)))))"

definition allocate_persistent_slot :: "'e lifecycle_ports \<Rightarrow> scale_policy \<Rightarrow> local_absolute_path \<Rightarrow> ('e, placement) act" where
  "allocate_persistent_slot io p root =
     act_bind (choose_slot io p) (\<lambda>slot.
     act_bind (resolvable_host_root io) (\<lambda>host_root.
     act_bind (root_env_of io) (\<lambda>env.
     let others = (case host_root of None \<Rightarrow> [] | Some r \<Rightarrow> [(HostRoot, r)])
     in act_bind (or_refused io (policy_id p) (lap_text root)
          (preflight_check env (lp_app_paths io) others (RepositoryRoot (slug (policy_target p))) root)) (\<lambda>checked.
        act_bind (create_root_leaf io checked) (\<lambda>_.
        act_bind (or_refused io (policy_id p) (lap_text root) (derive_child root (lit ''s'' @ decimal (unat slot)))) (\<lambda>slot_path.
        act_bind (act_files (create_or_validate_slot (re_native env) (lap_text slot_path))) (\<lambda>made.
        act_bind (slot_failed io made) (\<lambda>_.
        act_bind (root_env_of io) (\<lambda>env.
        act_bind (or_refused io (policy_id p) (lap_text root) (verify_containment env root slot_path)) (\<lambda>_.
        act_bind (act_read (\<lambda>w. accept_reusable_slot (re_native env) (fst (lw_outside w)) (lap_text slot_path))) (\<lambda>accepted.
        act_bind (slot_failed io accepted) (\<lambda>_.
        act_return \<lparr>pl_runtime = lap_text slot_path, pl_workspace = PersistentSlot slot\<rparr>))))))))))))"

definition allocate_workspace :: "'e lifecycle_ports \<Rightarrow> scale_policy \<Rightarrow> attempt_id \<Rightarrow> ('e, placement) act" where
  "allocate_workspace io p i =
     act_bind (case policy_workspace_policy p of
                 PersistentPolicy root \<Rightarrow> allocate_persistent_slot io p root
               | EphemeralPolicy \<Rightarrow> allocate_disposable io p i) (\<lambda>placed.
     act_bind (act_call (sys_clear_root_refusal (lp_system io) (policy_id p))) (\<lambda>_.
     act_return placed))"

section \<open>Launching\<close>

text \<open>What is checked before an attempt exists: recovery, the provider, its resolution, the labels.\<close>

definition check_resolution :: "scale_policy \<Rightarrow> resolved_environment option \<Rightarrow> ('e, unit) act" where
  "check_resolution p resolved =
     (let mismatch = act_fail (LifecycleFailed (OtherReason (lit ''provider resolution mismatch''))) in
      if execution_policy_is_native (policy_execution_policy p) \<noteq> (resolved = None) then mismatch
      else case resolved of
          None \<Rightarrow> act_return ()
        | Some r \<Rightarrow>
            if res_provider_kind r = Auto then mismatch
            else if \<not> is_ok (execution_validate (Isolated (res_provider_kind r) None (res_image r) (lit ''generation-check'')))
            then act_fail (LifecycleFailed (OtherReason (lit ''resolved image is incompatible'')))
            else act_return ())"

definition check_launchable :: "'e lifecycle_ports \<Rightarrow> scale_policy \<Rightarrow> ('e, resolved_environment option \<times> routing_labels) act" where
  "check_launchable io p =
     act_bind (act_read lw_recovery_complete) (\<lambda>complete.
     if \<not> complete then act_fail RecoveryIncomplete
     else
       act_bind (act_call (xp_probe (lp_processes io) p)) (\<lambda>capability.
       if capability \<noteq> ProviderReady then act_fail (LifecycleFailed (capability_refusal capability))
       else
         act_bind (act_call (xp_resolve (lp_processes io) p)) (\<lambda>r.
         act_bind (act_lift (map_err (\<lambda>reason. LifecycleFailed
             (if execution_policy_is_native (policy_execution_policy p) then reason
              else safe_isolation_reason reason RuntimeOperationFailed)) r)) (\<lambda>resolved.
         act_bind (check_resolution p resolved) (\<lambda>_.
         case mode_routing_labels (policy_mode p) of
           None \<Rightarrow> act_fail (LifecycleFailed JitRequestFailed)
         | Some labels \<Rightarrow> act_return (resolved, labels))))))"

definition intend_execution :: "'e lifecycle_ports \<Rightarrow> resolved_environment option \<Rightarrow> runner_attempt \<Rightarrow> ('e, runner_attempt) act" where
  "intend_execution io resolved a =
     (case resolved of
        None \<Rightarrow> act_return a
      | Some r \<Rightarrow>
          act_bind (act_call (sys_new_generation (lp_system io))) (\<lambda>generation.
          edge (OpAllocateExecution (Isolated (res_provider_kind r) None (res_image r) generation)) a))"

definition place_attempt :: "'e lifecycle_ports \<Rightarrow> scale_policy \<Rightarrow> resolved_environment option \<Rightarrow> attempt_id \<Rightarrow> ('e, runner_attempt) act" where
  "place_attempt io p resolved i =
     act_bind (allocate_workspace io p i) (\<lambda>placed.
     act_bind (clock_now io) (\<lambda>now.
     act_bind (intend_execution io resolved (allocate_in i (policy_id p) (pl_runtime placed) (pl_workspace placed) now)) (\<lambda>a.
     act_bind (record_allocation io a) (\<lambda>_.
     act_return a))))"

definition allocate_attempt :: "'e lifecycle_ports \<Rightarrow> scale_policy \<Rightarrow> ('e, runner_attempt \<times> routing_labels) act" where
  "allocate_attempt io p =
     act_bind (check_launchable io p) (\<lambda>(resolved, labels).
     act_bind (act_call (sys_new_uuid (lp_system io))) (\<lambda>i.
     act_bind (place_attempt io p resolved i) (\<lambda>a.
     act_return (a, labels))))"

definition fail_launch :: "'e lifecycle_ports \<Rightarrow> runner_attempt \<Rightarrow> failure_reason \<Rightarrow> ('e, 'a) act" where
  "fail_launch io a reason =
     act_bind (conclude_attempt io (FailedWith reason) a) (\<lambda>_. act_fail (LifecycleFailed reason))"

definition retry_rounds :: "'e lifecycle_ports \<Rightarrow> nat" where
  "retry_rounds io = unat (max (max_attempts (lp_retry io)) 1)"

definition out_of_tries :: "'e lifecycle_ports \<Rightarrow> u32 \<Rightarrow> bool" where
  "out_of_tries io issued \<longleftrightarrow> issued \<ge> max (max_attempts (lp_retry io)) 1"

text \<open>Between two tries: wait only while there is demand, before and after.\<close>

definition wait_to_retry ::
  "'e lifecycle_ports \<Rightarrow> scale_policy \<Rightarrow> attempt_id \<Rightarrow> ustr \<Rightarrow> duration \<Rightarrow> ('e, bool) act" where
  "wait_to_retry io p i operation delay =
     act_bind (act_call (lp_persists io (policy_id p))) (\<lambda>demanded.
     if \<not> demanded then act_return False
     else
       act_bind (act_emit (RetryEvent i operation delay)) (\<lambda>_.
       act_bind (act_call (lp_wait io delay)) (\<lambda>_.
       act_call (lp_persists io (policy_id p)))))"

definition materialize_once :: "'e lifecycle_ports \<Rightarrow> scale_policy \<Rightarrow> runner_attempt \<Rightarrow> u32 \<Rightarrow> ('e, (failure_reason + ustr) option) act" where
  "materialize_once io p a issued =
     act_bind (act_call (pk_materialize (lp_packages io) a)) (\<lambda>r.
     case r of
       Inr version \<Rightarrow> act_return (Some (Inr version))
     | Inl reason \<Rightarrow>
         if package_failure_is_terminal reason \<or> out_of_tries io issued then act_return (Some (Inl reason))
         else
           act_bind (wait_to_retry io p (attempt_id a) (lit ''package_materialization'') (policy_delay (lp_retry io) issued)) (\<lambda>again.
           act_return (if again then None else Some (Inl reason))))"

definition materialize_with_retry :: "'e lifecycle_ports \<Rightarrow> scale_policy \<Rightarrow> runner_attempt \<Rightarrow> ('e, failure_reason + ustr) act" where
  "materialize_with_retry io p a = act_loop (retry_rounds io) (materialize_once io p a) 0"

definition register_once ::
  "'e lifecycle_ports \<Rightarrow> scale_policy \<Rightarrow> attempt_id \<Rightarrow> routing_labels \<Rightarrow> u32 \<Rightarrow> ('e, (lifecycle_error + jit_registration) option) act" where
  "register_once io p i labels issued =
     act_bind (act_call (gh_register (lp_github io) (policy_target p) (runner_name io i) (lp_runner_group_id io) labels)) (\<lambda>r.
     case r of
       Inr registration \<Rightarrow> act_return (Some (Inr registration))
     | Inl failure \<Rightarrow>
         if jrf_terminal failure \<or> out_of_tries io issued then act_return (Some (Inl (LifecycleFailed (jrf_reason failure))))
         else
           act_bind (wait_to_retry io p i (lit ''jit_request'')
             (case jrf_retry_after failure of Some d \<Rightarrow> d | None \<Rightarrow> policy_delay (lp_retry io) issued)) (\<lambda>again.
           act_return (if again then None else Some (Inl (LifecycleFailed (jrf_reason failure))))))"

definition register_with_retry ::
  "'e lifecycle_ports \<Rightarrow> scale_policy \<Rightarrow> attempt_id \<Rightarrow> routing_labels \<Rightarrow> ('e, lifecycle_error + jit_registration) act" where
  "register_with_retry io p i labels = act_loop (retry_rounds io) (register_once io p i labels) 0"

definition prune_under_allocation_lock :: "'e lifecycle_ports \<Rightarrow> ustr \<Rightarrow> ('e, unit) act" where
  "prune_under_allocation_lock io version =
     act_bind (act_query io attempts) (\<lambda>as. act_checked (pk_prune (lp_packages io) version as))"

definition remember_version :: "attempt_id \<Rightarrow> ustr \<Rightarrow> ('e, unit) act" where
  "remember_version i version w = (Inr (), w\<lparr>lw_versions := btm_insert i version (lw_versions w)\<rparr>)"

text \<open>The environment an isolated launch prepared must be the one that was intended.\<close>

definition accept_environment ::
  "'e lifecycle_ports \<Rightarrow> prepared_environment_handle \<Rightarrow> runner_attempt \<Rightarrow> ('e, runner_attempt) act" where
  "accept_environment io prepared a =
     (case prep_identity prepared of
        Some (IsolatedEnvironment h i kind env_id img generation) \<Rightarrow>
          if identity_matches_intent (lp_host_id io) a (IsolatedEnvironment h i kind env_id img generation)
          then
            act_bind (edge (OpPreparedEnvironment env_id) a) (\<lambda>a.
            act_bind (edge_now io OpMarkPrepared a) (journalled io))
          else act_fail (LifecycleFailed (IsolationProvider OwnershipMismatch))
      | _ \<Rightarrow> act_fail (LifecycleFailed (IsolationProvider OwnershipMismatch)))"

definition prepare_launch ::
  "'e lifecycle_ports \<Rightarrow> scale_policy \<Rightarrow> runner_attempt \<Rightarrow> ('e, prepared_environment_handle \<times> runner_attempt) act" where
  "prepare_launch io p a =
     (let isolated = \<not> execution_is_native (attempt_execution a) in
      act_bind (if isolated then act_bind (edge_now io OpBeginPrepare a) (journalled io) else act_return a) (\<lambda>a.
      act_bind (act_call (xp_prepare (lp_processes io) a p)) (\<lambda>r.
      case r of
        Inl reason \<Rightarrow> fail_launch io a (if isolated then safe_isolation_reason reason RuntimeOperationFailed else reason)
      | Inr prepared \<Rightarrow>
          act_bind (if isolated then accept_environment io prepared a else act_return a) (\<lambda>a.
          act_return (prepared, a)))))"

definition start_isolated ::
  "'e lifecycle_ports \<Rightarrow> prepared_environment_handle \<Rightarrow> ustr \<Rightarrow> runner_attempt \<Rightarrow> ('e, runner_attempt) act" where
  "start_isolated io prepared config a =
     act_bind (act_call (xp_start (lp_processes io) prepared a config)) (\<lambda>r.
     case r of
       Inl failure \<Rightarrow> act_fail (LifecycleFailed (safe_isolation_reason (psf_reason failure) RuntimeOperationFailed))
     | Inr identity \<Rightarrow>
         if \<not> identity_matches_intent (lp_host_id io) a identity
         then act_fail (LifecycleFailed (IsolationProvider OwnershipMismatch))
         else act_bind (edge_now io OpStartedIsolated a) (journalled io))"

definition start_once ::
  "'e lifecycle_ports \<Rightarrow> scale_policy \<Rightarrow> prepared_environment_handle \<Rightarrow> ustr \<Rightarrow> runner_attempt \<Rightarrow> u32 \<Rightarrow> ('e, u32 option) act" where
  "start_once io p prepared config a issued =
     act_bind (act_call (xp_start (lp_processes io) prepared a config)) (\<lambda>r.
     case r of
       Inr (NativeProcess pid) \<Rightarrow> act_return (Some pid)
     | Inr (IsolatedEnvironment _ _ _ _ _ _) \<Rightarrow>
         act_fail (LifecycleFailed (OtherReason (lit ''unexpected isolated environment identity'')))
     | Inl failure \<Rightarrow>
         (case psf_live_pid failure of
            Some pid \<Rightarrow>
              act_bind (edge_now io (OpStarted pid) a) (\<lambda>a.
              act_bind (journal io a) (\<lambda>_. act_fail (LifecycleFailed (psf_reason failure))))
          | None \<Rightarrow>
              if \<not> psf_retryable failure \<or> out_of_tries io issued then fail_launch io a (psf_reason failure)
              else
                act_bind (wait_to_retry io p (attempt_id a) (lit ''process_start'') (policy_delay (lp_retry io) issued)) (\<lambda>again.
                if again then act_return None else fail_launch io a (psf_reason failure))))"

definition start_native ::
  "'e lifecycle_ports \<Rightarrow> scale_policy \<Rightarrow> prepared_environment_handle \<Rightarrow> ustr \<Rightarrow> runner_attempt \<Rightarrow> ('e, runner_attempt) act" where
  "start_native io p prepared config a =
     act_bind (act_loop (retry_rounds io) (start_once io p prepared config a) 0) (\<lambda>pid.
     act_bind (edge_now io (OpStarted pid) a) (journalled io))"

definition launch_steps :: "'e lifecycle_ports \<Rightarrow> scale_policy \<Rightarrow> runner_attempt \<Rightarrow> routing_labels \<Rightarrow> ('e, runner_attempt) act" where
  "launch_steps io p a labels =
     act_bind (materialize_with_retry io p a) (\<lambda>r.
     case r of
       Inl reason \<Rightarrow> fail_launch io a reason
     | Inr version \<Rightarrow>
         act_bind (prune_under_allocation_lock io version) (\<lambda>_.
         act_bind (remember_version (attempt_id a) version) (\<lambda>_.
         act_bind (prepare_launch io p a) (\<lambda>(prepared, a).
         act_bind (register_with_retry io p (attempt_id a) labels) (\<lambda>registered.
         case registered of
           Inl e \<Rightarrow> fail_launch io a (lifecycle_reason io e)
         | Inr registration \<Rightarrow>
             act_bind (write_runner_id io (runtime_path a) (jr_runner_id registration)) (\<lambda>_.
             act_bind (act_bind (edge_now io OpJitReceived a) (journalled io)) (\<lambda>a.
             if execution_is_native (attempt_execution a)
             then start_native io p prepared (jr_config registration) a
             else start_isolated io prepared (jr_config registration) a)))))))"

definition launch_attempt :: "'e lifecycle_ports \<Rightarrow> scale_policy \<Rightarrow> ('e, runner_attempt) act" where
  "launch_attempt io p =
     act_bind (allocate_attempt io p) (\<lambda>(a, labels).
     act_bind (act_try (launch_steps io p a labels)) (\<lambda>r.
     act_bind (act_emit (LaunchedEvent (attempt_id a) (is_ok r))) (\<lambda>_.
     act_lift r)))"

section \<open>The launcher port of the reconciler\<close>

definition as_port :: "'e lifecycle_ports \<Rightarrow> ('e, 'a) act \<Rightarrow> 'e launcher \<Rightarrow> (launch_failure + 'a) \<times> 'e launcher" where
  "as_port io m w = (case m w of (r, w') \<Rightarrow> (map_err (\<lambda>e. \<lparr>launch_reason = lifecycle_reason io e\<rparr>) r, w'))"

definition UNREADABLE_JOURNAL :: failure_reason where
  "UNREADABLE_JOURNAL = OtherReason (lit ''attempt journal could not be read'')"

definition launcher_host_capacity ::
  "'e lifecycle_ports \<Rightarrow> host \<Rightarrow> 'e launcher \<Rightarrow> (host_capacity_error + u16) \<times> 'e launcher" where
  "launcher_host_capacity io h w =
     (case act_bind (root_env_of io) (\<lambda>env. act_query io (find_host (re_native env) (host_id h))) w of
        (Inl _, w') \<Rightarrow> (Inl JournalUnreadable, w')
      | (Inr None, w') \<Rightarrow> (Inl MissingHost, w')
      | (Inr (Some current), w') \<Rightarrow> (Inr (host_capacity current), w'))"

definition launcher_attempts :: "'e lifecycle_ports \<Rightarrow> 'e launcher \<Rightarrow> (launch_failure + runner_attempt list) \<times> 'e launcher" where
  "launcher_attempts io w =
     (case act_query io attempts w of (r, w') \<Rightarrow> (map_err (\<lambda>_. \<lparr>launch_reason = UNREADABLE_JOURNAL\<rparr>) r, w'))"

definition launcher_clean :: "'e lifecycle_ports \<Rightarrow> attempt_id \<Rightarrow> 'e launcher \<Rightarrow> (launch_failure + unit) \<times> 'e launcher" where
  "launcher_clean io i w =
     (case act_query io (find_attempt i) w of
        (Inl _, w') \<Rightarrow> (Inl \<lparr>launch_reason = UNREADABLE_JOURNAL\<rparr>, w')
      | (Inr None, w') \<Rightarrow> (Inl \<lparr>launch_reason = OtherReason (lit ''attempt disappeared from the journal'')\<rparr>, w')
      | (Inr (Some a), w') \<Rightarrow>
          as_port io (act_bind (clean_attempt io a) (\<lambda>_. act_retries (clean_succeeded i))) w')"

definition acquire_allocation :: "'e lifecycle_ports \<Rightarrow> 'e launcher \<Rightarrow> bool \<times> 'e launcher" where
  "acquire_allocation io w =
     (case sys_try_lock (lp_system io) (lw_outside w) of (got, outside') \<Rightarrow>
        (got, w\<lparr>lw_outside := outside', lw_locked := got\<rparr>))"

definition release_allocation :: "'e lifecycle_ports \<Rightarrow> 'e launcher \<Rightarrow> 'e launcher" where
  "release_allocation io w =
     w\<lparr>lw_outside := snd (sys_unlock (lp_system io) (lw_outside w)), lw_locked := False\<rparr>"

text \<open>What the reconciler is wired to beside the launcher: the demand and inventory gateways over the
  outside state, the clock and the jitter source it reads, and the wording of a GitHub error.\<close>

record ('s, 'e) gateways =
  gt_poll :: "activity_scope \<Rightarrow> ('e, 's poll_outcome) port"
  gt_repositories :: "org \<Rightarrow> ('e, inventory_error + owner_repo list) port"
  gt_now :: "'e outside \<Rightarrow> timestamp"
  gt_jitter :: "'e outside \<Rightarrow> jitter"
  gt_render :: "github_error \<Rightarrow> ustr"

definition through :: "('e, 'a) port \<Rightarrow> 'e launcher \<Rightarrow> 'a \<times> 'e launcher" where
  "through p w = (case p (lw_outside w) of (x, outside') \<Rightarrow> (x, w\<lparr>lw_outside := outside'\<rparr>))"

definition launcher_ports :: "'e lifecycle_ports \<Rightarrow> ('s, 'e) gateways \<Rightarrow> ('s, 'e launcher) ports" where
  "launcher_ports io gt =
     \<lparr>port_poll = (\<lambda>sc. through (gt_poll gt sc)),
      port_repositories = (\<lambda>o'. through (gt_repositories gt o')),
      port_host_capacity = launcher_host_capacity io,
      port_supervise = (\<lambda>p. as_port io (supervise io p)),
      port_attempts = launcher_attempts io,
      port_launch = (\<lambda>_ p. as_port io (launch_attempt io p)),
      port_clean = launcher_clean io,
      port_acquire = acquire_allocation io,
      port_release = release_allocation io,
      port_now = (\<lambda>w. gt_now gt (lw_outside w)),
      port_jitter = (\<lambda>w. gt_jitter gt (lw_outside w)),
      port_render = gt_render gt\<rparr>"

end
