(* ===== verification/Occupancy.thy ===== *)
theory Occupancy
  imports Launcher
begin

text \<open>
  What the launcher does to the journal. Its operations are composed by the rules of \<open>sequencing\<close>; the
  relation they keep says which rows a step may write, that no attempt which does not already hold a
  slot comes to hold one, and that the host rows, the lock, the startup gate and the announced launches
  stay as they are. With it the launcher is an instance of the contract \<open>runner_launcher\<close> of the reconciler.
\<close>

section \<open>The relation every step keeps\<close>

definition attempt_row_of :: "'e launcher \<Rightarrow> attempt_id \<Rightarrow> persisted_attempt option" where
  "attempt_row_of w i = find_row pa_id i (db_attempts (lw_db w))"

definition occupied :: "'e launcher \<Rightarrow> attempt_id set" where
  "occupied w = {i. \<exists>r. attempt_row_of w i = Some r \<and> active_row r}"

definition launched_ids :: "'e launcher \<Rightarrow> attempt_id set" where
  "launched_ids w = {i. LaunchedEvent i True \<in> set (lw_events w)}"

text \<open>\<open>writes T S\<close>: only rows of attempts in \<open>T\<close> are written, and none outside \<open>S\<close> comes to hold a
  slot; the constraints of the store are kept.\<close>

definition writes :: "attempt_id set \<Rightarrow> attempt_id set \<Rightarrow> 'e launcher \<Rightarrow> 'e launcher \<Rightarrow> bool" where
  "writes T S w w' \<longleftrightarrow>
     db_hosts (lw_db w') = db_hosts (lw_db w) \<and> db_policies (lw_db w') = db_policies (lw_db w)
     \<and> lw_locked w' = lw_locked w \<and> launched_ids w' = launched_ids w
     \<and> lw_recovery_complete w' = lw_recovery_complete w
     \<and> (\<forall>i. i \<notin> T \<longrightarrow> attempt_row_of w' i = attempt_row_of w i)
     \<and> (occupied w \<subseteq> S \<longrightarrow> occupied w' \<subseteq> S) \<and> (db_wf (lw_db w) \<longrightarrow> db_wf (lw_db w'))"

interpretation writes: sequencing "writes T S" for T S
  by unfold_locales (auto simp: writes_def occupied_def attempt_row_of_def launched_ids_def)

lemma writes_mono: "writes T S w w' \<Longrightarrow> T \<subseteq> T' \<Longrightarrow> writes T' S w w'"
  unfolding writes_def by blast

text \<open>An attempt that may be journalled inside \<open>T\<close> and \<open>S\<close>.\<close>

definition held_in :: "attempt_id set \<Rightarrow> attempt_id set \<Rightarrow> runner_attempt \<Rightarrow> bool" where
  "held_in T S a \<longleftrightarrow> attempt_id a \<in> T \<and> (counts_against_capacity a \<longrightarrow> attempt_id a \<in> S)"

lemma edge_frame:
  assumes "attempt_apply op a = Inr a'"
  shows "attempt_id a' = attempt_id a"
    and "execution_is_native (attempt_execution a') = execution_is_native (attempt_execution a) \<or> attempt_state a = Allocated"
  using assms
  by (cases op; auto simp: attempt_op_defs move_to_Inr conclude_Inr split: if_splits attempt_execution.splits option.splits)+

lemma edge_keeps_slot:
  assumes "attempt_apply op a = Inr a'" "counts_against_capacity a'"
  shows "counts_against_capacity a"
proof -
  have states: "attempt_state a' = attempt_state a \<or> (attempt_state a, attempt_state a') \<in> set attempt_LEGAL"
    using attempt_apply_state [OF assms(1)] by blast
  have "attempt_state a' = Cleaned" if "attempt_state a = Cleaned"
    using states that by (auto simp: attempt_LEGAL_def)
  moreover have "is_terminal (attempt_state a')" if "is_terminal (attempt_state a)"
    using states that legal_terminal_stays by metis
  ultimately show ?thesis
    using assms(2) edge_frame(2) [OF assms(1)]
    by (auto simp: counts_against_capacity_def state_counts_against_capacity_def is_terminal_def)
qed

section \<open>The journal\<close>

lemma held_in_edge: "attempt_apply op a = Inr a' \<Longrightarrow> held_in T S a \<Longrightarrow> held_in T S a'"
  using edge_frame(1) edge_keeps_slot by (auto simp: held_in_def)

lemma record_attempt_tables: "record_attempt a db = Inr db' \<Longrightarrow> db_hosts db' = db_hosts db \<and> db_policies db' = db_policies db"
  by (auto dest: record_attempt_Inr(1))

lemma record_attempt_rows:
  assumes "record_attempt a (lw_db w) = Inr db"
  shows "attempt_row_of (w\<lparr>lw_outside := s, lw_db := db\<rparr>) i =
    (if i = attempt_id a then Some (row_of a (lw_db w)) else attempt_row_of w i)"
  using record_attempt_Inr(4) [OF assms] by (simp add: attempt_row_of_def)

lemma ensures_store:
  assumes "held_in T S a" "\<And>r. Q r"
  shows "ensures (writes T S) (store_attempt io a) Q"
  unfolding ensures_def
proof (intro allI impI)
  fix w r w'
  assume run: "store_attempt io a w = (r, w')"
  obtain fails s where o': "lp_store_fails io (lw_outside w) = (fails, s)" by (metis surj_pair)
  have "writes T S w w'"
  proof (cases "\<exists>db. \<not> fails \<and> record_attempt a (lw_db w) = Inr db")
    case True
    then obtain db where db: "\<not> fails" "record_attempt a (lw_db w) = Inr db" by blast
    then have w': "w' = w\<lparr>lw_outside := s, lw_db := db\<rparr>" using run o' by (simp add: store_attempt_def)
    have "occupied w' \<subseteq> insert (attempt_id a) (occupied w)" "counts_against_capacity a \<or> occupied w' \<subseteq> occupied w"
      unfolding occupied_def w' record_attempt_rows [OF db(2)] by auto
    then show ?thesis
      using assms(1) record_attempt_tables [OF db(2)] record_attempt_rows [OF db(2), of s] record_attempt_wf [OF db(2)]
      unfolding writes_def w' by (auto simp: held_in_def launched_ids_def)
  next
    case False
    then have "w' = w\<lparr>lw_outside := s\<rparr>"
      using run o' by (auto simp: store_attempt_def Let_def split: if_splits sum.splits)
    then show ?thesis using writes.F_fields(1) by blast
  qed
  then show "writes T S w w' \<and> (\<forall>x. r = Inr x \<longrightarrow> Q x)" using assms(2) by blast
qed

lemmas runs = writes.ensures_rules ensures_store

lemma ensures_edge: "held_in T S a \<Longrightarrow> (\<And>a'. held_in T S a' \<Longrightarrow> Q a') \<Longrightarrow> ensures (writes T S) (edge op a) Q"
  unfolding edge_def by (intro runs) (auto dest: held_in_edge)

lemma ensures_journal: "held_in T S a \<Longrightarrow> Q () \<Longrightarrow> ensures (writes T S) (journal io a) Q"
  unfolding journal_def by (intro runs) auto

lemma ensures_allocation: "held_in T S a \<Longrightarrow> Q () \<Longrightarrow> ensures (writes T S) (record_allocation io a) Q"
  unfolding record_allocation_def by (intro runs) (auto split: store_error.split intro!: runs)

lemma ensures_clock: "(\<And>t. Q t) \<Longrightarrow> ensures (writes T S) (clock_now io) Q"
  unfolding clock_now_def by (intro runs)

lemma ensures_env: "(\<And>e. Q e) \<Longrightarrow> ensures (writes T S) (root_env_of io) Q"
  unfolding root_env_of_def by (intro runs)

lemma ensures_edge_now: "held_in T S a \<Longrightarrow> (\<And>a'. held_in T S a' \<Longrightarrow> Q a') \<Longrightarrow> ensures (writes T S) (edge_now io op a) Q"
  unfolding edge_now_def by (intro runs ensures_clock ensures_edge)

lemma ensures_journalled: "held_in T S a \<Longrightarrow> Q a \<Longrightarrow> ensures (writes T S) (journalled io a) Q"
  unfolding journalled_def by (intro runs ensures_journal)

lemma ensures_transition: "held_in T S a \<Longrightarrow> (\<And>a'. held_in T S a' \<Longrightarrow> Q a') \<Longrightarrow> ensures (writes T S) (transition io op a) Q"
  unfolding transition_def by (intro runs ensures_edge ensures_journalled)

lemmas runs2 = runs ensures_edge ensures_journal ensures_clock ensures_env ensures_edge_now ensures_journalled ensures_transition

lemma ensures_conclude: "held_in T S a \<Longrightarrow> (\<And>a'. held_in T S a' \<Longrightarrow> Q a') \<Longrightarrow> ensures (writes T S) (conclude_attempt io oc a) Q"
  unfolding conclude_attempt_def by (intro runs2) auto

section \<open>Cleaning\<close>

lemma ensures_read_runner_id: "(\<And>r. Q r) \<Longrightarrow> ensures (writes T S) (read_runner_id io p) Q"
  unfolding read_runner_id_def by (intro runs)

lemma ensures_write_runner_id: "Q () \<Longrightarrow> ensures (writes T S) (write_runner_id io p r) Q"
  unfolding write_runner_id_def
  by (intro runs ensures_read_runner_id) (auto split: sidecar_write.split intro!: runs ensures_read_runner_id)

lemma ensures_known_runner_id: "(\<And>r. Q r) \<Longrightarrow> ensures (writes T S) (known_runner_id io a r) Q"
  unfolding known_runner_id_def by (intro runs ensures_read_runner_id)

lemma ensures_deregister: "Q () \<Longrightarrow> ensures (writes T S) (deregister_runner io p a) Q"
  unfolding deregister_runner_def by (intro runs ensures_known_runner_id) auto

lemma ensures_diagnostics: "Q () \<Longrightarrow> ensures (writes T S) (preserve_diagnostics io a oc) Q"
  unfolding preserve_diagnostics_def Let_def by (intro runs) (auto split: diagnostics_failure.split intro!: runs)

lemma ensures_scrub: "Q () \<Longrightarrow> ensures (writes T S) (scrub_workspace io a) Q"
  unfolding scrub_workspace_def scrub_persistent_slot_def Let_def
  by (auto split: attempt_workspace.split intro!: runs ensures_env)

lemma ensures_finish:
  "held_in T S a \<Longrightarrow> (\<And>a'. held_in T S a' \<Longrightarrow> Q a') \<Longrightarrow> ensures (writes T S) (finish_cleaning io op oc a) Q"
  unfolding finish_cleaning_def by (intro runs2 ensures_diagnostics ensures_scrub) auto

lemma ensures_defer: "held_in T S a \<Longrightarrow> ensures (writes T S) (defer_environment_cleanup io a) Q"
  unfolding defer_environment_cleanup_def by (intro runs2)

lemma ensures_quarantine: "held_in T S a \<Longrightarrow> ensures (writes T S) (quarantine_environment io a) Q"
  unfolding quarantine_environment_def by (intro runs2 ensures_defer) auto

lemma ensures_destroy: "held_in T S a \<Longrightarrow> Q () \<Longrightarrow> ensures (writes T S) (destroy_environment io a st) Q"
  unfolding destroy_environment_def Let_def by (intro runs2 ensures_defer ensures_quarantine)

lemma ensures_begin_destroying:
  "held_in T S a \<Longrightarrow> (\<And>a'. held_in T S a' \<Longrightarrow> Q a') \<Longrightarrow> ensures (writes T S) (begin_destroying io a) Q"
  unfolding begin_destroying_def by (intro runs2) auto

lemma ensures_clean_isolated:
  "held_in T S a \<Longrightarrow> (\<And>a'. held_in T S a' \<Longrightarrow> Q a') \<Longrightarrow> ensures (writes T S) (clean_isolated_attempt io a) Q"
  unfolding clean_isolated_attempt_def Let_def
  by (intro runs2 ensures_begin_destroying ensures_defer ensures_quarantine ensures_destroy ensures_finish) auto

lemma ensures_clean:
  "held_in T S a \<Longrightarrow> (\<And>a'. held_in T S a' \<Longrightarrow> Q a') \<Longrightarrow> ensures (writes T S) (clean_attempt io a) Q"
  unfolding clean_attempt_def
  by (auto split: provider_destroy.split intro!: runs ensures_clean_isolated ensures_finish)

lemma ensures_clean_or_quarantine: "held_in T S a \<Longrightarrow> Q () \<Longrightarrow> ensures (writes T S) (clean_or_quarantine io a) Q"
  unfolding clean_or_quarantine_def by (intro runs2 writes.ensures_try ensures_clean)

section \<open>Supervision\<close>

lemmas runs3 = runs2 writes.ensures_try ensures_conclude ensures_read_runner_id ensures_write_runner_id ensures_known_runner_id
  ensures_deregister ensures_scrub ensures_clean ensures_clean_or_quarantine

lemma ensures_reconcile_cleaned: "(\<And>x. Q x) \<Longrightarrow> ensures (writes T S) (reconcile_cleaned io a) Q"
  unfolding reconcile_cleaned_def by (intro runs3)

lemma ensures_remember: "Q () \<Longrightarrow> ensures (writes T S) (remember_remote_id io b a seen) Q"
  unfolding remember_remote_id_def by (intro runs3) auto

lemma ensures_recover_spawned:
  "held_in T S a \<Longrightarrow> (\<And>a'. held_in T S a' \<Longrightarrow> Q a') \<Longrightarrow> ensures (writes T S) (recover_spawned io b a) Q"
  unfolding recover_spawned_def by (intro runs3) auto

lemma ensures_evidence: "(\<And>x. Q x) \<Longrightarrow> ensures (writes T S) (job_evidence_of io p) Q"
  unfolding job_evidence_of_def Let_def by (intro runs3)

lemma ensures_completed_outcome: "(\<And>x. Q x) \<Longrightarrow> ensures (writes T S) (completed_outcome io b seen a) Q"
  unfolding completed_outcome_def by (intro runs3 ensures_evidence)

lemma ensures_retire: "held_in T S a \<Longrightarrow> (\<And>x. Q x) \<Longrightarrow> ensures (writes T S) (retire io oc pr a) Q"
  unfolding retire_def by (intro runs3)

lemma ensures_deregister_if_listed: "Q () \<Longrightarrow> ensures (writes T S) (deregister_if_listed io p seen a) Q"
  unfolding deregister_if_listed_def by (intro runs3)

lemma ensures_conclude_completed:
  "held_in T S a \<Longrightarrow> (\<And>x. Q x) \<Longrightarrow> ensures (writes T S) (conclude_completed io p seen walk oc a) Q"
  unfolding conclude_completed_def by (intro runs3 ensures_deregister_if_listed ensures_retire)

lemma ensures_never_taken_up: "(\<And>x. Q x) \<Longrightarrow> ensures (writes T S) (never_taken_up io b seen a) Q"
  unfolding never_taken_up_def by (intro runs3 ensures_evidence)

lemma ensures_terminate: "held_in T S a \<Longrightarrow> (\<And>x. Q x) \<Longrightarrow> ensures (writes T S) (terminate_attempt io p oc a) Q"
  unfolding terminate_attempt_def Let_def by (intro runs3 ensures_retire) auto

lemma ensures_decide: "(\<And>x. Q x) \<Longrightarrow> ensures (writes T S) (decide_recovery io b seen a) Q"
  unfolding decide_recovery_def by (intro runs3)

lemma ensures_conclude_decided: "held_in T S a \<Longrightarrow> (\<And>x. Q x) \<Longrightarrow> ensures (writes T S) (conclude_decided io p seen oc a) Q"
  unfolding conclude_decided_def by (intro runs3 ensures_deregister_if_listed ensures_retire)

lemma ensures_adopt: "(\<And>x. Q x) \<Longrightarrow> ensures (writes T S) (adopt a) Q"
  unfolding adopt_def by (intro runs3) auto

lemma ensures_clean_up: "held_in T S a \<Longrightarrow> (\<And>x. Q x) \<Longrightarrow> ensures (writes T S) (clean_up io a) Q"
  unfolding clean_up_def by (intro runs3)

lemma ensures_observe_state: "held_in T S a \<Longrightarrow> (\<And>x. Q x) \<Longrightarrow> ensures (writes T S) (observe_state io op a) Q"
  unfolding observe_state_def by (intro runs3)

lemmas decisions = ensures_adopt ensures_clean_up ensures_observe_state ensures_conclude_decided ensures_terminate ensures_retire

lemma ensures_apply_decision: "held_in T S a \<Longrightarrow> (\<And>x. Q x) \<Longrightarrow> ensures (writes T S) (apply_decision io p seen a d) Q"
  unfolding apply_decision_def by (cases d; simp; intro runs3 decisions)

lemma ensures_apply_isolated: "held_in T S a \<Longrightarrow> (\<And>x. Q x) \<Longrightarrow> ensures (writes T S) (apply_isolated_decision io p seen a d) Q"
  unfolding apply_isolated_decision_def by (cases d; simp del: One_nat_def; intro runs3 decisions)

lemma ensures_expire: "held_in T S a \<Longrightarrow> (\<And>x. Q x) \<Longrightarrow> ensures (writes T S) (expire_registration io p a) Q"
  unfolding expire_registration_def by (intro runs3 ensures_retire)

lemma ensures_reconcile_live: "held_in T S a \<Longrightarrow> (\<And>x. Q x) \<Longrightarrow> ensures (writes T S) (reconcile_live io p b seen a) Q"
  unfolding reconcile_live_def
  by (intro runs3 ensures_completed_outcome ensures_conclude_completed ensures_never_taken_up ensures_retire ensures_expire
      ensures_decide ensures_apply_decision)

lemma ensures_isolated_live: "held_in T S a \<Longrightarrow> (\<And>x. Q x) \<Longrightarrow> ensures (writes T S) (reconcile_isolated_live io p b a) Q"
  unfolding reconcile_isolated_live_def
  by (intro runs3 ensures_remember ensures_retire ensures_decide ensures_apply_isolated)

lemma ensures_isolated_one: "held_in T S a \<Longrightarrow> (\<And>x. Q x) \<Longrightarrow> ensures (writes T S) (reconcile_isolated_one io p a) Q"
  unfolding reconcile_isolated_one_def by (intro runs3 ensures_clean_up ensures_retire ensures_isolated_live) auto

lemma ensures_reconcile_one: "held_in T S a \<Longrightarrow> (\<And>x. Q x) \<Longrightarrow> ensures (writes T S) (reconcile_one io p a) Q"
  unfolding reconcile_one_def Let_def
  by (intro runs3 ensures_isolated_one ensures_reconcile_cleaned ensures_clean_up ensures_remember ensures_recover_spawned
      ensures_reconcile_live)

lemma ensures_supervise_each:
  "list_all (held_in T S) as \<Longrightarrow> (\<And>x. Q x) \<Longrightarrow> ensures (writes T S) (supervise_each io p as) Q"
proof (induction as arbitrary: Q)
  case (Cons a as)
  then have "held_in T S a" by simp
  then show ?case unfolding supervise_each.simps authorized_def
    by (intro runs3 ensures_reconcile_one Cons.IH) (use Cons.prems in auto)
qed (simp add: writes.ensures_return)

lemma ensures_take_pending: "(\<And>x. Q x) \<Longrightarrow> ensures (writes T S) (take_pending p) Q"
  by (auto simp: ensures_def take_pending_def Let_def writes_def occupied_def attempt_row_of_def launched_ids_def)

section \<open>Launching\<close>

lemma ensures_default_root: "(\<And>x. Q x) \<Longrightarrow> ensures (writes T S) (default_runner_root io) Q"
  unfolding default_runner_root_def by (intro runs)

lemma ensures_or_refused: "(\<And>x. Q x) \<Longrightarrow> ensures (writes T S) (or_refused io i root r) Q"
  unfolding or_refused_def root_refused_def by (intro runs ensures_clock)

lemma ensures_configured_root: "(\<And>x. Q x) \<Longrightarrow> ensures (writes T S) (configured_host_root io) Q"
  unfolding configured_host_root_def by (intro runs ensures_env)

lemma ensures_resolvable_root: "(\<And>x. Q x) \<Longrightarrow> ensures (writes T S) (resolvable_host_root io) Q"
  unfolding resolvable_host_root_def by (intro runs ensures_configured_root ensures_default_root)

lemma ensures_effective_root: "(\<And>x. Q x) \<Longrightarrow> ensures (writes T S) (effective_host_root io p) Q"
  unfolding effective_host_root_def by (intro runs ensures_configured_root ensures_default_root ensures_or_refused)

lemma ensures_disposable: "(\<And>x. Q x) \<Longrightarrow> ensures (writes T S) (allocate_disposable io p i) Q"
  unfolding allocate_disposable_def Let_def by (intro runs ensures_env ensures_effective_root ensures_or_refused)

lemma ensures_slot_failed: "Q () \<Longrightarrow> ensures (writes T S) (slot_failed io r) Q"
  unfolding slot_failed_def by (intro runs) simp

lemma ensures_choose_slot: "(\<And>x. Q x) \<Longrightarrow> ensures (writes T S) (choose_slot io p) Q"
  unfolding choose_slot_def by (intro runs)

lemma ensures_root_leaf: "Q () \<Longrightarrow> ensures (writes T S) (create_root_leaf io c) Q"
  unfolding create_root_leaf_def by (intro runs)

lemma ensures_persistent: "(\<And>x. Q x) \<Longrightarrow> ensures (writes T S) (allocate_persistent_slot io p root) Q"
  unfolding allocate_persistent_slot_def Let_def
  by (intro runs ensures_env ensures_choose_slot ensures_resolvable_root ensures_or_refused ensures_root_leaf ensures_slot_failed)

lemma ensures_workspace: "(\<And>x. Q x) \<Longrightarrow> ensures (writes T S) (allocate_workspace io p i) Q"
  unfolding allocate_workspace_def
  by (auto split: workspace_policy.split intro!: runs ensures_persistent ensures_disposable)

lemma ensures_check_launchable: "(\<And>x. Q x) \<Longrightarrow> ensures (writes T S) (check_launchable io p) Q"
  unfolding check_launchable_def check_resolution_def Let_def by (intro runs)

lemma ensures_intend:
  "held_in T S a \<Longrightarrow> (\<And>a'. held_in T S a' \<Longrightarrow> Q a') \<Longrightarrow> ensures (writes T S) (intend_execution io r a) Q"
  unfolding intend_execution_def by (intro runs ensures_edge) auto

lemma ensures_place:
  "i \<in> T \<Longrightarrow> i \<in> S \<Longrightarrow> (\<And>a. held_in T S a \<Longrightarrow> Q a) \<Longrightarrow> ensures (writes T S) (place_attempt io p r i) Q"
  unfolding place_attempt_def
  by (intro runs ensures_workspace ensures_clock ensures_intend ensures_allocation) (auto simp: held_in_def allocate_in_def)

lemma ensures_fail_launch: "held_in T S a \<Longrightarrow> ensures (writes T S) (fail_launch io a reason) Q"
  unfolding fail_launch_def by (intro runs ensures_conclude)

lemma ensures_wait: "(\<And>x. Q x) \<Longrightarrow> ensures (writes T S) (wait_to_retry io p i o' d) Q"
  unfolding wait_to_retry_def by (intro runs) auto

lemma ensures_materialize: "(\<And>x. Q x) \<Longrightarrow> ensures (writes T S) (materialize_with_retry io p a) Q"
  unfolding materialize_with_retry_def materialize_once_def by (intro writes.ensures_loop runs ensures_wait) auto

lemma ensures_register: "(\<And>x. Q x) \<Longrightarrow> ensures (writes T S) (register_with_retry io p i labels) Q"
  unfolding register_with_retry_def register_once_def by (intro writes.ensures_loop runs ensures_wait) auto

lemma ensures_prune: "(\<And>x. Q x) \<Longrightarrow> ensures (writes T S) (prune_under_allocation_lock io v) Q"
  unfolding prune_under_allocation_lock_def by (intro runs)

lemma ensures_version: "Q () \<Longrightarrow> ensures (writes T S) (remember_version i v) Q"
  by (auto simp: ensures_def remember_version_def writes_def occupied_def attempt_row_of_def launched_ids_def)

lemma ensures_accept_environment:
  "held_in T S a \<Longrightarrow> (\<And>a'. held_in T S a' \<Longrightarrow> Q a') \<Longrightarrow> ensures (writes T S) (accept_environment io pr a) Q"
  unfolding accept_environment_def
  by (auto split: option.split environment_identity.split intro!: runs2)

lemma ensures_prepare:
  "held_in T S a \<Longrightarrow> (\<And>pr a'. held_in T S a' \<Longrightarrow> Q (pr, a')) \<Longrightarrow> ensures (writes T S) (prepare_launch io p a) Q"
  unfolding prepare_launch_def Let_def by (intro runs2 ensures_accept_environment ensures_fail_launch) auto

text \<open>A started attempt holds a slot.\<close>

lemma started_counts: "attempt_apply (OpStarted pid t) a = Inr a' \<Longrightarrow> counts_against_capacity a'"
  "attempt_apply (OpStartedIsolated t) a = Inr a' \<Longrightarrow> counts_against_capacity a'"
  by (auto simp: attempt_op_defs move_to_Inr counts_against_capacity_def state_counts_against_capacity_def is_terminal_def
      split: if_splits)

definition running_in :: "attempt_id set \<Rightarrow> attempt_id set \<Rightarrow> runner_attempt \<Rightarrow> bool" where
  "running_in T S a \<longleftrightarrow> held_in T S a \<and> counts_against_capacity a"

lemma ensures_started:
  assumes "held_in T S a" "\<And>a'. running_in T S a' \<Longrightarrow> Q a'" "op = OpStarted pid \<or> op = OpStartedIsolated"
  shows "ensures (writes T S) (act_bind (edge_now io op a) (journalled io)) Q"
proof -
  have "running_in T S a'" if "attempt_apply (op t) a = Inr a'" for t a'
    using that assms(1,3) started_counts held_in_edge [OF that] unfolding running_in_def by blast
  then show ?thesis
    unfolding edge_now_def edge_def
    by (intro runs ensures_clock ensures_journalled) (use assms(2) in \<open>auto simp: running_in_def\<close>)
qed

lemma ensures_start_isolated:
  "held_in T S a \<Longrightarrow> (\<And>a'. running_in T S a' \<Longrightarrow> Q a') \<Longrightarrow> ensures (writes T S) (start_isolated io pr c a) Q"
  unfolding start_isolated_def by (intro runs ensures_started) auto

lemma ensures_start_once: "held_in T S a \<Longrightarrow> (\<And>x. Q x) \<Longrightarrow> ensures (writes T S) (start_once io p pr c a i) Q"
  unfolding start_once_def
  by (auto split: sum.split environment_identity.split option.split intro!: runs2 ensures_fail_launch ensures_wait)

lemma ensures_start_native:
  "held_in T S a \<Longrightarrow> (\<And>a'. running_in T S a' \<Longrightarrow> Q a') \<Longrightarrow> ensures (writes T S) (start_native io p pr c a) Q"
  unfolding start_native_def
  by (rule writes.ensures_bind, intro writes.ensures_loop ensures_start_once, simp, intro allI impI, rule ensures_started) auto

lemma ensures_launch_steps:
  "held_in T S a \<Longrightarrow> (\<And>a'. running_in T S a' \<Longrightarrow> Q a') \<Longrightarrow> ensures (writes T S) (launch_steps io p a labels) Q"
  unfolding launch_steps_def
  by (intro runs2 ensures_materialize ensures_fail_launch ensures_prune ensures_version ensures_prepare ensures_register
      ensures_write_runner_id ensures_start_native ensures_start_isolated) auto

text \<open>A run of an operation that is known to keep the relation.\<close>

lemma run_writes: "(\<And>Q. (\<And>x. Q x) \<Longrightarrow> ensures (writes T S) m Q) \<Longrightarrow> m w = (r, w') \<Longrightarrow> writes T S w w'"
  using ensuresD(1) by blast

lemma writes_occupied: "writes T S w w' \<Longrightarrow> occupied w \<subseteq> S \<Longrightarrow> occupied w' \<subseteq> S"
  by (simp add: writes_def)

lemma allocate_attempt_run:
  assumes "allocate_attempt io p w = (r, w')"
  shows "\<exists>i. writes {i} (insert i (occupied w)) w w' \<and> (\<forall>a labels. r = Inr (a, labels) \<longrightarrow> held_in {i} (insert i (occupied w)) a)"
proof -
  obtain r1 w1 where c: "check_launchable io p w = (r1, w1)" by (cases "check_launchable io p w")
  have one: "writes {} S w w1" for S
    using run_writes [OF ensures_check_launchable c] .
  show ?thesis
  proof (cases r1)
    case (Inl e)
    then have "r = Inl e" "w' = w1" using assms c by (simp_all add: allocate_attempt_def act_bind_def)
    then show ?thesis using writes_mono [OF one, of "{undefined}"] by blast
  next
    case (Inr x)
    obtain resolved labels where x: "x = (resolved, labels)" by (cases x)
    obtain i s where i: "sys_new_uuid (lp_system io) (lw_outside w1) = (i, s)" by (metis surj_pair)
    let ?S = "insert i (occupied w)"
    let ?m = "act_bind (place_attempt io p resolved i) (\<lambda>a. act_return (a, labels))"
    have run: "?m (w1\<lparr>lw_outside := s\<rparr>) = (r, w')"
      using assms c Inr x i by (simp add: allocate_attempt_def act_bind_def act_call_def)
    have m: "ensures (writes {i} ?S) ?m (\<lambda>(a, _). held_in {i} ?S a)"
      by (intro runs ensures_place) auto
    have "writes {i} ?S w w'"
      using writes.F_trans [OF writes.F_trans [OF writes_mono [OF one [of ?S], of "{i}"] writes.F_fields(1)] ensuresD(1) [OF m run]] by simp
    moreover have "held_in {i} ?S a" if "r = Inr (a, l)" for a l
      using ensuresD(2) [OF m] run that by blast
    ultimately show ?thesis by blast
  qed
qed

lemma launched_ids_emit: "launched_ids (w\<lparr>lw_events := lw_events w @ [e]\<rparr>) =
    (case e of LaunchedEvent i True \<Rightarrow> insert i (launched_ids w) | _ \<Rightarrow> launched_ids w)"
  by (auto simp: launched_ids_def split: attempt_event.split bool.split)

lemma launch_attempt_run:
  assumes "launch_attempt io p w = (r, w')"
  shows "\<exists>i. db_hosts (lw_db w') = db_hosts (lw_db w) \<and> lw_locked w' = lw_locked w \<and> occupied w' \<subseteq> insert i (occupied w)
    \<and> (\<forall>j. j \<noteq> i \<longrightarrow> attempt_row_of w' j = attempt_row_of w j)
    \<and> launched_ids w' = (if is_ok r then insert i (launched_ids w) else launched_ids w)
    \<and> (db_wf (lw_db w) \<longrightarrow> db_wf (lw_db w')) \<and> (\<forall>a. r = Inr a \<longrightarrow> attempt_id a = i \<and> counts_against_capacity a)"
proof -
  obtain r1 w1 where al: "allocate_attempt io p w = (r1, w1)" by (cases "allocate_attempt io p w")
  obtain i where one: "writes {i} (insert i (occupied w)) w w1"
    and held: "\<And>a labels. r1 = Inr (a, labels) \<Longrightarrow> held_in {i} (insert i (occupied w)) a"
    using allocate_attempt_run [OF al] by blast
  let ?S = "insert i (occupied w)"
  have occ: "occupied w1 \<subseteq> ?S" using writes_occupied [OF one] by blast
  show ?thesis
  proof (cases r1)
    case (Inl e)
    then have "r = Inl e" "w' = w1" using assms al by (simp_all add: launch_attempt_def act_bind_def)
    then show ?thesis using one occ by (auto simp: writes_def)
  next
    case (Inr x)
    obtain a labels where x: "x = (a, labels)" by (cases x)
    have h: "held_in {i} ?S a" using held Inr x by blast
    then have id: "attempt_id a = i" by (simp add: held_in_def)
    obtain r2 w2 where st: "launch_steps io p a labels w1 = (r2, w2)" by (cases "launch_steps io p a labels w1")
    have r: "r = r2" and w': "w' = w2\<lparr>lw_events := lw_events w2 @ [LaunchedEvent i (is_ok r2)]\<rparr>"
      using assms al Inr x st id by (auto simp: launch_attempt_def act_bind_def act_try_def act_emit_def act_lift_def)
    have m: "ensures (writes {i} ?S) (launch_steps io p a labels) (running_in {i} ?S)"
      by (rule ensures_launch_steps [OF h])
    have two: "writes {i} ?S w w2" using writes.F_trans [OF one ensuresD(1) [OF m st]] .
    have "running_in {i} ?S b" if "r2 = Inr b" for b using ensuresD(2) [OF m] st that by blast
    moreover have "occupied w' = occupied w2" "attempt_row_of w' = attempt_row_of w2" unfolding w' occupied_def attempt_row_of_def by simp_all
    ultimately show ?thesis
      using two writes_occupied [OF two] unfolding r w'
      by (cases r2) (auto simp: launched_ids_emit writes_def running_in_def held_in_def)
  qed
qed

section \<open>The reconciler's contract\<close>

text \<open>The store's constraints hold, and every capacity a host row holds is at most \<open>ceiling\<close>.\<close>

definition sound :: "nat \<Rightarrow> 'e launcher \<Rightarrow> bool" where
  "sound ceiling w \<longleftrightarrow> db_wf (lw_db w) \<and> (\<forall>r \<in> set (db_hosts (lw_db w)). unat (hr_host_capacity r) \<le> ceiling)"

lemma find_host_within:
  assumes "sound ceiling w" "find_host platform i (lw_db w) = Inr (Some h)"
  shows "unat (host_capacity h) \<le> ceiling"
proof -
  obtain r where r: "find_row hr_id i (db_hosts (lw_db w)) = Some r" "host_from_row platform r = Inr h"
    using assms(2) by (auto simp: find_host_def try_option_def split: option.splits)
  have "r \<in> set (db_hosts (lw_db w))" using r(1) by (auto simp: find_row_def find_Some_iff)
  moreover have "host_capacity h = hr_host_capacity r"
    using r(2) by (auto simp: host_from_row_def host_new_def Let_def split: if_splits)
  ultimately show ?thesis using assms(1) by (simp add: sound_def)
qed

lemma finite_occupied: "finite (occupied w)"
proof (rule finite_subset)
  show "occupied w \<subseteq> pa_id ` set (db_attempts (lw_db w))"
    by (auto simp: occupied_def attempt_row_of_def find_row_def find_Some_iff)
qed simp

text \<open>A query writes nothing; a result it answers was read from the store as it is.\<close>

lemma query_run:
  assumes "act_query io q w = (r, w')"
  shows "writes {} S w w'" "lw_db w' = lw_db w" "r = Inr x \<Longrightarrow> q (lw_db w) = Inr x"
proof -
  show "writes {} S w w'" using run_writes [OF writes.ensures_query assms] by simp
  obtain b s where "lp_store_fails io (lw_outside w) = (b, s)" by (metis surj_pair)
  then show "lw_db w' = lw_db w" "r = Inr x \<Longrightarrow> q (lw_db w) = Inr x"
    using assms by (auto simp: act_query_def act_bind_def act_call_def act_read_def act_fail_def act_lift_def split: if_splits)
qed

text \<open>A step that keeps the relation with what it holds already is quiet.\<close>

lemma writes_quiet:
  assumes "writes T (occupied w) w w'"
  shows "quiet_step (sound ceiling) occupied launched_ids lw_locked ceiling w w'"
proof -
  have "occupied w' \<subseteq> occupied w" using writes_occupied [OF assms] by blast
  moreover from this have "card (occupied w') \<le> card (occupied w)" by (rule card_mono [OF finite_occupied])
  ultimately show ?thesis using assms by (simp add: quiet_step_def writes_def sound_def le_max_iff_disj)
qed

lemma through_quiet: "writes {} (occupied w) w (snd (through p w))"
  using writes.F_fields(1) by (cases "p (lw_outside w)") (simp add: through_def)

lemma as_port_writes: "(\<And>r w'. m w = (r, w') \<Longrightarrow> writes T S w w') \<Longrightarrow> writes T S w (snd (as_port io m w))"
  by (cases "m w") (simp add: as_port_def)

text \<open>The attempts a query loads hold the slots their rows say.\<close>

lemma list_all2_members:
  assumes "list_all2 P xs ys"
  shows "y \<in> set ys \<Longrightarrow> \<exists>x \<in> set xs. P x y" and "x \<in> set xs \<Longrightarrow> \<exists>y \<in> set ys. P x y"
  using assms by (induction rule: list_all2_induct) auto

lemma attempts_where_rows:
  assumes "attempts_where P db = Inr as"
  shows "a \<in> set as \<Longrightarrow> \<exists>r \<in> set (db_attempts db). P r \<and> attempt_from_row r = Inr a"
    and "r \<in> set (db_attempts db) \<Longrightarrow> P r \<Longrightarrow> \<exists>a \<in> set as. attempt_from_row r = Inr a"
  using assms list_all2_members [of "\<lambda>r a. attempt_from_row r = Inr a" _ as] unfolding attempts_where_def try_map_Inr
  by fastforce+

lemma loaded_held:
  assumes "attempts_where P (lw_db w) = Inr as" "db_wf (lw_db w)" "a \<in> set as"
  shows "\<exists>r. attempt_row_of w (attempt_id a) = Some r \<and> P r \<and> attempt_from_row r = Inr a"
    and "counts_against_capacity a \<Longrightarrow> attempt_id a \<in> occupied w"
proof -
  obtain r where r: "r \<in> set (db_attempts (lw_db w))" "P r" "attempt_from_row r = Inr a"
    using attempts_where_rows(1) [OF assms(1,3)] by blast
  have "attempt_row_of w (attempt_id a) = Some r"
    using find_row_unique [of pa_id "db_attempts (lw_db w)" r] r(1) assms(2) loaded_row(3) [OF r(3)]
    by (simp add: attempt_row_of_def db_wf_def)
  with r loaded_row(6) [OF r(3)]
  show "\<exists>r. attempt_row_of w (attempt_id a) = Some r \<and> P r \<and> attempt_from_row r = Inr a"
    and "counts_against_capacity a \<Longrightarrow> attempt_id a \<in> occupied w" by (auto simp: occupied_def)
qed

lemma loaded_covers:
  assumes "attempts (lw_db w) = Inr as"
  shows "occupied w \<subseteq> counted as"
proof
  fix i
  assume "i \<in> occupied w"
  then obtain r where r: "r \<in> set (db_attempts (lw_db w))" "pa_id r = i" "active_row r"
    using find_row_Some by (fastforce simp: occupied_def attempt_row_of_def)
  then obtain a where "a \<in> set as" "attempt_from_row r = Inr a"
    using attempts_where_rows(2) [OF assms [unfolded attempts_def]] by blast
  then show "i \<in> counted as" using r(2,3) loaded_row(3,6) [of r a] by (force simp: counted_def)
qed

lemma supervise_run:
  assumes "supervise io p w = (r, w')" "db_wf (lw_db w)"
  shows "writes {i. \<exists>r. attempt_row_of w i = Some r \<and> pa_policy_id r = policy_id p} (occupied w) w w'"
proof -
  let ?T = "{i. \<exists>r. attempt_row_of w i = Some r \<and> pa_policy_id r = policy_id p}"
  let ?q = "act_query io (attempts_for_policy (policy_id p))"
  obtain pending w1 where tp: "take_pending p w = (Inr pending, w1)" and db1: "lw_db w1 = lw_db w"
    by (simp add: take_pending_def Let_def)
  have one: "writes ?T (occupied w) w w1" using run_writes [OF ensures_take_pending tp] .
  obtain r2 w2 where q: "?q w1 = (r2, w2)" by (cases "?q w1")
  have two: "writes ?T (occupied w) w w2"
    using writes.F_trans [OF one writes_mono [OF query_run(1) [OF q]]] by simp
  show ?thesis
  proof (cases r2)
    case (Inl e)
    then show ?thesis using assms(1) tp q two by (simp add: supervise_def act_bind_def)
  next
    case (Inr as)
    have "attempts_where (\<lambda>r. pa_policy_id r = policy_id p) (lw_db w) = Inr as"
      using query_run(3) [OF q Inr] by (simp add: db1 attempts_for_policy_def)
    from loaded_held [OF this assms(2)] have "list_all (held_in ?T (occupied w)) as"
      by (auto simp: list_all_iff held_in_def)
    then have "ensures (writes ?T (occupied w)) (act_bind (supervise_each io p as) (\<lambda>new. act_return (pending @ new))) (\<lambda>_. True)"
      by (intro runs ensures_supervise_each) auto
    moreover have "act_bind (supervise_each io p as) (\<lambda>new. act_return (pending @ new)) w2 = (r, w')"
      using assms(1) tp q Inr by (simp add: supervise_def act_bind_def)
    ultimately show ?thesis using writes.F_trans [OF two] ensuresD(1) by blast
  qed
qed

lemma clean_run:
  assumes "launcher_clean io i w = (r, w')" "db_wf (lw_db w)"
  shows "writes {i} (occupied w) w w'"
proof -
  let ?S = "occupied w"
  let ?q = "act_query io (find_attempt i)"
  obtain r1 w1 where q: "?q w = (r1, w1)" by (cases "?q w")
  have one: "writes {i} ?S w w1" using writes_mono [OF query_run(1) [OF q]] by simp
  show ?thesis
  proof (cases "\<exists>a. r1 = Inr (Some a)")
    case True
    then obtain a where a: "r1 = Inr (Some a)" by blast
    then have "find_attempt i (lw_db w) = Inr (Some a)" using query_run(3) [OF q] by blast
    then obtain r' where r': "attempt_row_of w i = Some r'" "attempt_from_row r' = Inr a"
      by (auto simp: find_attempt_def attempt_row_of_def try_option_def split: option.splits sum.splits)
    then have "attempt_id a = i" using loaded_row(3) [OF r'(2)] find_row_Some by (fastforce simp: attempt_row_of_def)
    then have "held_in {i} ?S a" using loaded_row(6) [OF r'(2)] r'(1) by (auto simp: held_in_def occupied_def)
    then have "ensures (writes {i} ?S) (act_bind (clean_attempt io a) (\<lambda>_. act_retries (clean_succeeded i))) (\<lambda>_. True)"
      by (intro runs ensures_clean) auto
    then have "writes {i} ?S w1 w'"
      using assms(1) q a by (auto simp: launcher_clean_def as_port_def split: prod.splits dest: ensuresD(1))
    then show ?thesis by (rule writes.F_trans [OF one])
  qed (use assms(1) q one in \<open>auto simp: launcher_clean_def split: sum.splits option.splits\<close>)
qed

lemma host_capacity_run:
  assumes "launcher_host_capacity io h w = (r, w')"
  shows "writes {} S w w'" "sound ceiling w \<Longrightarrow> r = Inr cap \<Longrightarrow> unat cap \<le> ceiling"
proof -
  let ?m = "\<lambda>env. act_query io (find_host (re_native env) (host_id h))"
  obtain env w1 where e: "root_env_of io w = (Inr env, w1)" and db: "lw_db w1 = lw_db w"
    by (simp add: root_env_of_def act_read_def)
  obtain r2 w2 where q: "?m env w1 = (r2, w2)" by (cases "?m env w1")
  have w': "w' = w2" using assms e q
    by (auto simp: launcher_host_capacity_def act_bind_def split: sum.splits option.splits)
  have "writes {} S w w1" using run_writes [OF ensures_env e] .
  then show "writes {} S w w'" using writes.F_trans query_run(1) [OF q] unfolding w' by blast
  show "unat cap \<le> ceiling" if snd: "sound ceiling w" and r: "r = Inr cap"
  proof -
    obtain h' where h': "r2 = Inr (Some h')" "cap = host_capacity h'"
      using assms r e q by (auto simp: launcher_host_capacity_def act_bind_def split: sum.splits option.splits)
    then show ?thesis using find_host_within [OF snd] query_run(3) [OF q h'(1)] by (simp add: db)
  qed
qed

lemma attempts_run:
  assumes "launcher_attempts io w = (r, w')"
  shows "writes {} S w w'" "r = Inr as \<Longrightarrow> occupied w' \<subseteq> counted as"
proof -
  obtain r1 w1 where q: "act_query io attempts w = (r1, w1)" by (cases "act_query io attempts w")
  have w': "w' = w1" using assms q by (simp add: launcher_attempts_def)
  show "writes {} S w w'" using query_run(1) [OF q] by (simp add: w')
  show "occupied w' \<subseteq> counted as" if "r = Inr as"
  proof -
    have "r1 = Inr as" using assms q that by (cases r1) (simp_all add: launcher_attempts_def)
    then show ?thesis using loaded_covers [of w' as] query_run(2,3) [OF q] by (simp add: w')
  qed
qed

lemma quiet_if_wf:
  "(db_wf (lw_db w) \<Longrightarrow> writes T (occupied w) w w') \<Longrightarrow> quiet_step (sound ceiling) occupied launched_ids lw_locked ceiling w w'"
  using writes_quiet [of T w w' ceiling] by (auto simp: quiet_step_def sound_def)

lemma sound_frame: "sound ceiling w \<Longrightarrow> db_hosts (lw_db w') = db_hosts (lw_db w)
    \<Longrightarrow> (db_wf (lw_db w) \<Longrightarrow> db_wf (lw_db w')) \<Longrightarrow> sound ceiling w'"
  by (simp add: sound_def)

lemma allocation_fields:
  "occupied (w\<lparr>lw_outside := s, lw_locked := b\<rparr>) = occupied w"
  "launched_ids (w\<lparr>lw_outside := s, lw_locked := b\<rparr>) = launched_ids w"
  "sound ceiling (w\<lparr>lw_outside := s, lw_locked := b\<rparr>) = sound ceiling w"
  by (simp_all add: occupied_def attempt_row_of_def launched_ids_def sound_def)

lemma as_port_run: "as_port io m w = (r, w') \<Longrightarrow> \<exists>r'. m w = (r', w') \<and> is_ok r' = is_ok r \<and> (\<forall>a. r = Inr a \<longleftrightarrow> r' = Inr a)"
  by (cases "m w"; cases "fst (m w)") (auto simp: as_port_def)

lemma launch_port_run:
  assumes "as_port io (launch_attempt io p) w = (r, w')" "sound ceiling w"
  shows "\<exists>i. sound ceiling w' \<and> lw_locked w' = lw_locked w \<and> occupied w' \<subseteq> insert i (occupied w)
    \<and> launched_ids w' = (if is_ok r then insert i (launched_ids w) else launched_ids w)
    \<and> (\<forall>a. r = Inr a \<longrightarrow> attempt_id a = i \<and> counts_against_capacity a)"
proof -
  obtain r' where "launch_attempt io p w = (r', w')" and r: "is_ok r' = is_ok r" "\<And>a. r = Inr a \<longleftrightarrow> r' = Inr a"
    using as_port_run [OF assms(1)] by blast
  from launch_attempt_run [OF this(1)] show ?thesis unfolding r using sound_frame [OF assms(2), of w'] by blast
qed

interpretation lifecycle: runner_launcher "launcher_ports io gt" "sound ceiling" occupied launched_ids lw_locked ceiling
  for io :: "'e lifecycle_ports" and gt :: "('s, 'e) gateways" and ceiling
proof
  show "finite (occupied w)" for w :: "'e launcher" by (rule finite_occupied)
  show "quiet_step (sound ceiling) occupied launched_ids lw_locked ceiling w (snd (port_poll (launcher_ports io gt) sc w))" for w sc
    by (rule quiet_if_wf [where T = "{}"]) (simp add: launcher_ports_def through_quiet)
  show "quiet_step (sound ceiling) occupied launched_ids lw_locked ceiling w (snd (port_repositories (launcher_ports io gt) o' w))" for w o'
    by (rule quiet_if_wf [where T = "{}"]) (simp add: launcher_ports_def through_quiet)
  show "quiet_step (sound ceiling) occupied launched_ids lw_locked ceiling w (snd (port_supervise (launcher_ports io gt) p w))" for w p
    by (rule quiet_if_wf) (auto simp: launcher_ports_def intro!: as_port_writes supervise_run)
  show "quiet_step (sound ceiling) occupied launched_ids lw_locked ceiling w (snd (port_clean (launcher_ports io gt) i w))" for w i
    by (rule quiet_if_wf [where T = "{i}"]) (simp add: launcher_ports_def clean_run [OF surjective_pairing])
  show "quiet_step (sound ceiling) occupied launched_ids lw_locked ceiling w (snd (port_attempts (launcher_ports io gt) w))" for w
    by (rule quiet_if_wf [where T = "{}"]) (simp add: launcher_ports_def attempts_run(1) [OF surjective_pairing])
  show "quiet_step (sound ceiling) occupied launched_ids lw_locked ceiling w (snd (port_host_capacity (launcher_ports io gt) h w))" for w h
    by (rule quiet_if_wf [where T = "{}"]) (simp add: launcher_ports_def host_capacity_run(1) [OF surjective_pairing])
  show "unat cap \<le> ceiling" if "sound ceiling w" "port_host_capacity (launcher_ports io gt) h w = (Inr cap, w')" for w h cap w'
    using host_capacity_run(2) [of io h w] that by (simp add: launcher_ports_def)
  show "occupied w' \<subseteq> counted as \<union> (launched_ids w' - listed as)" if "port_attempts (launcher_ports io gt) w = (Inr as, w')" for w as w'
    using attempts_run(2) [of io w] that by (auto simp: launcher_ports_def)
  show "sound ceiling w' \<and> lw_locked w' = b \<and> launched_ids w' = launched_ids w \<and> card (occupied w') \<le> max ceiling (card (occupied w))"
    if "sound ceiling w" "port_acquire (launcher_ports io gt) w = (b, w')" for w b w'
    using that by (cases "sys_try_lock (lp_system io) (lw_outside w)")
      (auto simp: launcher_ports_def acquire_allocation_def allocation_fields)
  show "sound ceiling (port_release (launcher_ports io gt) w) \<and> \<not> lw_locked (port_release (launcher_ports io gt) w)
      \<and> launched_ids (port_release (launcher_ports io gt) w) = launched_ids w
      \<and> card (occupied (port_release (launcher_ports io gt) w)) \<le> max ceiling (card (occupied w))"
    if "sound ceiling w" for w
    using that by (simp add: launcher_ports_def release_allocation_def allocation_fields)
  show "sound ceiling w' \<and> lw_locked w' \<and> launched_ids w' = insert (attempt_id a) (launched_ids w) \<and> counts_against_capacity a
      \<and> occupied w' \<subseteq> insert (attempt_id a) (occupied w)"
    if "sound ceiling w" "lw_locked w" "port_launch (launcher_ports io gt) h p w = (Inr a, w')" for w h p a w'
    using launch_port_run [of io p w "Inr a" w' ceiling] that by (auto simp: launcher_ports_def)
  show "sound ceiling w' \<and> lw_locked w' \<and> launched_ids w' = launched_ids w \<and> (\<exists>i. occupied w' \<subseteq> insert i (occupied w))"
    if "sound ceiling w" "lw_locked w" "port_launch (launcher_ports io gt) h p w = (Inl f, w')" for w h p f w'
    using launch_port_run [of io p w "Inl f" w' ceiling] that by (auto simp: launcher_ports_def)
qed

end
