(* ===== verification/Daemon.thy ===== *)
theory Daemon
  imports Occupancy
begin

text \<open>
  The production launcher as a whole: its retry loops end, startup recovery opens the gate for launches
  only when everything journalled is accounted for, a launch that answers has journalled its runner,
  supervision writes the attempts of its own policy only, and a pass of the reconciler over the
  launcher never fills more slots than the host has. The last rests on the interpretation of
  \<open>runner_launcher\<close> in theory \<open>Occupancy\<close>.
\<close>

section \<open>Retry loops\<close>

lemma last_try_answers:
  assumes "out_of_tries io issued"
  shows "materialize_once io p a issued w \<noteq> (Inr None, w')" "register_once io p i labels issued w \<noteq> (Inr None, w')"
    "start_once io p prepared config a issued w \<noteq> (Inr None, w')"
  using assms
  by (auto simp: materialize_once_def register_once_def start_once_def fail_launch_def act_bind_def act_return_def act_fail_def
      act_call_def split: prod.splits sum.splits option.splits if_splits environment_identity.splits)

lemma rounds_enough:
  assumes "\<And>issued w w'. out_of_tries io issued \<Longrightarrow> body issued w \<noteq> (Inr None, w')"
  shows "act_loop (retry_rounds io + k) body 0 = act_loop (retry_rounds io) body 0"
proof (rule act_loop_enough)
  show "body i w \<noteq> (Inr None, w')" if "max (max_attempts (lp_retry io)) 1 \<le> i" for i w w'
    using assms that by (simp add: out_of_tries_def)
  show "0 < max (max_attempts (lp_retry io)) 1" by (auto simp: word_gt_0 max_def)
qed (simp add: retry_rounds_def)

section \<open>Startup\<close>

definition known_to :: "scale_policy list \<Rightarrow> runner_attempt \<Rightarrow> bool" where
  "known_to known a \<longleftrightarrow> (\<exists>p \<in> set known. policy_id p = attempt_policy_id a)"

lemma ensures_adopt_environment:
  "held_in T S a \<Longrightarrow> (\<And>a'. held_in T S a' \<Longrightarrow> Q a') \<Longrightarrow> ensures (writes T S) (adopt_environment io resources a) Q"
  unfolding adopt_environment_def
  by (auto split: list.split environment_identity.split
      intro!: runs ensures_edge ensures_edge_now ensures_journalled)

lemma ensures_remember_replacement: "Q () \<Longrightarrow> ensures (writes T S) (remember_replacement p i operation) Q"
  by (auto simp: ensures_def remember_replacement_def writes_def occupied_def attempt_row_of_def launched_ids_def)

lemma ensures_recover_one:
  assumes "held_in T S a" "\<And>b. b \<or> known_to known a \<or> \<not> counts_against_capacity a \<Longrightarrow> Q b"
  shows "ensures (writes T S) (recover_one io known owned a) Q"
proof (cases "map_of (map (\<lambda>p. (policy_id p, p)) (rev known)) (attempt_policy_id a)")
  case None
  have "Q (counts_against_capacity a)" by (rule assms(2)) blast
  with None show ?thesis unfolding recover_one_def by (simp add: writes.ensures_return)
next
  case (Some p)
  then have "known_to known a" unfolding known_to_def by (force dest!: map_of_SomeD)
  then have "Q b" for b using assms(2) by blast
  then show ?thesis unfolding recover_one_def Some authorized_def Let_def option.case
    using assms(1)
    by (auto split: reconcile_progress.split
        intro!: runs ensures_adopt_environment ensures_reconcile_one ensures_remember_replacement)
qed

lemma ensures_recover_each:
  assumes "list_all (held_in T S) as" "\<And>b. b \<or> (\<forall>a \<in> set as. known_to known a \<or> \<not> counts_against_capacity a) \<Longrightarrow> Q b"
  shows "ensures (writes T S) (recover_each io known owned as) Q"
  using assms
proof (induction as arbitrary: Q)
  case (Cons a as)
  have held: "held_in T S a" "list_all (held_in T S) as" using Cons.prems(1) by simp_all
  show ?case unfolding recover_each.simps
  proof (rule writes.ensures_bind, rule ensures_recover_one [OF held(1)], rule writes.ensures_bind, rule Cons.IH [OF held(2)],
      rule writes.ensures_return, rule Cons.prems(2))
  qed auto
qed (simp add: writes.ensures_return)

lemma ensures_quarantine_unowned: "Q () \<Longrightarrow> ensures (writes T S) (quarantine_unowned io as e) Q"
  unfolding quarantine_unowned_def by (auto split: environment_identity.split intro!: runs)

lemma recover_startup_run:
  assumes "recover_startup io known w = (r, w')" "db_wf (lw_db w)"
  shows "lw_recovery_complete w' = is_ok r" "occupied w' \<subseteq> occupied w" "db_wf (lw_db w')"
    and "is_ok r \<Longrightarrow> \<exists>as. attempts (lw_db w) = Inr as \<and> list_all (\<lambda>a. known_to known a \<or> \<not> counts_against_capacity a) as"
    and "db_hosts (lw_db w') = db_hosts (lw_db w) \<and> lw_locked w' = lw_locked w"
proof -
  let ?w0 = "w\<lparr>lw_recovery_complete := False\<rparr>" and ?S = "occupied w"
  have same: "occupied (x\<lparr>lw_recovery_complete := b\<rparr>) = occupied x" for x :: "'a launcher" and b
    by (simp add: occupied_def attempt_row_of_def)
  obtain r1 w1 where q: "act_query io attempts ?w0 = (r1, w1)" by (cases "act_query io attempts ?w0")
  have one: "writes UNIV ?S ?w0 w1" using writes_mono [OF query_run(1) [OF q]] by simp
  have goal: "lw_recovery_complete w' = is_ok r \<and> occupied w' \<subseteq> ?S \<and> db_wf (lw_db w')
      \<and> (is_ok r \<longrightarrow> (\<exists>as. attempts (lw_db w) = Inr as \<and> list_all (\<lambda>a. known_to known a \<or> \<not> counts_against_capacity a) as))
      \<and> db_hosts (lw_db w') = db_hosts (lw_db w) \<and> lw_locked w' = lw_locked w"
  proof (cases r1)
    case (Inl e)
    then have "r = Inl e" "w' = w1" using assms(1) q by (simp_all add: recover_startup_def set_recovery_complete_def act_bind_def)
    then show ?thesis using one assms(2) same by (simp add: writes_def)
  next
    case (Inr as)
    have load: "attempts (lw_db w) = Inr as" using query_run(3) [OF q Inr] by simp
    have held: "list_all (held_in UNIV ?S) as"
      using loaded_held(2) [OF load [unfolded attempts_def] assms(2)] by (auto simp: list_all_iff held_in_def)
    let ?m = "act_bind (act_call (xp_enumerate_owned (lp_processes io) (lp_host_id io))) (\<lambda>owned.
      act_bind (act_each (quarantine_unowned io as) owned) (\<lambda>_. recover_each io known owned as))"
    have m: "ensures (writes UNIV ?S) ?m (\<lambda>b. b \<or> (\<forall>a \<in> set as. known_to known a \<or> \<not> counts_against_capacity a))"
      by (intro runs writes.ensures_each ensures_quarantine_unowned ensures_recover_each [OF held])
    obtain r2 w2 where run: "?m w1 = (r2, w2)" by (cases "?m w1")
    have two: "writes UNIV ?S ?w0 w2" using writes.F_trans [OF one ensuresD(1) [OF m run]] .
    have all: "recover_startup io known w = act_bind ?m (\<lambda>unresolved. if unresolved then act_fail RecoveryIncomplete
        else act_bind (set_recovery_complete True) (\<lambda>_. act_read (\<lambda>w. map snd (lw_pending w)))) w1"
      using q Inr by (simp add: recover_startup_def set_recovery_complete_def act_bind_def split: prod.split sum.split)
    have last: "(r2 = Inr False \<and> is_ok r \<and> w' = w2\<lparr>lw_recovery_complete := True\<rparr>) \<or> (\<not> is_ok r \<and> w' = w2)"
      using assms(1) run unfolding all
      by (auto simp: act_bind_def act_fail_def set_recovery_complete_def act_read_def split: sum.splits if_splits)
    then show ?thesis
      using two ensuresD(2) [OF m, of w1 False w2] run assms(2) load
      by (auto simp: writes_def same list_all_iff)
  qed
  then show "lw_recovery_complete w' = is_ok r" "occupied w' \<subseteq> occupied w" "db_wf (lw_db w')"
    and "is_ok r \<Longrightarrow> \<exists>as. attempts (lw_db w) = Inr as \<and> list_all (\<lambda>a. known_to known a \<or> \<not> counts_against_capacity a) as"
    and "db_hosts (lw_db w') = db_hosts (lw_db w) \<and> lw_locked w' = lw_locked w"
    by blast+
qed

section \<open>A launch that answers\<close>

text \<open>\<open>leaves m Q\<close>: whatever \<open>m\<close> answers, the launcher it leaves satisfies \<open>Q\<close> with it.\<close>

definition leaves :: "('e, 'a) act \<Rightarrow> ('a \<Rightarrow> 'e launcher \<Rightarrow> bool) \<Rightarrow> bool" where
  "leaves m Q \<longleftrightarrow> (\<forall>w x w'. m w = (Inr x, w') \<longrightarrow> Q x w')"

lemma leaves_bind: "(\<And>x. leaves (f x) Q) \<Longrightarrow> leaves (act_bind m f) Q"
  by (auto simp: leaves_def act_bind_def split: prod.splits sum.splits)

lemma leaves_fail: "leaves (act_fail e) Q"
  by (simp add: leaves_def act_fail_def)

definition in_journal :: "runner_attempt \<Rightarrow> 'e launcher \<Rightarrow> bool" where
  "in_journal a w \<longleftrightarrow> (\<exists>r. attempt_row_of w (attempt_id a) = Some r \<and> pa_policy_id r = attempt_policy_id a
     \<and> pa_state r = attempt_state a \<and> active_row r = counts_against_capacity a)"

lemma leaves_journalled: "leaves (journalled io a) (\<lambda>x w. x = a \<and> in_journal a w)"
  unfolding leaves_def
proof (intro allI impI)
  fix w x w'
  assume run: "journalled io a w = (Inr x, w')"
  obtain fails s where o': "lp_store_fails io (lw_outside w) = (fails, s)" by (metis surj_pair)
  obtain db where db: "record_attempt a (lw_db w) = Inr db" "lw_db w' = db" "x = a"
    using run o' by (auto simp: journalled_def journal_def store_attempt_def act_bind_def act_fail_def act_emit_def act_return_def
        Let_def split: if_splits sum.splits)
  then have "attempt_row_of w' (attempt_id a) = Some (row_of a (lw_db w))"
    using record_attempt_rows [OF db(1), of undefined "attempt_id a"] by (simp add: attempt_row_of_def)
  then show "x = a \<and> in_journal a w'" using db(3) by (simp add: in_journal_def)
qed

lemma leaves_started:
  assumes "op = OpStarted pid \<or> op = OpStartedIsolated"
  shows "leaves (act_bind (edge_now io op a) (journalled io)) (\<lambda>x w. attempt_state x = Starting \<and> in_journal x w)"
  unfolding leaves_def
proof (intro allI impI)
  fix w x w'
  assume run: "act_bind (edge_now io op a) (journalled io) w = (Inr x, w')"
  obtain t s where t: "lp_now io (lw_outside w) = (t, s)" by (metis surj_pair)
  obtain a' where a': "attempt_apply (op t) a = Inr a'" and j: "journalled io a' (w\<lparr>lw_outside := s\<rparr>) = (Inr x, w')"
    using run t by (auto simp: edge_now_def clock_now_def edge_def act_bind_def act_call_def act_lift_def split: sum.splits)
  have "attempt_state a' = Starting"
    using a' assms by (auto simp: attempt_op_defs move_to_Inr split: if_splits)
  then show "attempt_state x = Starting \<and> in_journal x w'"
    using leaves_journalled j unfolding leaves_def by blast
qed

lemma leaves_launch_steps: "leaves (launch_steps io p a labels) (\<lambda>x w. attempt_state x = Starting \<and> in_journal x w)"
  unfolding launch_steps_def start_native_def start_isolated_def fail_launch_def
  by (auto split: sum.split prod.split intro!: leaves_bind leaves_fail leaves_started [OF disjI1 [OF refl]] leaves_started [OF disjI2 [OF refl]])

lemma leaves_launch_attempt: "leaves (launch_attempt io p) (\<lambda>x w. attempt_state x = Starting \<and> in_journal x w)"
  unfolding leaves_def
proof (intro allI impI)
  fix w x w'
  assume run: "launch_attempt io p w = (Inr x, w')"
  obtain a labels w1 where al: "allocate_attempt io p w = (Inr (a, labels), w1)"
    using run by (auto simp: launch_attempt_def act_bind_def split: prod.splits sum.splits)
  obtain r2 w2 where st: "launch_steps io p a labels w1 = (r2, w2)" by (cases "launch_steps io p a labels w1")
  have "r2 = Inr x" "lw_db w' = lw_db w2"
    using run al st by (auto simp: launch_attempt_def act_bind_def act_try_def act_emit_def act_lift_def)
  then show "attempt_state x = Starting \<and> in_journal x w'"
    using leaves_launch_steps st unfolding leaves_def in_journal_def attempt_row_of_def by metis
qed

section \<open>The life of a host\<close>

text \<open>\<open>LifecycleLauncher::new\<close>: a fresh process over the stored database and whatever it finds outside; the lock a
  previous process may have held went with it.\<close>

definition launcher_new :: "database \<Rightarrow> 'e outside \<Rightarrow> 'e launcher" where
  "launcher_new db outside' =
     \<lparr>lw_db = db, lw_outside = outside', lw_recovery_complete = False, lw_versions = [], lw_pending = [], lw_retries = [],
      lw_locked = False, lw_events = [], lw_reconcile_events = []\<rparr>"

text \<open>What an operator writes to the store: hosts, roots and policies, and the removal of an attempt. The
  attempts themselves are the launcher's. \<open>ceiling\<close> bounds every capacity a host is given.\<close>

fun operator_edit :: "nat \<Rightarrow> store_op \<Rightarrow> bool" where
  "operator_edit ceiling (PutHost h) = (unat (host_capacity h) \<le> ceiling)"
| "operator_edit ceiling (RecordAttempt a) = False"
| "operator_edit ceiling _ = True"

text \<open>The steps of a host between passes: a startup recovery, a pass (its announcements are counted from its
  start), an edit by the operator, a restart.\<close>

inductive daemon_step :: "'e lifecycle_ports \<Rightarrow> ('s, 'e) gateways \<Rightarrow> nat \<Rightarrow> 'e launcher \<Rightarrow> 'e launcher \<Rightarrow> bool"
  for io gt ceiling where
  Startup: "recover_startup io known w = (r, w') \<Longrightarrow> daemon_step io gt ceiling w w'"
| Pass: "reconcile (launcher_ports io gt) ps rc (w\<lparr>lw_events := []\<rparr>) = Some (st, rc')
    \<Longrightarrow> daemon_step io gt ceiling w (pass_world st)"
| Edit: "store_apply platform op (lw_db w) = Inr db \<Longrightarrow> operator_edit ceiling op
    \<Longrightarrow> daemon_step io gt ceiling w (w\<lparr>lw_db := db\<rparr>)"
| Restart: "daemon_step io gt ceiling w (launcher_new (lw_db w) outside')"

definition at_rest :: "nat \<Rightarrow> 'e launcher \<Rightarrow> bool" where
  "at_rest ceiling w \<longleftrightarrow> sound ceiling w \<and> \<not> lw_locked w"

lemma edit_frame:
  assumes "store_apply platform op db = Inr db'" "operator_edit ceiling op"
  shows "db_attempts db' = db_attempts db \<or> (\<exists>i. db_attempts db' = filter (\<lambda>r. pa_id r \<noteq> i) (db_attempts db))"
    and "\<forall>r \<in> set (db_hosts db). unat (hr_host_capacity r) \<le> ceiling \<Longrightarrow> \<forall>r \<in> set (db_hosts db'). unat (hr_host_capacity r) \<le> ceiling"
proof -
  consider (put) h where "op = PutHost h" | (root) i e n c where "op = SetRunnerRootOverride i e n c"
    | (policy) "db_attempts db' = db_attempts db" "db_hosts db' = db_hosts db"
    | (remove) i where "op = RemoveAttempt i"
    using assms
    by (cases op) (auto simp: insert_policy_def remove_policy_def update_policy_def update_policy_confirming_count_def
        replace_policy_def elim!: write_policy_Inr split: option.splits if_splits)
  note cases = this
  show "db_attempts db' = db_attempts db \<or> (\<exists>i. db_attempts db' = filter (\<lambda>r. pa_id r \<noteq> i) (db_attempts db))"
    using assms(1) by (rule_tac cases) (auto simp: put_host_def set_runner_root_override_def remove_attempt_def Let_def
        split: option.splits if_splits)
  show "\<forall>r \<in> set (db_hosts db'). unat (hr_host_capacity r) \<le> ceiling" if "\<forall>r \<in> set (db_hosts db). unat (hr_host_capacity r) \<le> ceiling"
    using assms that by (rule_tac cases) (auto simp: put_host_def set_runner_root_override_def remove_attempt_def Let_def
        upsert_def host_to_row_def split: option.splits if_splits)
qed

lemma find_row_filter_any: "find_row key j (filter (\<lambda>r. key r \<noteq> i) rows) = (if j = i then None else find_row key j rows)"
  by (induction rows) (auto simp: find_row_def)

lemma edit_occupied:
  assumes "store_apply platform op (lw_db w) = Inr db" "operator_edit ceiling op"
  shows "occupied (w\<lparr>lw_db := db\<rparr>) \<subseteq> occupied w"
proof -
  have "attempt_row_of (w\<lparr>lw_db := db\<rparr>) j = Some r \<Longrightarrow> attempt_row_of w j = Some r" for j r
    using edit_frame(1) [OF assms] by (auto simp: attempt_row_of_def find_row_filter_any split: if_splits)
  then show ?thesis by (auto simp: occupied_def)
qed

lemma daemon_step_safe:
  assumes "daemon_step io gt ceiling w w'" "at_rest ceiling w"
  shows "at_rest ceiling w' \<and> card (occupied w') \<le> max ceiling (card (occupied w))"
  using assms(1)
proof cases
  case (Startup known r)
  have wf: "db_wf (lw_db w)" using assms(2) by (simp add: at_rest_def sound_def)
  have "card (occupied w') \<le> card (occupied w)"
    using recover_startup_run(2) [OF Startup wf] by (rule card_mono [OF finite_occupied])
  then show ?thesis
    using recover_startup_run(3,5) [OF Startup wf] assms(2) by (auto simp: at_rest_def sound_def)
next
  case (Pass ps rc st rc')
  let ?w = "w\<lparr>lw_events := []\<rparr>"
  have "sound ceiling ?w" "\<not> lw_locked ?w" "launched_ids ?w = {}" and same: "occupied ?w = occupied w"
    using assms(2) by (simp_all add: at_rest_def sound_def launched_ids_def occupied_def attempt_row_of_def)
  from lifecycle.reconcile_safe [OF Pass(2) this(1-3)] show ?thesis
    using Pass(1) by (auto simp: lifecycle.safe_def at_rest_def same)
next
  case (Edit platform op db)
  have "card (occupied w') \<le> card (occupied w)"
    using edit_occupied [OF Edit(2,3)] unfolding Edit(1) by (rule card_mono [OF finite_occupied])
  then show ?thesis
    using edit_frame(2) [OF Edit(2,3)] store_apply_wf [OF Edit(2)] assms(2) by (auto simp: Edit(1) at_rest_def sound_def)
next
  case (Restart outside')
  then show ?thesis using assms(2)
    by (auto simp: launcher_new_def at_rest_def sound_def occupied_def attempt_row_of_def)
qed

section \<open>A small host\<close>

text \<open>Saturation on words alone, for evaluation.\<close>

lemma saturating_add_code [code]: "saturating_add a b = (if a \<le> - 1 - b then a + b else - 1)" for a b :: "'a::len word"
proof -
  have "unat (- 1 - b) = 2 ^ LENGTH('a) - 1 - unat b"
    using word_order.extremum [of b] by (simp add: unat_sub unat_minus_1_max)
  moreover have "unat b < 2 ^ LENGTH('a)" by (rule unsigned_less)
  ultimately have "a \<le> - 1 - b \<longleftrightarrow> unat a + unat b < 2 ^ LENGTH('a)"
    unfolding word_le_nat_alt by linarith
  then show ?thesis by (simp add: saturating_add_def)
qed

text \<open>A launcher whose ports all answer: every package materializes, every registration and start
  succeeds, and the host's root is free.\<close>

definition sample_io :: "unit lifecycle_ports" where
  "sample_io =
     \<lparr>lp_host_id = 3, lp_app_paths = sample_app, lp_runner_group_id = 1,
      lp_timeouts = \<lparr>jit_handoff = 60, startup_timeout = 300, idle_timeout = 600\<rparr>,
      lp_retry = retry_bounded 3 1 8,
      lp_store_fails = (\<lambda>s. (False, s)),
      lp_github = \<lparr>gh_register = (\<lambda>t n g l s. (Inr \<lparr>jr_runner_id = 41, jr_config = lit ''jit''\<rparr>, s)),
        gh_observe = (\<lambda>t i s. (\<lparr>gho_status = Unreachable, gho_runner_id = None\<rparr>, s)), gh_deregister = (\<lambda>t i s. (True, s))\<rparr>,
      lp_packages = \<lparr>pk_materialize = (\<lambda>a s. (Inr (lit ''2.300''), s)), pk_release = (\<lambda>i s. (Inr (), s)),
        pk_prune = (\<lambda>v as s. (Inr (), s))\<rparr>,
      lp_processes = \<lparr>xp_probe = (\<lambda>p s. (ProviderReady, s)), xp_resolve = (\<lambda>p s. (Inr None, s)),
        xp_prepare = (\<lambda>a p s. (Inr \<lparr>prep_attempt = attempt_id a, prep_identity = None, prep_cache_target = None\<rparr>, s)),
        xp_start = (\<lambda>h a c s. (Inr (NativeProcess 77), s)),
        xp_inspect = (\<lambda>a s. (Inr EnvRunning, s)), xp_recover = (\<lambda>a s. (Inr EnvRunning, s)),
        xp_stop = (\<lambda>a s. (Inr ProviderStopped, s)), xp_destroy = (\<lambda>a s. (Inr ProviderDestroyed, s)),
        xp_owns = (\<lambda>a s. (Inr True, s)), xp_enumerate_owned = (\<lambda>h s. ([], s)),
        xp_recovered_pid = (\<lambda>a s. (Inr None, s)), xp_completed_successfully = (\<lambda>a s. (True, s)),
        xp_has_terminate_intent = (\<lambda>a s. (False, s)), xp_record_terminate_intent = (\<lambda>a s. (Inr (), s))\<rparr>,
      lp_now = (\<lambda>s. (200, s)), lp_persists = (\<lambda>i s. (True, s)), lp_wait = (\<lambda>d s. ((), s)),
      lp_system = \<lparr>sys_root_env = (\<lambda>s. sample_env), sys_default_root = (\<lambda>s. Inr (sample_root ''/s/b'')),
        sys_remover = remove_dir_all UnixPath, sys_new_uuid = (\<lambda>s. (9, s)), sys_new_generation = (\<lambda>s. (lit ''g'', s)),
        sys_read_runner_id = (\<lambda>p s. (None, s)), sys_store_runner_id = (\<lambda>p i s. (SidecarWritten, s)),
        sys_write_diagnostics = (\<lambda>i t s. (Inr (), s)), sys_create_dir_all = (\<lambda>p s. (Inr (), s)),
        sys_directory_responds = (\<lambda>p s. (True, s)), sys_record_root_refusal = (\<lambda>i t r e s. ((), s)),
        sys_clear_root_refusal = (\<lambda>i s. ((), s)), sys_try_lock = (\<lambda>s. (True, s)), sys_unlock = (\<lambda>s. ((), s))\<rparr>,
      lp_wording = \<lparr>say_uuid = (\<lambda>i. lit ''0009''), say_root = (\<lambda>e. []), say_slot = (\<lambda>e. []), say_store = (\<lambda>e. []),
        say_io = (\<lambda>e. []), say_quarantine = (\<lambda>q. [])\<rparr>\<rparr>"

definition sample_launcher :: "unit launcher" where
  "sample_launcher =
     \<lparr>lw_db = empty_database\<lparr>db_hosts := [host_to_row sample_host]\<rparr>,
      lw_outside = (\<lparr>fs_nodes = [], fs_refuses = (\<lambda>_ _. None)\<rparr>, ()), lw_recovery_complete = True, lw_versions = [], lw_pending = [],
      lw_retries = [], lw_locked = False, lw_events = [], lw_reconcile_events = []\<rparr>"

text \<open>The same launcher with one attempt of policy 7 in its journal, allocated and holding a slot.\<close>

definition sample_holder :: "unit launcher" where
  "sample_holder = sample_launcher\<lparr>lw_db := (lw_db sample_launcher)\<lparr>db_attempts := [attempt_to_persisted (sample_attempt 1)]\<rparr>\<rparr>"

lemma sample_sound: "db_wf (lw_db sample_launcher)" "db_wf (lw_db sample_holder)"
  by (simp_all add: sample_holder_def sample_launcher_def empty_database_def db_wf_def slot_taken_def)

lemma sample_launch_answers: "is_ok (fst (launch_attempt sample_io sample_policy sample_launcher))"
  by code_simp

lemma sample_recovery_refused: "fst (recover_startup sample_io [] sample_holder) = Inl RecoveryIncomplete"
  by code_simp

section \<open>Properties\<close>

text \<open>C2. The host is never oversubscribed. A pass of the reconciler over the production launcher answers, and
  afterwards at most as many attempts hold a slot as the largest host row allows (or as many as held one before
  the pass, if that was more), whatever GitHub, the package cache, the provider, the store and the clock answered
  and whatever failed in between. The store's constraints (one attempt per slot, unique identifiers) still hold,
  the allocation lock is released, and the runners announced as launched are exactly those the pass reports.\<close>

theorem pass_never_oversubscribes:
  assumes "\<forall>p \<in> set ps. policy_storable p" "db_wf (lw_db w)"
    and "\<forall>r \<in> set (db_hosts (lw_db w)). unat (hr_host_capacity r) \<le> ceiling" "\<not> lw_locked w" "launched_ids w = {}"
  shows "\<exists>st rc'. reconcile (launcher_ports io gt) ps rc w = Some (st, rc')
    \<and> card (occupied (pass_world st)) \<le> max ceiling (card (occupied w)) \<and> db_wf (lw_db (pass_world st))
    \<and> \<not> lw_locked (pass_world st) \<and> launched_ids (pass_world st) = listed (pass_launched st)"
proof -
  obtain st rc' where run: "reconcile (launcher_ports io gt) ps rc w = Some (st, rc')"
    using reconcile_total [OF assms(1), of "launcher_ports io gt" rc w] by blast
  have "sound ceiling w" using assms(2,3) by (simp add: sound_def)
  from lifecycle.reconcile_safe [OF run this assms(4,5)] run
  show ?thesis by (auto simp: lifecycle.safe_def sound_def)
qed

definition sample_gateways :: "(unit, unit) gateways" where
  "sample_gateways =
     \<lparr>gt_poll = (\<lambda>sc s. (PollReady empty_demand, s)), gt_repositories = (\<lambda>o' s. (Inr [], s)), gt_now = (\<lambda>s. 200),
      gt_jitter = (\<lambda>s. quarter_jitter), gt_render = (\<lambda>e. [])\<rparr>"

theorem pass_never_oversubscribes_witness:
  "\<exists>st rc'. reconcile (launcher_ports sample_io sample_gateways) [sample_policy] (reconciler_new sample_host) sample_holder = Some (st, rc')
     \<and> card (occupied (pass_world st)) \<le> max 3 (card (occupied sample_holder)) \<and> db_wf (lw_db (pass_world st))"
proof -
  have "launched_ids sample_holder = {}" "\<not> lw_locked sample_holder"
    "\<forall>r \<in> set (db_hosts (lw_db sample_holder)). unat (hr_host_capacity r) \<le> 3"
    by (simp_all add: launched_ids_def sample_holder_def sample_launcher_def empty_database_def host_to_row_def sample_host_def)
  then show ?thesis
    using pass_never_oversubscribes [of "[sample_policy]" sample_holder 3 sample_io sample_gateways "reconciler_new sample_host"]
      sample_sound(2) sample_policy_props(1) by auto
qed

text \<open>C1. Over its whole life a host is never oversubscribed. Whatever startups, passes, restarts and operator edits
  follow each other, whatever their ports answer, as long as no host is given a capacity above \<open>ceiling\<close> at most
  \<open>ceiling\<close> attempts hold a slot (or as many as did at the beginning, if that was more), the store's constraints
  hold and the allocation lock is free between steps.\<close>

theorem host_life_never_oversubscribes:
  assumes "(daemon_step io gt ceiling)\<^sup>*\<^sup>* w w'" "at_rest ceiling w"
  shows "at_rest ceiling w' \<and> card (occupied w') \<le> max ceiling (card (occupied w))"
  using assms(1)
proof (induction rule: rtranclp_induct)
  case base
  then show ?case using assms(2) by simp
next
  case (step x y)
  then show ?case using daemon_step_safe [OF step(2)] by (auto simp: le_max_iff_disj)
qed

theorem host_life_never_oversubscribes_witness:
  "\<exists>w'. (daemon_step sample_io sample_gateways 3)\<^sup>*\<^sup>* sample_holder w' \<and> \<not> lw_recovery_complete w' \<and> card (occupied w') \<le> max 3 (card (occupied sample_holder))"
proof -
  let ?w1 = "launcher_new (lw_db sample_holder) (lw_outside sample_holder)"
  have "(daemon_step sample_io sample_gateways 3)\<^sup>*\<^sup>* sample_holder ?w1" using Restart by (rule r_into_rtranclp)
  moreover have "at_rest 3 sample_holder"
    using sample_sound(2) by (simp add: at_rest_def sound_def sample_holder_def sample_launcher_def empty_database_def
        host_to_row_def sample_host_def)
  ultimately show ?thesis
    using host_life_never_oversubscribes [of sample_io sample_gateways 3 sample_holder ?w1] by (intro exI [of _ ?w1]) (simp add: launcher_new_def)
qed

text \<open>C5. Nothing is launched before startup recovery has accounted for the journal. Recovery opens the gate only
  when it succeeds, and then every journalled attempt that holds a slot belongs to a policy it was told of; when it
  fails every later launch is refused and changes nothing. Recovery itself never takes a slot.\<close>

theorem startup_recovery_gate:
  assumes "recover_startup io known w = (r, w')" "db_wf (lw_db w)"
  shows "(case r of
       Inl _ \<Rightarrow> \<forall>p. launch_attempt io p w' = (Inl RecoveryIncomplete, w')
     | Inr _ \<Rightarrow> lw_recovery_complete w'
         \<and> (\<exists>as. attempts (lw_db w) = Inr as \<and> list_all (\<lambda>a. known_to known a \<or> \<not> counts_against_capacity a) as))
    \<and> occupied w' \<subseteq> occupied w"
proof -
  note rec = recover_startup_run [OF assms]
  have "launch_attempt io p w' = (Inl RecoveryIncomplete, w')" if "\<not> lw_recovery_complete w'" for p
    using that by (simp add: launch_attempt_def allocate_attempt_def check_launchable_def act_bind_def act_read_def act_fail_def)
  then show ?thesis using rec by (cases r) simp_all
qed

theorem startup_recovery_gate_witness:
  "\<exists>w'. recover_startup sample_io [] sample_holder = (Inl RecoveryIncomplete, w')
     \<and> launch_attempt sample_io sample_policy w' = (Inl RecoveryIncomplete, w')"
proof -
  obtain w' where run: "recover_startup sample_io [] sample_holder = (Inl RecoveryIncomplete, w')"
    using sample_recovery_refused by (cases "recover_startup sample_io [] sample_holder") simp
  show ?thesis using startup_recovery_gate [OF run sample_sound(2)] run by simp
qed

text \<open>C14. Supervising one policy touches that policy's attempts only: the journal row of every other attempt is
  what it was, no attempt appears, no attempt without a slot comes to hold one, and the host and policy rows stay.\<close>

theorem supervision_leaves_other_policies:
  assumes "supervise io p w = (r, w')" "db_wf (lw_db w)"
    and "\<And>row. attempt_row_of w i = Some row \<Longrightarrow> pa_policy_id row \<noteq> policy_id p"
  shows "attempt_row_of w' i = attempt_row_of w i \<and> occupied w' \<subseteq> occupied w
    \<and> db_hosts (lw_db w') = db_hosts (lw_db w) \<and> db_policies (lw_db w') = db_policies (lw_db w)"
  using supervise_run [OF assms(1,2)] assms(3) unfolding writes_def by auto

theorem supervision_leaves_other_policies_witness:
  "attempt_row_of (snd (supervise sample_io (sample_policy\<lparr>policy_id := 8\<rparr>) sample_holder)) 1 = attempt_row_of sample_holder 1"
proof -
  have "pa_policy_id row \<noteq> policy_id (sample_policy\<lparr>policy_id := 8\<rparr>)" if "attempt_row_of sample_holder 1 = Some row" for row
    using that by (auto simp: sample_holder_def attempt_row_of_def find_row_def sample_attempt_def allocate_def allocate_in_def
        attempt_to_persisted_def split: if_splits)
  from supervision_leaves_other_policies [OF surjective_pairing sample_sound(2) this] show ?thesis by blast
qed

text \<open>C15. A launch that answers has journalled its runner. The attempt it answers is starting, its row is in the
  journal under its policy in that state and holds a slot, and no other row changed. A launch that fails announces no
  runner, and at most one attempt, the one it allocated, can be left holding a slot.\<close>

theorem launch_is_journalled:
  "\<exists>i. let (r, w') = launch_attempt io p w in
     attempt_row_of w' = (attempt_row_of w)(i := attempt_row_of w' i) \<and> occupied w' \<subseteq> insert i (occupied w)
     \<and> (case r of
          Inr a \<Rightarrow> attempt_id a = i \<and> attempt_state a = Starting \<and> in_journal a w' \<and> i \<in> occupied w'
            \<and> launched_ids w' = insert i (launched_ids w)
        | Inl _ \<Rightarrow> launched_ids w' = launched_ids w)"
proof -
  obtain r w' where run: "launch_attempt io p w = (r, w')" by (cases "launch_attempt io p w")
  have "leaves (launch_attempt io p) (\<lambda>x w. attempt_state x = Starting \<and> in_journal x w)"
    by (rule leaves_launch_attempt)
  then have "attempt_state a = Starting \<and> in_journal a w'" if "r = Inr a" for a
    using run that unfolding leaves_def by blast
  then show ?thesis using launch_attempt_run [OF run] run
    by (cases r) (fastforce simp: fun_eq_iff in_journal_def occupied_def)+
qed

theorem launch_is_journalled_witness:
  "\<exists>a w'. launch_attempt sample_io sample_policy sample_launcher = (Inr a, w') \<and> attempt_state a = Starting \<and> in_journal a w'
     \<and> attempt_id a \<in> occupied w'"
proof -
  obtain a w' where run: "launch_attempt sample_io sample_policy sample_launcher = (Inr a, w')"
    using sample_launch_answers by (cases "launch_attempt sample_io sample_policy sample_launcher"; cases "fst (launch_attempt sample_io sample_policy sample_launcher)") simp_all
  then show ?thesis using launch_is_journalled [of sample_io sample_policy sample_launcher] by auto
qed

text \<open>C16. The retry loops of a launch end by themselves: with any number of extra rounds allowed, materializing the
  package, requesting the JIT registration and starting the process answer exactly what they answer within the
  configured number of tries, so the bound on the rounds of the model is never what stops them.\<close>

theorem launch_retries_end:
  "materialize_with_retry io p a = act_loop (retry_rounds io + k) (materialize_once io p a) 0
   \<and> register_with_retry io p i labels = act_loop (retry_rounds io + k) (register_once io p i labels) 0
   \<and> start_native io p prepared config a =
       act_bind (act_loop (retry_rounds io + k) (start_once io p prepared config a) 0) (\<lambda>pid.
       act_bind (edge_now io (OpStarted pid) a) (journalled io))"
proof -
  have "act_loop (retry_rounds io + k) (materialize_once io p a) 0 = act_loop (retry_rounds io) (materialize_once io p a) 0"
    by (rule rounds_enough, rule last_try_answers(1))
  moreover have "act_loop (retry_rounds io + k) (register_once io p i labels) 0 = act_loop (retry_rounds io) (register_once io p i labels) 0"
    by (rule rounds_enough, rule last_try_answers(2))
  moreover have "act_loop (retry_rounds io + k) (start_once io p prepared config a) 0 = act_loop (retry_rounds io) (start_once io p prepared config a) 0"
    by (rule rounds_enough, rule last_try_answers(3))
  ultimately show ?thesis by (simp add: materialize_with_retry_def register_with_retry_def start_native_def)
qed

end
