(* ===== verification/Coordinator.thy ===== *)
theory Coordinator
  imports Routing
begin

text \<open>
  The optional coordinator, \<open>crates/coordinator\<close> with the wire types of \<open>crates/coordinator-protocol\<close>:
  GitHub's webhook wakes the connected hosts that serve a queued job. \<open>webhook.rs\<close> (signature, delivery
  log, label rule), \<open>registry.rs\<close> (who is connected), \<open>store.rs\<close> (invites and enrolled hosts) and the
  handlers of \<open>server.rs\<close>. The record \<open>crypto\<close> holds what comes from other crates: the MAC, hex, base64,
  Ed25519, SHA-256 and the JSON decoder. Random codes, identifiers and the clocks are arguments. A
  channel is the list of what waits in it, under the token of its connection; a dropped receiver is a
  missing entry. Hash maps are ordered maps, since no result depends on their order. Intervals are whole
  seconds. Errors of SQLite other than a violated key, log lines, the sockets and the body limits of the
  HTTP library are not modelled.
\<close>

section \<open>Wire types\<close>

type_synonym bytes = "u8 list"
type_synonym instant = nat

datatype wire_scope = RepoScope | OrgScope

record target_ref =
  tr_scope :: wire_scope
  tr_name :: ustr

definition covers :: "target_ref \<Rightarrow> ustr \<Rightarrow> bool" where
  "covers t repository =
     (case tr_scope t of
        RepoScope \<Rightarrow> eq_ignore_ascii_case (tr_name t) repository
      | OrgScope \<Rightarrow>
          (case split_once (ch CHR ''/'') repository of
             Some (owner, _) \<Rightarrow> eq_ignore_ascii_case owner (tr_name t)
           | None \<Rightarrow> False))"

record profile =
  cp_name :: ustr
  cp_labels :: "ustr list"
  cp_enabled :: bool

record advertised_target =
  at_scope :: wire_scope
  at_name :: ustr
  at_profiles :: "profile list"

definition reference :: "advertised_target \<Rightarrow> target_ref" where
  "reference t = \<lparr>tr_scope = at_scope t, tr_name = at_name t\<rparr>"

record hello =
  he_protocol_version :: u32
  he_host_id :: ustr
  he_os :: ustr
  he_arch :: ustr
  he_cores :: u32
  he_ram_bytes :: "u64 option"
  he_disk_free_bytes :: "u64 option"
  he_targets :: "advertised_target list"

record heartbeat =
  hb_free_slots :: u32
  hb_busy_slots :: u32
  hb_cpu_load_percent :: "u32 option"
  hb_free_ram_bytes :: "u64 option"
  hb_unfit :: bool
  hb_draining :: bool

datatype wake_reason = JobQueued | OtherReasonToWake

record wake =
  wk_target :: target_ref
  wk_repository :: ustr
  wk_reason :: wake_reason
  wk_delivery_id :: ustr

datatype host_message = AuthMessage u32 ustr ustr | HelloMessage hello | HeartbeatMessage heartbeat | UnknownHostMessage

datatype server_message = ChallengeMessage u32 ustr | WelcomeMessage u32 u32 | WakeMessage wake | UnknownServerMessage

record enroll_request =
  er_protocol_version :: u32
  er_code :: ustr
  er_hostname :: ustr
  er_public_key :: ustr

record workflow_job_event =
  wj_action :: ustr
  wj_job_id :: u64
  wj_run_id :: u64
  wj_labels :: "ustr list"
  wj_repository :: ustr

definition PROTOCOL_VERSION :: u32 where "PROTOCOL_VERSION = 1"
definition AUTH_CONTEXT :: bytes where
  "AUTH_CONTEXT = map of_nat (lit ''runner-manager-coordinator/v1/host-auth'')"
definition MAX_MESSAGE_BYTES :: nat where "MAX_MESSAGE_BYTES = 64 * 1024"
definition CLOSE_UNAUTHORIZED :: u16 where "CLOSE_UNAUTHORIZED = 4401"
definition CLOSE_UNSUPPORTED_VERSION :: u16 where "CLOSE_UNSUPPORTED_VERSION = 4400"
definition CLOSE_REPLACED :: u16 where "CLOSE_REPLACED = 4409"

text \<open>What other crates provide.\<close>

record 'k crypto =
  cr_mac :: "bytes \<Rightarrow> (bytes \<Rightarrow> bytes \<Rightarrow> bool) option"
  cr_hex_decode :: "ustr \<Rightarrow> bytes option"
  cr_base64_decode :: "ustr \<Rightarrow> bytes option"
  cr_key_from_bytes :: "bytes \<Rightarrow> 'k option"
  cr_key_is_weak :: "'k \<Rightarrow> bool"
  cr_signature_from_slice :: "bytes \<Rightarrow> bytes option"
  cr_verify_strict :: "'k \<Rightarrow> bytes \<Rightarrow> bytes \<Rightarrow> bool"
  cr_sha256_hex :: "bytes \<Rightarrow> ustr"
  cr_json_host_message :: "ustr \<Rightarrow> host_message option"
  cr_json_job_event :: "bytes \<Rightarrow> workflow_job_event option"
  cr_json_enroll_request :: "bytes \<Rightarrow> enroll_request option"

text \<open>\<open>str::as_bytes\<close>: the UTF-8 encoding.\<close>

definition utf8_bytes :: "uchar \<Rightarrow> bytes" where
  "utf8_bytes c =
     (if c < 128 then [of_nat c]
      else if c < 2048 then [of_nat (192 + c div 64), of_nat (128 + c mod 64)]
      else if c < 65536 then [of_nat (224 + c div 4096), of_nat (128 + c div 64 mod 64), of_nat (128 + c mod 64)]
      else [of_nat (240 + c div 262144), of_nat (128 + c div 4096 mod 64), of_nat (128 + c div 64 mod 64), of_nat (128 + c mod 64)])"

definition as_bytes :: "ustr \<Rightarrow> bytes" where
  "as_bytes s = concat (map utf8_bytes s)"

definition host_message_decode :: "'k crypto \<Rightarrow> ustr \<Rightarrow> host_message option" where
  "host_message_decode cr s = (if byte_len s > MAX_MESSAGE_BYTES then None else cr_json_host_message cr s)"

definition auth_message :: "bytes \<Rightarrow> ustr \<Rightarrow> bytes" where
  "auth_message nonce origin = nonce @ AUTH_CONTEXT @ as_bytes origin"

definition verify_challenge :: "'k crypto \<Rightarrow> 'k \<Rightarrow> bytes \<Rightarrow> ustr \<Rightarrow> ustr \<Rightarrow> bool" where
  "verify_challenge cr key nonce origin signature =
     (case cr_base64_decode cr signature of
        None \<Rightarrow> False
      | Some bs \<Rightarrow>
          (case cr_signature_from_slice cr bs of
             None \<Rightarrow> False
           | Some sig \<Rightarrow> cr_verify_strict cr key (auth_message nonce origin) sig))"

definition decode_public_key :: "'k crypto \<Rightarrow> ustr \<Rightarrow> 'k option" where
  "decode_public_key cr s =
     (case cr_base64_decode cr s of
        None \<Rightarrow> None
      | Some bs \<Rightarrow>
          if length bs \<noteq> 32 then None
          else (case cr_key_from_bytes cr bs of
                  None \<Rightarrow> None
                | Some key \<Rightarrow> if cr_key_is_weak cr key then None else Some key))"

section \<open>GitHub's side\<close>

definition DELIVERY_MEMORY :: nat where "DELIVERY_MEMORY = 10000"

definition signature_valid :: "'k crypto \<Rightarrow> bytes \<Rightarrow> bytes \<Rightarrow> ustr option \<Rightarrow> bool" where
  "signature_valid cr secret body header =
     (case Option.bind (Option.bind header (\<lambda>v. strip_prefix (trim v) (lit ''sha256=''))) (cr_hex_decode cr) of
        None \<Rightarrow> False
      | Some expected \<Rightarrow>
          (case cr_mac cr secret of None \<Rightarrow> False | Some verify \<Rightarrow> verify body expected))"

definition valid_delivery_id :: "ustr \<Rightarrow> bool" where
  "valid_delivery_id i \<longleftrightarrow> 1 \<le> byte_len i \<and> byte_len i \<le> 64 \<and> list_all (\<lambda>c. is_ascii_alphanumeric c \<or> c = ch CHR ''-'') i"

record delivery_log =
  dl_seen :: "ustr set"
  dl_order :: "ustr list"
  dl_capacity :: nat

definition delivery_log_new :: "nat \<Rightarrow> delivery_log" where
  "delivery_log_new capacity = \<lparr>dl_seen = {}, dl_order = [], dl_capacity = max capacity 1\<rparr>"

definition first_time :: "ustr \<Rightarrow> delivery_log \<Rightarrow> bool \<times> delivery_log" where
  "first_time i log =
     (if i \<in> dl_seen log then (False, log)
      else
        let log = (case dl_order log of
                     oldest # rest \<Rightarrow>
                       if length (dl_order log) = dl_capacity log
                       then log\<lparr>dl_order := rest, dl_seen := dl_seen log - {oldest}\<rparr> else log
                   | [] \<Rightarrow> log)
        in (True, log\<lparr>dl_seen := insert i (dl_seen log), dl_order := dl_order log @ [i]\<rparr>))"

definition action_name :: "ustr \<Rightarrow> ustr" where
  "action_name action =
     (if action \<in> set [lit ''queued'', lit ''waiting'', lit ''in_progress'', lit ''completed''] then action else lit ''other'')"

definition labels_cover :: "ustr list \<Rightarrow> ustr list \<Rightarrow> bool" where
  "labels_cover profile job =
     (case required_labels (from_job_labels job) of
        Inl _ \<Rightarrow> False
      | Inr required \<Rightarrow>
          let offered = List.map_filter (\<lambda>l. result_ok (label_new l)) profile
          in list_all (\<lambda>l. l \<in> set offered) required)"

section \<open>The registry\<close>

definition OUTBOUND_QUEUE :: nat where "OUTBOUND_QUEUE = 64"

datatype outbound = SendOut server_message | CloseOut u16 ustr

record connected =
  co_connection :: u64
  co_hello :: "hello option"
  co_heartbeat :: "heartbeat option"

record registry =
  rg_hosts :: "(ustr, connected) btree_map"
  rg_next :: u64
  rg_queues :: "(u64, outbound list) btree_map"

record connected_host =
  ch_host_id :: ustr
  ch_hello :: "hello option"
  ch_heartbeat :: "heartbeat option"

definition registry_default :: registry where
  "registry_default = \<lparr>rg_hosts = [], rg_next = 0, rg_queues = []\<rparr>"

text \<open>\<open>Sender::try_send\<close>: refused when the receiver is gone or the channel is full.\<close>

definition try_send :: "u64 \<Rightarrow> outbound \<Rightarrow> registry \<Rightarrow> bool \<times> registry" where
  "try_send c m reg =
     (case btm_get (rg_queues reg) c of
        None \<Rightarrow> (False, reg)
      | Some q \<Rightarrow>
          if length q < OUTBOUND_QUEUE then (True, reg\<lparr>rg_queues := btm_insert c (q @ [m]) (rg_queues reg)\<rparr>)
          else (False, reg))"

text \<open>The channel of a connection is created for it, and taken out of the registry's reach when its task ends.\<close>

definition register :: "ustr \<Rightarrow> registry \<Rightarrow> u64 \<times> registry" where
  "register host reg =
     (let connection = rg_next reg; previous = btm_get (rg_hosts reg) host;
          reg = reg\<lparr>rg_next := connection + 1, rg_queues := btm_insert connection [] (rg_queues reg),
                  rg_hosts := btm_insert host \<lparr>co_connection = connection, co_hello = None, co_heartbeat = None\<rparr> (rg_hosts reg)\<rparr>
      in (connection,
          case previous of
            None \<Rightarrow> reg
          | Some old \<Rightarrow> snd (try_send (co_connection old) (CloseOut CLOSE_REPLACED (lit ''replaced'')) reg)))"

definition unregister :: "ustr \<Rightarrow> u64 \<Rightarrow> registry \<Rightarrow> registry" where
  "unregister host connection reg =
     (case btm_get (rg_hosts reg) host of
        Some current \<Rightarrow>
          if co_connection current = connection then reg\<lparr>rg_hosts := btm_remove host (rg_hosts reg)\<rparr> else reg
      | None \<Rightarrow> reg)"

definition update_connected :: "ustr \<Rightarrow> u64 \<Rightarrow> (connected \<Rightarrow> connected) \<Rightarrow> registry \<Rightarrow> registry" where
  "update_connected host connection f reg =
     (case btm_get (rg_hosts reg) host of
        Some current \<Rightarrow>
          if co_connection current = connection then reg\<lparr>rg_hosts := btm_insert host (f current) (rg_hosts reg)\<rparr> else reg
      | None \<Rightarrow> reg)"

definition set_hello :: "ustr \<Rightarrow> u64 \<Rightarrow> hello \<Rightarrow> registry \<Rightarrow> registry" where
  "set_hello host connection h = update_connected host connection (\<lambda>c. c\<lparr>co_hello := Some h\<rparr>)"

definition set_heartbeat :: "ustr \<Rightarrow> u64 \<Rightarrow> heartbeat \<Rightarrow> registry \<Rightarrow> registry" where
  "set_heartbeat host connection h = update_connected host connection (\<lambda>c. c\<lparr>co_heartbeat := Some h\<rparr>)"

definition connected_hosts :: "registry \<Rightarrow> connected_host list" where
  "connected_hosts reg =
     map (\<lambda>(i, c). \<lparr>ch_host_id = i, ch_hello = co_hello c, ch_heartbeat = co_heartbeat c\<rparr>) (rg_hosts reg)"

definition matching_target :: "hello \<Rightarrow> ustr \<Rightarrow> ustr list \<Rightarrow> target_ref option" where
  "matching_target h repository labels =
     map_option reference
       (find (\<lambda>t. covers (reference t) repository
                \<and> list_ex (\<lambda>p. cp_enabled p \<and> labels_cover (cp_labels p) labels) (at_profiles t)) (he_targets h))"

definition wake_host :: "ustr \<Rightarrow> ustr list \<Rightarrow> ustr \<Rightarrow> connected \<Rightarrow> nat \<times> registry \<Rightarrow> nat \<times> registry" where
  "wake_host repository labels delivery c acc =
     (case acc of (woken, reg) \<Rightarrow>
        (case Option.bind (co_hello c) (\<lambda>h. matching_target h repository labels) of
           None \<Rightarrow> (woken, reg)
         | Some target \<Rightarrow>
             (case try_send (co_connection c) (SendOut (WakeMessage
                 \<lparr>wk_target = target, wk_repository = repository, wk_reason = JobQueued, wk_delivery_id = delivery\<rparr>)) reg of
                (sent, reg) \<Rightarrow> (if sent then woken + 1 else woken, reg))))"

definition wake_for_job :: "ustr \<Rightarrow> ustr list \<Rightarrow> ustr \<Rightarrow> registry \<Rightarrow> nat \<times> registry" where
  "wake_for_job repository labels delivery reg =
     fold (wake_host repository labels delivery) (map snd (rg_hosts reg)) (0, reg)"

section \<open>Invites and enrolled hosts\<close>

definition INVITE_PREFIX :: ustr where "INVITE_PREFIX = lit ''rmc_''"
definition MIN_INVITE_TTL :: nat where "MIN_INVITE_TTL = 60"
definition MAX_INVITE_TTL :: nat where "MAX_INVITE_TTL = 7 * 24 * 60 * 60"

datatype coordinator_store_error =
    ConstraintViolated
  | NoSuchHost ustr
  | AmbiguousHost ustr
  | NameInUse ustr
  | InvalidName
  | InvalidTtl

datatype enroll_error = InvalidCode | EnrollStore coordinator_store_error

record host_record =
  hre_id :: ustr
  hre_name :: ustr
  hre_hostname :: ustr
  hre_public_key :: ustr
  hre_enrolled_at :: timestamp
  hre_revoked_at :: "timestamp option"
  hre_last_seen_at :: "timestamp option"

record invite_row =
  inv_code_hash :: ustr
  inv_name :: ustr
  inv_created_at :: timestamp
  inv_expires_at :: timestamp
  inv_used_at :: "timestamp option"

record invite =
  iv_code :: ustr
  iv_name :: ustr
  iv_expires_at :: timestamp

record coordinator_db =
  cd_hosts :: "host_record list"
  cd_invites :: "invite_row list"

definition hre_is_active :: "host_record \<Rightarrow> bool" where
  "hre_is_active r \<longleftrightarrow> hre_revoked_at r = None"

definition host_name_char :: "uchar \<Rightarrow> bool" where
  "host_name_char c \<longleftrightarrow> is_ascii_alphanumeric c \<or> c \<in> set (lit ''._-'')"

definition validate_name :: "ustr \<Rightarrow> bool" where
  "validate_name name \<longleftrightarrow> 1 \<le> byte_len name \<and> byte_len name \<le> 64 \<and> list_all host_name_char name"

definition sanitize_hostname :: "ustr \<Rightarrow> ustr" where
  "sanitize_hostname raw =
     (let cleaned = take 64 (filter host_name_char raw) in if cleaned = [] then lit ''unknown'' else cleaned)"

definition code_hash :: "'k crypto \<Rightarrow> ustr \<Rightarrow> ustr" where
  "code_hash cr code = cr_sha256_hex cr (as_bytes code)"

definition name_taken :: "coordinator_db \<Rightarrow> ustr \<Rightarrow> bool" where
  "name_taken db name = list_ex (\<lambda>r. hre_name r = name \<and> hre_is_active r) (cd_hosts db)"

text \<open>Lifetimes in whole seconds; \<open>random\<close> is the hex of sixteen random bytes.\<close>

definition create_invite ::
  "'k crypto \<Rightarrow> ustr \<Rightarrow> ustr \<Rightarrow> nat \<Rightarrow> timestamp \<Rightarrow> coordinator_db \<Rightarrow> (coordinator_store_error + invite) \<times> coordinator_db" where
  "create_invite cr random name ttl now db =
     (if \<not> validate_name name then (Inl InvalidName, db)
      else if \<not> (MIN_INVITE_TTL \<le> ttl \<and> ttl \<le> MAX_INVITE_TTL) then (Inl InvalidTtl, db)
      else if name_taken db name then (Inl (NameInUse name), db)
      else
        let code = INVITE_PREFIX @ random; expires = now + int ttl; hash = code_hash cr code
        in if hash \<in> inv_code_hash ` set (cd_invites db) then (Inl ConstraintViolated, db)
           else (Inr \<lparr>iv_code = code, iv_name = name, iv_expires_at = expires\<rparr>,
                 db\<lparr>cd_invites := cd_invites db @
                   [\<lparr>inv_code_hash = hash, inv_name = name, inv_created_at = now, inv_expires_at = expires, inv_used_at = None\<rparr>]\<rparr>))"

text \<open>\<open>uuid\<close> is the identifier drawn for the new host; a refused transaction leaves the database.\<close>

definition enroll ::
  "'k crypto \<Rightarrow> ustr \<Rightarrow> ustr \<Rightarrow> ustr \<Rightarrow> ustr \<Rightarrow> timestamp \<Rightarrow> coordinator_db \<Rightarrow> (enroll_error + host_record) \<times> coordinator_db" where
  "enroll cr uuid code hostname public_key now db =
     (let hash = code_hash cr (trim code) in
      case find (\<lambda>r. inv_code_hash r = hash \<and> inv_used_at r = None) (cd_invites db) of
        None \<Rightarrow> (Inl InvalidCode, db)
      | Some r \<Rightarrow>
          if \<not> inv_expires_at r > now then (Inl InvalidCode, db)
          else if name_taken db (inv_name r) then (Inl (EnrollStore (NameInUse (inv_name r))), db)
          else if uuid \<in> hre_id ` set (cd_hosts db) then (Inl (EnrollStore ConstraintViolated), db)
          else
            let record = \<lparr>hre_id = uuid, hre_name = inv_name r, hre_hostname = sanitize_hostname hostname,
                  hre_public_key = public_key, hre_enrolled_at = now, hre_revoked_at = None, hre_last_seen_at = None\<rparr>
            in (Inr record,
                \<lparr>cd_hosts = cd_hosts db @ [record],
                 cd_invites = map (\<lambda>i. if inv_code_hash i = hash then i\<lparr>inv_used_at := Some now\<rparr> else i) (cd_invites db)\<rparr>))"

definition active_host :: "coordinator_db \<Rightarrow> ustr \<Rightarrow> host_record option" where
  "active_host db i = find (\<lambda>r. hre_id r = i \<and> hre_is_active r) (cd_hosts db)"

definition coordinator_hosts :: "coordinator_db \<Rightarrow> host_record list" where
  "coordinator_hosts db = sort_key (\<lambda>r. (hre_enrolled_at r, hre_id r)) (cd_hosts db)"

definition revoke :: "ustr \<Rightarrow> timestamp \<Rightarrow> coordinator_db \<Rightarrow> (coordinator_store_error + host_record) \<times> coordinator_db" where
  "revoke host now db =
     (case filter (\<lambda>r. hre_is_active r \<and> (hre_id r = host \<or> hre_name r = host)) (coordinator_hosts db) of
        [] \<Rightarrow> (Inl (NoSuchHost host), db)
      | [one] \<Rightarrow>
          (Inr (one\<lparr>hre_revoked_at := Some now\<rparr>),
           db\<lparr>cd_hosts := map (\<lambda>r. if hre_id r = hre_id one then r\<lparr>hre_revoked_at := Some now\<rparr> else r) (cd_hosts db)\<rparr>)
      | _ \<Rightarrow> (Inl (AmbiguousHost host), db))"

definition touch :: "ustr \<Rightarrow> timestamp \<Rightarrow> coordinator_db \<Rightarrow> coordinator_db" where
  "touch i now db =
     db\<lparr>cd_hosts := map (\<lambda>r. if hre_id r = i then r\<lparr>hre_last_seen_at := Some now\<rparr> else r) (cd_hosts db)\<rparr>"

section \<open>Rate limiting\<close>

definition RATE_LIMIT_SWEEP_AT :: nat where "RATE_LIMIT_SWEEP_AT = 4096"
definition LIMIT_WINDOW :: nat where "LIMIT_WINDOW = 60"

text \<open>An address is a number; an instant counts seconds of a monotonic clock, and \<open>duration_since\<close>
  saturates at zero.\<close>

record rate_limiter =
  lim_per_minute :: u32
  lim_windows :: "(nat, instant \<times> u32) btree_map"

definition limiter_new :: "u32 \<Rightarrow> rate_limiter" where
  "limiter_new per_minute = \<lparr>lim_per_minute = per_minute, lim_windows = []\<rparr>"

definition limiter_allow :: "nat \<Rightarrow> instant \<Rightarrow> rate_limiter \<Rightarrow> bool \<times> rate_limiter" where
  "limiter_allow address now lim =
     (let windows = (if length (lim_windows lim) \<ge> RATE_LIMIT_SWEEP_AT
                     then filter (\<lambda>(_, start, _). now - start < LIMIT_WINDOW) (lim_windows lim) else lim_windows lim);
          entry = (case btm_get windows address of Some e \<Rightarrow> e | None \<Rightarrow> (now, 0));
          entry = (if now - fst entry \<ge> LIMIT_WINDOW then (now, 0) else entry);
          count = saturating_add (snd entry) 1
      in (count \<le> lim_per_minute lim, lim\<lparr>lim_windows := btm_insert address (fst entry, count) windows\<rparr>))"

section \<open>The handlers\<close>

definition TOUCH_EVERY :: nat where "TOUCH_EVERY = 60"

record server_config =
  sc_public_origin :: ustr
  sc_webhook_secret :: bytes
  sc_trust_forwarded_for :: bool
  sc_heartbeat_interval :: nat

record app_state =
  as_config :: server_config
  as_store :: coordinator_db
  as_registry :: registry
  as_deliveries :: delivery_log
  as_limiter :: rate_limiter

definition app_state_new :: "server_config \<Rightarrow> u32 \<Rightarrow> coordinator_db \<Rightarrow> app_state" where
  "app_state_new config per_minute db =
     \<lparr>as_config = config, as_store = db, as_registry = registry_default,
      as_deliveries = delivery_log_new DELIVERY_MEMORY, as_limiter = limiter_new per_minute\<rparr>"

text \<open>\<open>parse_ip\<close> reads an address; the forwarded values are those of the header, in order.\<close>

definition client_address :: "(ustr \<Rightarrow> nat option) \<Rightarrow> app_state \<Rightarrow> nat \<Rightarrow> ustr list \<Rightarrow> nat" where
  "client_address parse_ip st peer forwarded =
     (let entries = List.map_filter (\<lambda>e. parse_ip (trim e)) (concat (map (split_on (\<lambda>c. c = ch CHR '','')) forwarded))
      in if sc_trust_forwarded_for (as_config st) \<and> entries \<noteq> [] then last entries else peer)"

record webhook_request =
  wr_signature :: "ustr option"
  wr_event :: "ustr option"
  wr_delivery :: "ustr option"
  wr_body :: bytes

definition webhook :: "'k crypto \<Rightarrow> webhook_request \<Rightarrow> app_state \<Rightarrow> u16 \<times> app_state" where
  "webhook cr rq st =
     (if \<not> signature_valid cr (sc_webhook_secret (as_config st)) (wr_body rq) (wr_signature rq) then (401, st)
      else case (wr_event rq, wr_delivery rq) of
          (Some event, Some delivery) \<Rightarrow>
            if \<not> valid_delivery_id delivery then (400, st)
            else (case first_time delivery (as_deliveries st) of (fresh, log) \<Rightarrow>
              let st = st\<lparr>as_deliveries := log\<rparr> in
              if \<not> fresh then (200, st)
              else if event = lit ''ping'' then (200, st)
              else if event = lit ''workflow_job'' then
                (case cr_json_job_event cr (wr_body rq) of
                   None \<Rightarrow> (400, st)
                 | Some job \<Rightarrow>
                     if action_name (wj_action job) = lit ''queued''
                     then (200, st\<lparr>as_registry := snd (wake_for_job (wj_repository job) (wj_labels job) delivery (as_registry st))\<rparr>)
                     else (200, st))
              else (202, st))
        | _ \<Rightarrow> (400, st))"

definition enroll_handler ::
  "'k crypto \<Rightarrow> nat \<Rightarrow> instant \<Rightarrow> timestamp \<Rightarrow> ustr \<Rightarrow> bytes \<Rightarrow> app_state \<Rightarrow> (u16 + host_record) \<times> app_state" where
  "enroll_handler cr address clock now uuid body st =
     (case limiter_allow address clock (as_limiter st) of (allowed, lim) \<Rightarrow>
      let st = st\<lparr>as_limiter := lim\<rparr> in
      if \<not> allowed then (Inl 429, st)
      else case cr_json_enroll_request cr body of
          None \<Rightarrow> (Inl 400, st)
        | Some rq \<Rightarrow>
            if er_protocol_version rq \<noteq> PROTOCOL_VERSION then (Inl 426, st)
            else if decode_public_key cr (er_public_key rq) = None then (Inl 400, st)
            else (case enroll cr uuid (er_code rq) (er_hostname rq) (er_public_key rq) now (as_store st) of
                    (Inr h, db) \<Rightarrow> (Inr h, st\<lparr>as_store := db\<rparr>)
                  | (Inl InvalidCode, db) \<Rightarrow> (Inl 401, st\<lparr>as_store := db\<rparr>)
                  | (Inl (EnrollStore _), db) \<Rightarrow> (Inl 409, st\<lparr>as_store := db\<rparr>)))"

text \<open>What a new connection's answer to the challenge \<open>nonce\<close> proves: the enrolled host it is, or the
  code to close with. \<open>None\<close> is an answer that did not come in time.\<close>

definition authenticate :: "'k crypto \<Rightarrow> bytes \<Rightarrow> ustr option \<Rightarrow> app_state \<Rightarrow> u16 + host_record" where
  "authenticate cr nonce answer st =
     (case Option.bind answer (host_message_decode cr) of
        Some (AuthMessage version host signature) \<Rightarrow>
          if version \<noteq> PROTOCOL_VERSION then Inl CLOSE_UNSUPPORTED_VERSION
          else (case active_host (as_store st) host of
                  None \<Rightarrow> Inl CLOSE_UNAUTHORIZED
                | Some record \<Rightarrow>
                    (case decode_public_key cr (hre_public_key record) of
                       None \<Rightarrow> Inl CLOSE_UNAUTHORIZED
                     | Some key \<Rightarrow>
                         if verify_challenge cr key nonce (sc_public_origin (as_config st)) signature then Inr record
                         else Inl CLOSE_UNAUTHORIZED))
      | _ \<Rightarrow> Inl CLOSE_UNAUTHORIZED)"

text \<open>The accepted connection: its token, and the server with it registered. \<open>welcomed\<close> says whether the welcome
  could be sent.\<close>

definition connection_open ::
  "'k crypto \<Rightarrow> bytes \<Rightarrow> ustr option \<Rightarrow> bool \<Rightarrow> timestamp \<Rightarrow> app_state \<Rightarrow> (ustr \<times> u64) option \<times> app_state" where
  "connection_open cr nonce answer welcomed now st =
     (case authenticate cr nonce answer st of
        Inl _ \<Rightarrow> (None, st)
      | Inr record \<Rightarrow>
          if \<not> welcomed then (None, st)
          else (case register (hre_id record) (as_registry st) of (connection, reg) \<Rightarrow>
            (Some (hre_id record, connection),
             st\<lparr>as_registry := reg, as_store := touch (hre_id record) now (as_store st)\<rparr>)))"

definition connect ::
  "'k crypto \<Rightarrow> nat \<Rightarrow> instant \<Rightarrow> bytes \<Rightarrow> ustr option \<Rightarrow> bool \<Rightarrow> timestamp \<Rightarrow> app_state \<Rightarrow> (u16 + (ustr \<times> u64) option) \<times> app_state" where
  "connect cr address clock nonce answer welcomed now st =
     (case limiter_allow address clock (as_limiter st) of (allowed, lim) \<Rightarrow>
      let st = st\<lparr>as_limiter := lim\<rparr> in
      if \<not> allowed then (Inl 429, st)
      else apfst Inr (connection_open cr nonce answer welcomed now st))"

text \<open>One turn of the loop that serves a host: a frame, an outgoing message (with whether it could be sent), or the
  periodic check. The answer is whether the loop goes on and the code it closes with. An empty channel
  ends the loop once the registry, which holds its only sender, has dropped it.\<close>

datatype host_event =
    TextFrame ustr
  | OtherFrame
  | EndOfFrames
  | NextOutbound bool
  | CheckTick

record session =
  ss_last_heard :: instant
  ss_last_touched :: instant

datatype turn = GoOn session | CloseWith u16 | Ended

definition next_outbound :: "u64 \<Rightarrow> registry \<Rightarrow> outbound option \<times> registry" where
  "next_outbound c reg =
     (case btm_get (rg_queues reg) c of
        Some (m # rest) \<Rightarrow> (Some m, reg\<lparr>rg_queues := btm_insert c rest (rg_queues reg)\<rparr>)
      | _ \<Rightarrow> (None, reg))"

definition host_frame ::
  "'k crypto \<Rightarrow> ustr \<Rightarrow> u64 \<Rightarrow> instant \<Rightarrow> timestamp \<Rightarrow> session \<Rightarrow> ustr \<Rightarrow> app_state \<Rightarrow> turn \<times> app_state" where
  "host_frame cr host connection clock now s frame st =
     (let s = s\<lparr>ss_last_heard := clock\<rparr> in
      case host_message_decode cr frame of
        Some (HelloMessage h) \<Rightarrow>
          if he_protocol_version h \<noteq> PROTOCOL_VERSION then (CloseWith CLOSE_UNSUPPORTED_VERSION, st)
          else (GoOn s, st\<lparr>as_registry := set_hello host connection h (as_registry st)\<rparr>)
      | Some (HeartbeatMessage h) \<Rightarrow>
          let st = st\<lparr>as_registry := set_heartbeat host connection h (as_registry st)\<rparr> in
          if clock - ss_last_touched s \<ge> TOUCH_EVERY
          then (GoOn (s\<lparr>ss_last_touched := clock\<rparr>), st\<lparr>as_store := touch host now (as_store st)\<rparr>)
          else (GoOn s, st)
      | _ \<Rightarrow> (GoOn s, st))"

definition serve_turn ::
  "'k crypto \<Rightarrow> ustr \<Rightarrow> u64 \<Rightarrow> instant \<Rightarrow> timestamp \<Rightarrow> host_event \<Rightarrow> session \<Rightarrow> app_state \<Rightarrow> turn \<times> app_state" where
  "serve_turn cr host connection clock now e s st =
     (case e of
        TextFrame frame \<Rightarrow> host_frame cr host connection clock now s frame st
      | OtherFrame \<Rightarrow> (GoOn (s\<lparr>ss_last_heard := clock\<rparr>), st)
      | EndOfFrames \<Rightarrow> (Ended, st)
      | NextOutbound sent \<Rightarrow>
          (case next_outbound connection (as_registry st) of
             (Some (SendOut _), reg) \<Rightarrow> (if sent then GoOn s else Ended, st\<lparr>as_registry := reg\<rparr>)
           | (Some (CloseOut code _), reg) \<Rightarrow> (CloseWith code, st\<lparr>as_registry := reg\<rparr>)
           | (None, _) \<Rightarrow>
               (if map_option co_connection (btm_get (rg_hosts (as_registry st)) host) = Some connection
                then (GoOn s, st) else (Ended, st)))
      | CheckTick \<Rightarrow>
          if active_host (as_store st) host = None then (CloseWith CLOSE_UNAUTHORIZED, st)
          else if clock - ss_last_heard s > 3 * sc_heartbeat_interval (as_config st) then (CloseWith 1001, st)
          else (GoOn s, st))"

text \<open>The end of a connection: its channel goes with its task.\<close>

definition connection_close :: "ustr \<Rightarrow> u64 \<Rightarrow> app_state \<Rightarrow> app_state" where
  "connection_close host connection st =
     (let reg = unregister host connection (as_registry st)
      in st\<lparr>as_registry := reg\<lparr>rg_queues := btm_remove connection (rg_queues reg)\<rparr>\<rparr>)"

section \<open>The label rule\<close>

lemma label_new_str: "label_wf l \<Longrightarrow> label_new (label_str l) = Inr l"
  by (simp add: label_new_iff label_wf_def)

lemma map_filter_labels: "list_all label_wf ls \<Longrightarrow> List.map_filter (\<lambda>l. result_ok (label_new l)) (map label_str ls) = ls"
  by (induction ls) (auto simp: map_filter_simps label_new_str)

lemma labels_cover_iff:
  assumes "routing_labels_wf r"
  shows "labels_cover (as_registration_labels r) job \<longleftrightarrow> is_match (matches r (from_job_labels job))"
proof -
  have "list_all label_wf (rl_iter r)" using assms by (auto simp: routing_labels_wf_def rl_iter_def list_all_iff)
  then show ?thesis
    by (auto simp: labels_cover_def as_registration_labels_def map_filter_labels is_match_iff Let_def list_all_iff set_rl_iter
        split: sum.splits)
qed

section \<open>The delivery log\<close>

definition delivery_log_wf :: "delivery_log \<Rightarrow> bool" where
  "delivery_log_wf log \<longleftrightarrow>
     dl_seen log = set (dl_order log) \<and> distinct (dl_order log) \<and> length (dl_order log) \<le> dl_capacity log \<and> 1 \<le> dl_capacity log"

lemma delivery_log_new_wf: "delivery_log_wf (delivery_log_new capacity)"
  by (simp add: delivery_log_wf_def delivery_log_new_def)

text \<open>An accepted delivery is last in the order; the oldest one makes room for it.\<close>

lemma first_time_order:
  assumes "delivery_log_wf log"
  shows "delivery_log_wf (snd (first_time i log))" "dl_capacity (snd (first_time i log)) = dl_capacity log"
    and "fst (first_time i log) \<longleftrightarrow> i \<notin> set (dl_order log)"
    and "dl_order (snd (first_time i log)) =
      (if i \<in> set (dl_order log) then dl_order log
       else (if length (dl_order log) = dl_capacity log then tl (dl_order log) else dl_order log) @ [i])"
  using assms by (auto simp: first_time_def delivery_log_wf_def Let_def split: list.splits)

definition deliveries :: "ustr list \<Rightarrow> delivery_log \<Rightarrow> delivery_log" where
  "deliveries ids log = fold (\<lambda>i log. snd (first_time i log)) ids log"

lemma deliveries_keep:
  assumes "delivery_log_wf log" "dl_order log = pre @ i # post" "length post + length others < dl_capacity log"
  shows "delivery_log_wf (deliveries others log) \<and> i \<in> set (dl_order (deliveries others log))"
  using assms
proof (induction others arbitrary: log pre post)
  case (Cons o' others)
  note f = first_time_order [OF Cons.prems(1), of o']
  let ?log = "snd (first_time o' log)"
  obtain pre' post' where "dl_order ?log = pre' @ i # post'" "length post' \<le> length post + 1"
  proof (cases "o' \<in> set (dl_order log)")
    case True
    then show ?thesis using that f(4) Cons.prems(2) by force
  next
    case False
    show ?thesis
    proof (cases pre)
      case Nil
      then have "length (dl_order log) \<noteq> dl_capacity log" using Cons.prems(2,3) by simp
      then show ?thesis using that [of pre "post @ [o']"] False f(4) Cons.prems(2) by simp
    next
      case (Cons p ps)
      then show ?thesis
        using that [of "if length (dl_order log) = dl_capacity log then ps else pre" "post @ [o']"] False f(4) Cons.prems(2)
        by simp
    qed
  qed
  then show ?case using Cons.IH [of ?log pre' post'] f(1,2) Cons.prems(3) by (simp add: deliveries_def)
qed (simp_all add: deliveries_def)

lemma redelivery_recognised:
  assumes "delivery_log_wf log" "fst (first_time i log)" "length others < dl_capacity log"
  shows "\<not> fst (first_time i (deliveries others (snd (first_time i log))))"
proof -
  note f = first_time_order [OF assms(1), of i]
  obtain pre where "dl_order (snd (first_time i log)) = pre @ i # []" using f(3,4) assms(2) by simp
  from deliveries_keep [OF f(1) this, of others] show ?thesis
    using first_time_order(3) [of "deliveries others (snd (first_time i log))" i] assms(3) f(2) by simp
qed

section \<open>Waking\<close>

text \<open>What a queued job puts on the channel of a connection.\<close>

definition wake_of :: "ustr \<Rightarrow> ustr list \<Rightarrow> ustr \<Rightarrow> connected \<Rightarrow> outbound option" where
  "wake_of repository labels delivery c =
     map_option (\<lambda>t. SendOut (WakeMessage \<lparr>wk_target = t, wk_repository = repository, wk_reason = JobQueued, wk_delivery_id = delivery\<rparr>))
       (Option.bind (co_hello c) (\<lambda>h. matching_target h repository labels))"

definition registry_wf :: "registry \<Rightarrow> bool" where
  "registry_wf reg \<longleftrightarrow> btm_wf (rg_hosts reg) \<and> distinct (map (co_connection \<circ> snd) (rg_hosts reg))
     \<and> (\<forall>c \<in> snd ` set (rg_hosts reg). co_connection c < rg_next reg)"

lemma try_send_frame: "rg_hosts (snd (try_send c m reg)) = rg_hosts reg" "rg_next (snd (try_send c m reg)) = rg_next reg"
  by (simp_all add: try_send_def split: option.split)

lemma try_send_queue:
  "btm_get (rg_queues (snd (try_send c m reg))) k =
     (case btm_get (rg_queues reg) k of
        Some q \<Rightarrow> Some (if k = c \<and> length q < OUTBOUND_QUEUE then q @ [m] else q)
      | None \<Rightarrow> None)"
  by (auto simp: try_send_def split: option.split)

lemma wake_host_frame:
  "rg_hosts (snd (wake_host repository labels delivery c acc)) = rg_hosts (snd acc)"
  "rg_next (snd (wake_host repository labels delivery c acc)) = rg_next (snd acc)"
  by (auto simp: wake_host_def try_send_frame split: prod.split option.split)
    (metis snd_conv try_send_frame)+

lemma wake_host_queue:
  "btm_get (rg_queues (snd (wake_host repository labels delivery c acc))) k =
     (case btm_get (rg_queues (snd acc)) k of
        Some q \<Rightarrow> Some (case wake_of repository labels delivery c of
          Some m \<Rightarrow> if k = co_connection c \<and> length q < OUTBOUND_QUEUE then q @ [m] else q
        | None \<Rightarrow> q)
      | None \<Rightarrow> None)"
proof -
  have "snd (wake_host repository labels delivery c acc) =
    (case wake_of repository labels delivery c of Some m \<Rightarrow> snd (try_send (co_connection c) m (snd acc)) | None \<Rightarrow> snd acc)"
    by (auto simp: wake_host_def wake_of_def split: prod.split option.split)
  then show ?thesis by (auto simp: try_send_queue split: option.split)
qed

lemma wake_fold_frame:
  "rg_hosts (snd (fold (wake_host repository labels delivery) cs acc)) = rg_hosts (snd acc)
   \<and> rg_next (snd (fold (wake_host repository labels delivery) cs acc)) = rg_next (snd acc)"
  by (induction cs arbitrary: acc) (simp_all add: wake_host_frame)

lemma wake_fold_other:
  "k \<notin> co_connection ` set cs \<Longrightarrow>
     btm_get (rg_queues (snd (fold (wake_host repository labels delivery) cs acc))) k = btm_get (rg_queues (snd acc)) k"
  by (induction cs arbitrary: acc) (auto simp: wake_host_queue split: option.split)

lemma wake_fold_queue:
  assumes "distinct (map co_connection cs)" "c \<in> set cs"
  shows "btm_get (rg_queues (snd (fold (wake_host repository labels delivery) cs acc))) (co_connection c) =
     btm_get (rg_queues (snd (wake_host repository labels delivery c acc))) (co_connection c)"
  using assms
proof (induction cs arbitrary: acc)
  case (Cons d cs)
  show ?case
  proof (cases "c = d")
    case True
    then show ?thesis using Cons.prems by (simp add: wake_fold_other)
  next
    case False
    then have "c \<in> set cs" using Cons.prems(2) by simp
    then have "co_connection c \<noteq> co_connection d" using Cons.prems(1) by (metis distinct.simps(2) image_eqI list.set_map list.simps(9))
    then show ?thesis using False Cons by (simp add: wake_host_queue split: option.split)
  qed
qed simp

lemma wake_for_job_queue:
  assumes "registry_wf reg" "(host, c) \<in> set (rg_hosts reg)"
  shows "btm_get (rg_queues (snd (wake_for_job repository labels delivery reg))) (co_connection c) =
     (case btm_get (rg_queues reg) (co_connection c) of
        Some q \<Rightarrow> Some (case wake_of repository labels delivery c of
          Some m \<Rightarrow> if length q < OUTBOUND_QUEUE then q @ [m] else q
        | None \<Rightarrow> q)
      | None \<Rightarrow> None)"
proof -
  have "distinct (map co_connection (map snd (rg_hosts reg)))" "c \<in> set (map snd (rg_hosts reg))"
    using assms by (force simp: registry_wf_def comp_def)+
  from wake_fold_queue [OF this] show ?thesis
    by (simp add: wake_for_job_def wake_host_queue split: option.split)
qed

lemma wake_for_job_frame:
  "rg_hosts (snd (wake_for_job repository labels delivery reg)) = rg_hosts reg"
  "rg_next (snd (wake_for_job repository labels delivery reg)) = rg_next reg"
  using wake_fold_frame [of repository labels delivery _ "(0, reg)"] by (simp_all add: wake_for_job_def)

section \<open>Invites and hosts over time\<close>

datatype coordinator_op =
    CreateInvite ustr ustr nat timestamp
  | EnrollHost ustr ustr ustr ustr timestamp
  | RevokeHost ustr timestamp
  | TouchHost ustr timestamp

fun coordinator_apply :: "'k crypto \<Rightarrow> coordinator_op \<Rightarrow> coordinator_db \<Rightarrow> coordinator_db" where
  "coordinator_apply cr (CreateInvite random name ttl now) db = snd (create_invite cr random name ttl now db)"
| "coordinator_apply cr (EnrollHost uuid code hostname key now) db = snd (enroll cr uuid code hostname key now db)"
| "coordinator_apply cr (RevokeHost host now) db = snd (revoke host now db)"
| "coordinator_apply cr (TouchHost i now) db = touch i now db"

definition coordinator_run :: "'k crypto \<Rightarrow> coordinator_op list \<Rightarrow> coordinator_db \<Rightarrow> coordinator_db" where
  "coordinator_run cr ops db = fold (coordinator_apply cr) ops db"

definition coordinator_wf :: "coordinator_db \<Rightarrow> bool" where
  "coordinator_wf db \<longleftrightarrow> distinct (map hre_id (cd_hosts db)) \<and> distinct (map inv_code_hash (cd_invites db))
     \<and> distinct (map hre_name (filter hre_is_active (cd_hosts db)))"

lemma revoke_cases:
  obtains "snd (revoke host now db) = db"
  | i where "snd (revoke host now db) = db\<lparr>cd_hosts := map (\<lambda>r. if hre_id r = i then r\<lparr>hre_revoked_at := Some now\<rparr> else r) (cd_hosts db)\<rparr>"
proof (cases "filter (\<lambda>r. hre_is_active r \<and> (hre_id r = host \<or> hre_name r = host)) (coordinator_hosts db)" rule: remdups_adj.cases)
  case (2 one)
  then show ?thesis by (intro that(2) [of "hre_id one"]) (simp add: revoke_def)
qed (simp_all add: that(1) revoke_def)

lemma revoked_active:
  "filter hre_is_active (map (\<lambda>r. if hre_id r = i then r\<lparr>hre_revoked_at := Some t\<rparr> else r) rs)
     = filter (\<lambda>r. hre_id r \<noteq> i) (filter hre_is_active rs)"
  by (induction rs) (auto simp: hre_is_active_def)

lemma host_ids_kept:
  "map hre_id (map (\<lambda>r. if hre_id r = i then r\<lparr>hre_last_seen_at := t\<rparr> else r) rs) = map hre_id rs"
  "map hre_id (map (\<lambda>r. if hre_id r = i then r\<lparr>hre_revoked_at := t\<rparr> else r) rs) = map hre_id rs"
  by (induction rs) auto

lemma touch_active:
  "filter hre_is_active (map (\<lambda>r. if hre_id r = i then r\<lparr>hre_last_seen_at := t\<rparr> else r) rs)
     = map (\<lambda>r. if hre_id r = i then r\<lparr>hre_last_seen_at := t\<rparr> else r) (filter hre_is_active rs)"
  by (induction rs) (auto simp: hre_is_active_def)

lemma touch_hosts:
  "cd_hosts (touch i now db) = map (\<lambda>r. if hre_id r = i then r\<lparr>hre_last_seen_at := Some now\<rparr> else r) (cd_hosts db)"
  "cd_invites (touch i now db) = cd_invites db"
  by (simp_all add: touch_def)

lemma names_kept: "map hre_name (map (\<lambda>r. if hre_id r = i then r\<lparr>hre_last_seen_at := t\<rparr> else r) rs) = map hre_name rs"
  by (induction rs) auto

lemma create_invite_cases:
  obtains "snd (create_invite cr random name ttl now db) = db"
  | r where "inv_code_hash r \<notin> set (map inv_code_hash (cd_invites db))"
      "snd (create_invite cr random name ttl now db) = db\<lparr>cd_invites := cd_invites db @ [r]\<rparr>"
proof (cases "snd (create_invite cr random name ttl now db) = db")
  case False
  then show ?thesis
    by (intro that(2) [of "\<lparr>inv_code_hash = code_hash cr (INVITE_PREFIX @ random), inv_name = name, inv_created_at = now,
          inv_expires_at = now + int ttl, inv_used_at = None\<rparr>"]) (auto simp: create_invite_def Let_def split: if_splits)
qed (rule that(1))

lemma enroll_cases:
  obtains "snd (enroll cr uuid code hostname key now db) = db" "\<not> is_ok (fst (enroll cr uuid code hostname key now db))"
  | h where "fst (enroll cr uuid code hostname key now db) = Inr h" "hre_id h \<notin> set (map hre_id (cd_hosts db))"
      "\<not> name_taken db (hre_name h)" "hre_is_active h" "code_hash cr (trim code) \<in> set (map inv_code_hash (cd_invites db))"
      "snd (enroll cr uuid code hostname key now db) = \<lparr>cd_hosts = cd_hosts db @ [h],
         cd_invites = map (\<lambda>i. if inv_code_hash i = code_hash cr (trim code) then i\<lparr>inv_used_at := Some now\<rparr> else i) (cd_invites db)\<rparr>"
proof (cases "find (\<lambda>r. inv_code_hash r = code_hash cr (trim code) \<and> inv_used_at r = None) (cd_invites db)")
  case None
  then show ?thesis by (intro that(1)) (simp_all add: enroll_def)
next
  case (Some r)
  then have hash: "code_hash cr (trim code) \<in> set (map inv_code_hash (cd_invites db))"
    by (metis (mono_tags, lifting) find_Some_iff image_eqI list.set_map nth_mem)
  show ?thesis
  proof (cases "inv_expires_at r > now \<and> \<not> name_taken db (inv_name r) \<and> uuid \<notin> hre_id ` set (cd_hosts db)")
    case True
    show ?thesis by (rule that(2) [OF _ _ _ _ hash]) (use True Some in \<open>simp_all add: enroll_def Let_def hre_is_active_def\<close>)
  qed (use Some in \<open>intro that(1); auto simp: enroll_def Let_def\<close>)
qed

lemma invite_hashes_kept: "map inv_code_hash (map (\<lambda>i. if inv_code_hash i = hash then i\<lparr>inv_used_at := u\<rparr> else i) rs) = map inv_code_hash rs"
  by (induction rs) auto

lemma spent_map:
  "list_all (\<lambda>r. inv_code_hash r = hash \<longrightarrow> inv_used_at r \<noteq> None) rs \<Longrightarrow>
     list_all (\<lambda>r. inv_code_hash r = hash \<longrightarrow> inv_used_at r \<noteq> None)
       (map (\<lambda>i. if inv_code_hash i = h then i\<lparr>inv_used_at := Some t\<rparr> else i) rs)"
  by (induction rs) auto

lemma coordinator_apply_wf:
  assumes wf: "coordinator_wf db"
  shows "coordinator_wf (coordinator_apply cr op db)"
proof (cases op)
  case (CreateInvite random name ttl now)
  show ?thesis
    by (rule create_invite_cases [of cr random name ttl now db]) (use wf in \<open>auto simp: CreateInvite coordinator_wf_def\<close>)
next
  case (EnrollHost uuid code hostname key now)
  show ?thesis
  proof (rule enroll_cases [of cr uuid code hostname key now db])
    fix h
    assume h: "hre_id h \<notin> set (map hre_id (cd_hosts db))" "\<not> name_taken db (hre_name h)"
      and db: "snd (enroll cr uuid code hostname key now db) = \<lparr>cd_hosts = cd_hosts db @ [h],
         cd_invites = map (\<lambda>i. if inv_code_hash i = code_hash cr (trim code) then i\<lparr>inv_used_at := Some now\<rparr> else i) (cd_invites db)\<rparr>"
    have "hre_name h \<notin> set (map hre_name (filter hre_is_active (cd_hosts db)))"
      using h(2) by (auto simp: name_taken_def list_ex_iff)
    then show ?thesis
      using wf h(1) by (simp add: EnrollHost db coordinator_wf_def invite_hashes_kept del: map_map set_map)
  qed (use wf in \<open>simp add: EnrollHost\<close>)
next
  case (RevokeHost host now)
  show ?thesis
    by (rule revoke_cases [of host now db])
      (use wf in \<open>simp_all add: RevokeHost coordinator_wf_def host_ids_kept revoked_active distinct_map_filter del: map_map filter_filter\<close>)
next
  case (TouchHost i now)
  show ?thesis
    using wf unfolding TouchHost coordinator_apply.simps coordinator_wf_def touch_hosts touch_active names_kept host_ids_kept .
qed

lemma coordinator_run_wf: "coordinator_wf db \<Longrightarrow> coordinator_wf (coordinator_run cr ops db)"
  unfolding coordinator_run_def by (induction ops arbitrary: db) (simp_all add: coordinator_apply_wf)

text \<open>A spent code stays spent, a revoked host stays revoked.\<close>

definition spent :: "ustr \<Rightarrow> coordinator_db \<Rightarrow> bool" where
  "spent hash db \<longleftrightarrow> hash \<in> set (map inv_code_hash (cd_invites db))
     \<and> list_all (\<lambda>r. inv_code_hash r = hash \<longrightarrow> inv_used_at r \<noteq> None) (cd_invites db)"

definition cut_off :: "ustr \<Rightarrow> coordinator_db \<Rightarrow> bool" where
  "cut_off i db \<longleftrightarrow> i \<in> set (map hre_id (cd_hosts db)) \<and> list_all (\<lambda>r. hre_id r \<noteq> i) (filter hre_is_active (cd_hosts db))"

lemma spent_kept:
  assumes spent: "spent hash db"
  shows "spent hash (coordinator_apply cr op db)"
proof (cases op)
  case (CreateInvite random name ttl now)
  show ?thesis
    by (rule create_invite_cases [of cr random name ttl now db]) (use spent in \<open>auto simp: CreateInvite spent_def\<close>)
next
  case (EnrollHost uuid code hostname key now)
  show ?thesis
    by (rule enroll_cases [of cr uuid code hostname key now db])
      (use spent in \<open>simp_all add: EnrollHost spent_def invite_hashes_kept spent_map del: map_map set_map not_None_eq\<close>)
next
  case (RevokeHost host now)
  show ?thesis by (rule revoke_cases [of host now db]) (use spent in \<open>simp_all add: RevokeHost spent_def\<close>)
qed (use spent in \<open>simp add: touch_def spent_def\<close>)

lemma cut_off_kept:
  assumes off: "cut_off i db"
  shows "cut_off i (coordinator_apply cr op db)"
proof (cases op)
  case (CreateInvite random name ttl now)
  show ?thesis
    by (rule create_invite_cases [of cr random name ttl now db]) (use off in \<open>auto simp: CreateInvite cut_off_def\<close>)
next
  case (EnrollHost uuid code hostname key now)
  show ?thesis
    by (rule enroll_cases [of cr uuid code hostname key now db]) (use off in \<open>auto simp: EnrollHost cut_off_def\<close>)
next
  case (RevokeHost host now)
  show ?thesis
    by (rule revoke_cases [of host now db])
      (use off in \<open>simp_all add: RevokeHost cut_off_def host_ids_kept revoked_active list_all_iff del: map_map set_map\<close>)
next
  case (TouchHost j now)
  have "list_all (\<lambda>r. hre_id r \<noteq> i) (map (\<lambda>r. if hre_id r = j then r\<lparr>hre_last_seen_at := t\<rparr> else r) rs) = list_all (\<lambda>r. hre_id r \<noteq> i) rs"
    for t and rs :: "host_record list"
    by (induction rs) auto
  with off show ?thesis
    unfolding TouchHost coordinator_apply.simps cut_off_def touch_hosts touch_active host_ids_kept by (simp only: simp_thms)
qed

lemma run_keeps:
  "spent hash db \<Longrightarrow> spent hash (coordinator_run cr ops db)"
  "cut_off i db \<Longrightarrow> cut_off i (coordinator_run cr ops db)"
  unfolding coordinator_run_def by (induction ops arbitrary: db) (simp_all add: spent_kept cut_off_kept)

end
