(* ===== verification/Server.thy ===== *)
theory Server
  imports Coordinator
begin

text \<open>
  The coordinator as a whole: the requests of GitHub and of the hosts, the turns and ends of the open
  connections and the operator's commands on the shared database, as one sequence of events in any
  order. What holds of the server after every such sequence, and what an invite, a revocation, a
  delivery and the rate limit promise across it.
\<close>

section \<open>Events\<close>

datatype server_event =
    GotWebhook webhook_request
  | GotEnroll nat instant timestamp ustr bytes
  | GotConnect nat instant bytes "ustr option" bool timestamp
  | GotTurn ustr u64 instant timestamp host_event session
  | GotClose ustr u64
  | OperatorOp coordinator_op

fun server_apply :: "'k crypto \<Rightarrow> server_event \<Rightarrow> app_state \<Rightarrow> app_state" where
  "server_apply cr (GotWebhook rq) st = snd (webhook cr rq st)"
| "server_apply cr (GotEnroll address clock now uuid body) st = snd (enroll_handler cr address clock now uuid body st)"
| "server_apply cr (GotConnect address clock nonce answer welcomed now) st =
     snd (connect cr address clock nonce answer welcomed now st)"
| "server_apply cr (GotTurn host connection clock now e s) st = snd (serve_turn cr host connection clock now e s st)"
| "server_apply cr (GotClose host connection) st = connection_close host connection st"
| "server_apply cr (OperatorOp op) st = st\<lparr>as_store := coordinator_apply cr op (as_store st)\<rparr>"

definition server_run :: "'k crypto \<Rightarrow> server_event list \<Rightarrow> app_state \<Rightarrow> app_state" where
  "server_run cr evs st = fold (server_apply cr) evs st"

lemma server_run_simps [simp]:
  "server_run cr [] st = st"
  "server_run cr (ev # evs) st = server_run cr evs (server_apply cr ev st)"
  by (simp_all add: server_run_def)

section \<open>What each handler leaves alone\<close>

lemma webhook_frame:
  "as_store (snd (webhook cr rq st)) = as_store st" "as_config (snd (webhook cr rq st)) = as_config st"
  "as_limiter (snd (webhook cr rq st)) = as_limiter st"
  by (auto simp: webhook_def Let_def split: prod.split option.split)

lemma host_frame_frame:
  "as_config (snd (host_frame cr host connection clock now s frame st)) = as_config st"
  "as_limiter (snd (host_frame cr host connection clock now s frame st)) = as_limiter st"
  "as_deliveries (snd (host_frame cr host connection clock now s frame st)) = as_deliveries st"
  by (auto simp: host_frame_def Let_def split: option.split host_message.split)

lemma serve_turn_frame:
  "as_config (snd (serve_turn cr host connection clock now e s st)) = as_config st"
  "as_limiter (snd (serve_turn cr host connection clock now e s st)) = as_limiter st"
  "as_deliveries (snd (serve_turn cr host connection clock now e s st)) = as_deliveries st"
  by (auto simp: serve_turn_def host_frame_frame split: host_event.split option.split prod.split outbound.split)

lemma enroll_handler_frame:
  "as_config (snd (enroll_handler cr address clock now uuid body st)) = as_config st"
  "as_registry (snd (enroll_handler cr address clock now uuid body st)) = as_registry st"
  "as_deliveries (snd (enroll_handler cr address clock now uuid body st)) = as_deliveries st"
  by (auto simp: enroll_handler_def Let_def split: prod.split option.split sum.split enroll_error.split)

lemma connect_frame:
  "as_config (snd (connect cr address clock nonce answer welcomed now st)) = as_config st"
  "as_deliveries (snd (connect cr address clock nonce answer welcomed now st)) = as_deliveries st"
  by (auto simp: connect_def connection_open_def Let_def split: prod.split sum.split)

lemma connection_close_frame:
  "as_config (connection_close host connection st) = as_config st"
  "as_store (connection_close host connection st) = as_store st"
  "as_deliveries (connection_close host connection st) = as_deliveries st"
  "as_limiter (connection_close host connection st) = as_limiter st"
  by (simp_all add: connection_close_def Let_def)

lemmas server_frames = webhook_frame serve_turn_frame enroll_handler_frame connect_frame connection_close_frame

section \<open>The database under the server\<close>

lemma enroll_handler_store:
  obtains "as_store (snd (enroll_handler cr address clock now uuid body st)) = as_store st"
    "\<not> is_ok (fst (enroll_handler cr address clock now uuid body st))"
  | rq where "cr_json_enroll_request cr body = Some rq"
    "as_store (snd (enroll_handler cr address clock now uuid body st))
       = snd (enroll cr uuid (er_code rq) (er_hostname rq) (er_public_key rq) now (as_store st))"
    "\<And>h. fst (enroll_handler cr address clock now uuid body st) = Inr h \<longleftrightarrow>
       fst (enroll cr uuid (er_code rq) (er_hostname rq) (er_public_key rq) now (as_store st)) = Inr h"
proof (cases "cr_json_enroll_request cr body")
  case None
  then show ?thesis by (intro that(1)) (simp_all add: enroll_handler_def Let_def split: prod.split)
next
  case (Some rq)
  let ?e = "enroll cr uuid (er_code rq) (er_hostname rq) (er_public_key rq) now (as_store st)"
  show ?thesis
  proof (cases "fst (limiter_allow address clock (as_limiter st)) \<and> er_protocol_version rq = PROTOCOL_VERSION
      \<and> decode_public_key cr (er_public_key rq) \<noteq> None")
    case True
    have "as_store (snd (enroll_handler cr address clock now uuid body st)) = snd ?e
      \<and> (\<forall>h. fst (enroll_handler cr address clock now uuid body st) = Inr h \<longleftrightarrow> fst ?e = Inr h)"
      using True Some
      by (cases ?e) (auto simp: enroll_handler_def Let_def split: prod.split sum.split enroll_error.split)
    then show ?thesis using that(2) [OF Some] by blast
  next
    case False
    then show ?thesis using Some by (intro that(1)) (auto simp: enroll_handler_def Let_def split: prod.split)
  qed
qed

lemma authenticate_limiter: "authenticate cr nonce answer (st\<lparr>as_limiter := lim\<rparr>) = authenticate cr nonce answer st"
  by (auto simp: authenticate_def split: option.split host_message.split)

lemma connect_cases:
  obtains lim where "snd (connect cr address clock nonce answer welcomed now st) = st\<lparr>as_limiter := lim\<rparr>"
    "\<And>host connection. fst (connect cr address clock nonce answer welcomed now st) \<noteq> Inr (Some (host, connection))"
  | lim host r where "authenticate cr nonce answer st = Inr r" "host = hre_id r"
    "snd (connect cr address clock nonce answer welcomed now st) =
       st\<lparr>as_limiter := lim, as_registry := snd (register host (as_registry st)), as_store := touch host now (as_store st)\<rparr>"
    "fst (connect cr address clock nonce answer welcomed now st) = Inr (Some (host, rg_next (as_registry st)))"
proof (cases "fst (limiter_allow address clock (as_limiter st)) \<and> welcomed \<and> is_ok (authenticate cr nonce answer st)")
  case True
  obtain lim where lim: "limiter_allow address clock (as_limiter st) = (True, lim)" using True by (metis prod.collapse)
  obtain r where r: "authenticate cr nonce answer st = Inr r" using True by (cases "authenticate cr nonce answer st") auto
  show ?thesis
    using True r by (intro that(2) [OF r refl, of lim])
      (simp_all add: connect_def connection_open_def authenticate_limiter lim register_def Let_def split: prod.split)
next
  case False
  then show ?thesis
    by (intro that(1) [of "snd (limiter_allow address clock (as_limiter st))"])
      (auto simp: connect_def connection_open_def authenticate_limiter Let_def split: prod.split sum.split)
qed

text \<open>An event is at most one operation of the store.\<close>

lemma server_apply_store:
  obtains "as_store (server_apply cr ev st) = as_store st"
  | op where "as_store (server_apply cr ev st) = coordinator_apply cr op (as_store st)"
proof (cases ev)
  case (GotEnroll address clock now uuid body)
  show ?thesis
    by (rule enroll_handler_store [of cr address clock now uuid body st])
      (use that(1) that(2) [of "EnrollHost uuid _ _ _ now"] in \<open>auto simp: GotEnroll\<close>)
next
  case (GotConnect address clock nonce answer welcomed now)
  show ?thesis
    by (rule connect_cases [of cr address clock nonce answer welcomed now st])
      (use that(1) that(2) [of "TouchHost _ now"] in \<open>auto simp: GotConnect\<close>)
next
  case (GotTurn host connection clock now e s)
  have "as_store (server_apply cr ev st) = as_store st \<or> as_store (server_apply cr ev st) = touch host now (as_store st)"
    by (auto simp: GotTurn serve_turn_def host_frame_def Let_def split: host_event.split option.split prod.split outbound.split host_message.split)
  then show ?thesis using that(1) that(2) [of "TouchHost host now"] by auto
qed (use that in \<open>auto simp: server_frames\<close>)

lemma server_run_store: "\<exists>ops. as_store (server_run cr evs st) = coordinator_run cr ops (as_store st)"
proof (induction evs arbitrary: st)
  case Nil
  show ?case by (rule exI [of _ "[]"]) (simp add: coordinator_run_def)
next
  case (Cons ev evs)
  obtain ops where ops: "as_store (server_run cr (ev # evs) st) = coordinator_run cr ops (as_store (server_apply cr ev st))"
    using Cons by auto
  show ?case
  proof (rule server_apply_store [of cr ev st])
    fix op
    assume "as_store (server_apply cr ev st) = coordinator_apply cr op (as_store st)"
    then show ?thesis using ops by (intro exI [of _ "op # ops"]) (simp add: coordinator_run_def)
  qed (use ops in auto)
qed

section \<open>Invites and revocations\<close>

lemma spent_enroll: "spent (code_hash cr (trim code)) db \<Longrightarrow> enroll cr uuid code hostname key now db = (Inl InvalidCode, db)"
proof -
  assume "spent (code_hash cr (trim code)) db"
  then have "find (\<lambda>r. inv_code_hash r = code_hash cr (trim code) \<and> inv_used_at r = None) (cd_invites db) = None"
    by (auto simp: spent_def list_all_iff find_None_iff)
  then show ?thesis by (simp add: enroll_def)
qed

lemma enrolled_spends:
  assumes "fst (enroll cr uuid code hostname key now db) = Inr h"
  shows "spent (code_hash cr (trim code)) (snd (enroll cr uuid code hostname key now db))"
proof (rule enroll_cases [of cr uuid code hostname key now db])
  fix h'
  assume "code_hash cr (trim code) \<in> set (map inv_code_hash (cd_invites db))"
    and db: "snd (enroll cr uuid code hostname key now db) = \<lparr>cd_hosts = cd_hosts db @ [h'],
         cd_invites = map (\<lambda>i. if inv_code_hash i = code_hash cr (trim code) then i\<lparr>inv_used_at := Some now\<rparr> else i) (cd_invites db)\<rparr>"
  then show ?thesis
    by (auto simp: spent_def list_all_iff simp del: map_map set_map simp: invite_hashes_kept) auto
qed (use assms in simp_all)

lemma find_append: "find P (xs @ ys) = (case find P xs of None \<Rightarrow> find P ys | Some x \<Rightarrow> Some x)"
  by (induction xs) auto

lemma enrolled_active:
  assumes "fst (enroll cr uuid code hostname key now db) = Inr h"
  shows "active_host (snd (enroll cr uuid code hostname key now db)) (hre_id h) = Some h"
proof (rule enroll_cases [of cr uuid code hostname key now db])
  fix h'
  assume h: "fst (enroll cr uuid code hostname key now db) = Inr h'" "hre_id h' \<notin> set (map hre_id (cd_hosts db))" "hre_is_active h'"
    and db: "snd (enroll cr uuid code hostname key now db) = \<lparr>cd_hosts = cd_hosts db @ [h'],
         cd_invites = map (\<lambda>i. if inv_code_hash i = code_hash cr (trim code) then i\<lparr>inv_used_at := Some now\<rparr> else i) (cd_invites db)\<rparr>"
  have "find (\<lambda>r. hre_id r = hre_id h' \<and> hre_is_active r) (cd_hosts db) = None"
    using h(2) by (auto simp: find_None_iff image_iff)
  then show ?thesis using assms h(1,3) by (simp add: active_host_def db find_append)
qed (use assms in simp_all)

lemma cut_off_inactive: "cut_off i db \<Longrightarrow> active_host db i = None"
  by (auto simp: cut_off_def active_host_def find_None_iff list_all_iff)

lemma revoked_cut_off:
  assumes "fst (revoke host now db) = Inr r"
  shows "cut_off (hre_id r) (snd (revoke host now db))"
proof -
  obtain one where one: "filter (\<lambda>r. hre_is_active r \<and> (hre_id r = host \<or> hre_name r = host)) (coordinator_hosts db) = [one]"
    using assms by (auto simp: revoke_def split: list.splits)
  then have "one \<in> set (coordinator_hosts db)" by (metis filter_is_subset list.set_intros(1) subsetD)
  then have "hre_id one \<in> set (map hre_id (cd_hosts db))" by (simp add: coordinator_hosts_def)
  then show ?thesis using assms one
    by (auto simp: revoke_def cut_off_def list_all_iff revoked_active host_ids_kept simp del: map_map set_map)
qed

lemma authenticated_active: "authenticate cr nonce answer st = Inr r \<Longrightarrow> active_host (as_store st) (hre_id r) = Some r"
  by (auto simp: authenticate_def active_host_def dest: find_SomeD split: option.splits host_message.splits if_splits)

section \<open>The registry under the server\<close>

lemma btm_get_iff: "btm_wf m \<Longrightarrow> btm_get m k = Some v \<longleftrightarrow> (k, v) \<in> set m"
  unfolding btm_get_def btm_wf_def by (intro map_of_eq_Some_iff) (simp add: strict_sorted_iff)

lemma distinct_values:
  assumes keys: "distinct (map fst m)"
  shows "distinct (map (f \<circ> snd) m) \<longleftrightarrow> (\<forall>k v k' v'. (k, v) \<in> set m \<longrightarrow> (k', v') \<in> set m \<longrightarrow> f v = f v' \<longrightarrow> k = k')"
    (is "_ \<longleftrightarrow> ?same")
proof -
  have "distinct (map (f \<circ> snd) m) \<longleftrightarrow> inj_on (f \<circ> snd) (set m)" using keys by (simp add: distinct_map)
  also have "\<dots> \<longleftrightarrow> ?same"
  proof
    assume inj: "inj_on (f \<circ> snd) (set m)"
    show ?same using inj_onD [OF inj] by fastforce
  next
    assume same: ?same
    show "inj_on (f \<circ> snd) (set m)"
    proof (rule inj_onI, clarsimp)
      fix k v k' v'
      assume kv: "(k, v) \<in> set m" "(k', v') \<in> set m" "f v = f v'"
      then have "k = k'" using same by blast
      then show "k = k' \<and> v = v'" using eq_key_imp_eq_value [OF keys, of k v v'] kv by simp
    qed
  qed
  finally show ?thesis .
qed

lemma registry_wf_iff:
  "registry_wf reg \<longleftrightarrow> btm_wf (rg_hosts reg)
     \<and> (\<forall>h c. btm_get (rg_hosts reg) h = Some c \<longrightarrow> co_connection c < rg_next reg)
     \<and> (\<forall>h c h' c'. btm_get (rg_hosts reg) h = Some c \<longrightarrow> btm_get (rg_hosts reg) h' = Some c'
          \<longrightarrow> co_connection c = co_connection c' \<longrightarrow> h = h')"
proof (cases "btm_wf (rg_hosts reg)")
  case True
  then have keys: "distinct (map fst (rg_hosts reg))" by (simp add: btm_wf_def strict_sorted_iff)
  have "(\<forall>c \<in> snd ` set (rg_hosts reg). co_connection c < rg_next reg) \<longleftrightarrow> (\<forall>h c. (h, c) \<in> set (rg_hosts reg) \<longrightarrow> co_connection c < rg_next reg)"
    by auto
  then show ?thesis unfolding registry_wf_def distinct_values [OF keys] btm_get_iff [OF True] by blast
qed (simp add: registry_wf_def)

lemma register_hosts:
  "rg_hosts (snd (register host reg)) =
     btm_insert host \<lparr>co_connection = rg_next reg, co_hello = None, co_heartbeat = None\<rparr> (rg_hosts reg)"
  "rg_next (snd (register host reg)) = rg_next reg + 1"
  by (simp_all add: register_def Let_def try_send_frame split: option.split)

lemma register_queue:
  "btm_get (rg_queues (snd (register host reg))) k = Some q \<Longrightarrow>
     \<forall>k q. btm_get (rg_queues reg) k = Some q \<longrightarrow> length q \<le> OUTBOUND_QUEUE \<Longrightarrow> length q \<le> OUTBOUND_QUEUE"
  by (auto simp: register_def Let_def try_send_queue split: option.splits if_splits)

lemma register_wf:
  assumes "registry_wf reg" "rg_next reg \<noteq> - 1"
  shows "registry_wf (snd (register host reg))"
proof -
  have next_less: "rg_next reg < rg_next reg + 1" using assms(2) by (simp add: inc_less_eq_self_iff_eq flip: not_le)
  show ?thesis
    using assms(1) next_less unfolding registry_wf_iff
    by (auto simp: register_hosts split: if_splits dest: less_trans) (metis less_irrefl)+
qed

lemma unregister_wf: "registry_wf reg \<Longrightarrow> registry_wf (unregister host connection reg)"
  unfolding registry_wf_iff by (auto simp: unregister_def split: option.split if_splits)

lemma update_connected_wf:
  "registry_wf reg \<Longrightarrow> (\<And>c. co_connection (f c) = co_connection c) \<Longrightarrow> registry_wf (update_connected host connection f reg)"
  unfolding registry_wf_iff by (auto simp: update_connected_def split: option.split if_splits)

lemma registry_wf_queues: "registry_wf (reg\<lparr>rg_queues := qs\<rparr>) = registry_wf reg"
  by (simp add: registry_wf_def)

lemma try_send_bounded:
  "\<forall>k q. btm_get (rg_queues reg) k = Some q \<longrightarrow> length q \<le> OUTBOUND_QUEUE \<Longrightarrow>
     btm_get (rg_queues (snd (try_send c m reg))) k = Some q \<Longrightarrow> length q \<le> OUTBOUND_QUEUE"
  by (auto simp: try_send_queue split: option.splits if_splits)

section \<open>The invariant\<close>

definition registry_ok :: "registry \<Rightarrow> bool" where
  "registry_ok reg \<longleftrightarrow> registry_wf reg \<and> (\<forall>k q. btm_get (rg_queues reg) k = Some q \<longrightarrow> length q \<le> OUTBOUND_QUEUE)"

definition server_wf :: "app_state \<Rightarrow> bool" where
  "server_wf st \<longleftrightarrow> coordinator_wf (as_store st) \<and> registry_ok (as_registry st)
     \<and> delivery_log_wf (as_deliveries st) \<and> dl_capacity (as_deliveries st) = DELIVERY_MEMORY
     \<and> fst ` set (rg_hosts (as_registry st)) \<subseteq> hre_id ` set (cd_hosts (as_store st))"

lemma wake_host_bounded:
  assumes "\<forall>k q. btm_get (rg_queues (snd acc)) k = Some q \<longrightarrow> length q \<le> OUTBOUND_QUEUE"
  shows "\<forall>k q. btm_get (rg_queues (snd (wake_host repository labels delivery c acc))) k = Some q \<longrightarrow> length q \<le> OUTBOUND_QUEUE"
  using assms by (auto simp: wake_host_queue split: option.splits if_splits)

lemma wake_for_job_ok: "registry_ok reg \<Longrightarrow> registry_ok (snd (wake_for_job repository labels delivery reg))"
proof -
  have fold_bounded: "\<forall>k q. btm_get (rg_queues (snd acc)) k = Some q \<longrightarrow> length q \<le> OUTBOUND_QUEUE \<Longrightarrow>
      \<forall>k q. btm_get (rg_queues (snd (fold (wake_host repository labels delivery) cs acc))) k = Some q \<longrightarrow> length q \<le> OUTBOUND_QUEUE"
    for cs acc
  proof (induction cs arbitrary: acc)
    case (Cons c cs)
    show ?case using Cons.IH [OF wake_host_bounded [OF Cons.prems]] by simp
  qed simp
  assume "registry_ok reg"
  then show ?thesis
    using fold_bounded [of "(0, reg)" "map snd (rg_hosts reg)"]
    by (simp add: registry_ok_def registry_wf_def wake_for_job_frame) (simp add: wake_for_job_def)
qed

lemma register_ok: "registry_ok reg \<Longrightarrow> rg_next reg \<noteq> - 1 \<Longrightarrow> registry_ok (snd (register host reg))"
  unfolding registry_ok_def using register_wf register_queue by blast

lemma update_connected_ok:
  "registry_ok reg \<Longrightarrow> (\<And>c. co_connection (f c) = co_connection c) \<Longrightarrow> registry_ok (update_connected host connection f reg)"
proof -
  have "rg_queues (update_connected host connection f reg) = rg_queues reg" by (simp add: update_connected_def split: option.split)
  then show "registry_ok reg \<Longrightarrow> (\<And>c. co_connection (f c) = co_connection c) \<Longrightarrow> registry_ok (update_connected host connection f reg)"
    by (simp add: registry_ok_def update_connected_wf)
qed

lemma next_outbound_ok: "registry_ok reg \<Longrightarrow> registry_ok (snd (next_outbound connection reg))"
  by (fastforce simp: registry_ok_def next_outbound_def registry_wf_queues split: option.split list.split)

lemma unregister_ok: "registry_ok reg \<Longrightarrow> registry_ok ((unregister host connection reg)\<lparr>rg_queues := btm_remove connection (rg_queues (unregister host connection reg))\<rparr>)"
proof -
  assume "registry_ok reg"
  moreover have "rg_queues (unregister host connection reg) = rg_queues reg" by (simp add: unregister_def split: option.split)
  ultimately show ?thesis by (auto simp: registry_ok_def registry_wf_queues unregister_wf)
qed

lemma update_connected_frame:
  "fst ` set (rg_hosts (update_connected host connection f reg)) = fst ` set (rg_hosts reg)"
  "rg_next (update_connected host connection f reg) = rg_next reg"
  by (auto simp: update_connected_def btm_get_def split: option.split dest: map_of_SomeD intro: rev_image_eqI)

lemma host_frame_registry:
  assumes "registry_ok (as_registry st)"
  shows "registry_ok (as_registry (snd (host_frame cr host connection clock now s frame st)))
    \<and> rg_next (as_registry (snd (host_frame cr host connection clock now s frame st))) = rg_next (as_registry st)
    \<and> fst ` set (rg_hosts (as_registry (snd (host_frame cr host connection clock now s frame st)))) = fst ` set (rg_hosts (as_registry st))"
  using assms by (simp add: host_frame_def set_hello_def set_heartbeat_def update_connected_ok update_connected_frame Let_def
      split: option.split host_message.split)

lemma serve_turn_registry:
  assumes "registry_ok (as_registry st)"
  shows "registry_ok (as_registry (snd (serve_turn cr host connection clock now e s st)))
    \<and> rg_next (as_registry (snd (serve_turn cr host connection clock now e s st))) = rg_next (as_registry st)
    \<and> fst ` set (rg_hosts (as_registry (snd (serve_turn cr host connection clock now e s st)))) = fst ` set (rg_hosts (as_registry st))"
proof (cases e)
  case (NextOutbound sent)
  obtain m reg where nxt: "next_outbound connection (as_registry st) = (m, reg)" by (metis prod.exhaust)
  have "registry_ok reg" using next_outbound_ok [OF assms, of connection] by (simp add: nxt)
  moreover have "rg_next reg = rg_next (as_registry st)" "rg_hosts reg = rg_hosts (as_registry st)"
    using nxt by (auto simp: next_outbound_def split: option.splits list.splits)
  ultimately show ?thesis
    using assms by (simp add: NextOutbound serve_turn_def nxt split: option.split outbound.split)
qed (use assms host_frame_registry in \<open>simp_all add: serve_turn_def\<close>)

lemma webhook_registry:
  obtains "as_registry (snd (webhook cr rq st)) = as_registry st"
  | repository labels delivery where
    "as_registry (snd (webhook cr rq st)) = snd (wake_for_job repository labels delivery (as_registry st))"
proof -
  have "as_registry (snd (webhook cr rq st)) = as_registry st
    \<or> (\<exists>repository labels delivery. as_registry (snd (webhook cr rq st)) = snd (wake_for_job repository labels delivery (as_registry st)))"
    by (auto simp: webhook_def Let_def split: prod.split option.split)
  then show ?thesis using that by blast
qed

lemma connection_close_registry:
  assumes "registry_ok (as_registry st)"
  shows "registry_ok (as_registry (connection_close host connection st))
    \<and> rg_next (as_registry (connection_close host connection st)) = rg_next (as_registry st)
    \<and> fst ` set (rg_hosts (as_registry (connection_close host connection st))) \<subseteq> fst ` set (rg_hosts (as_registry st))"
proof -
  have "rg_next (unregister host connection (as_registry st)) = rg_next (as_registry st)"
    "fst ` set (rg_hosts (unregister host connection (as_registry st))) \<subseteq> fst ` set (rg_hosts (as_registry st))"
    by (auto simp: unregister_def btm_remove_def split: option.split)
  then show ?thesis using unregister_ok [OF assms] by (simp add: connection_close_def Let_def)
qed

text \<open>Host identifiers are never forgotten.\<close>

lemma ids_eq: "hre_id ` set rs = set (map hre_id rs)"
  by simp

lemma ids_grow: "hre_id ` set (cd_hosts db) \<subseteq> hre_id ` set (cd_hosts (coordinator_apply cr op db))"
proof (cases op)
  case (CreateInvite random name ttl now)
  show ?thesis by (rule create_invite_cases [of cr random name ttl now db]) (simp_all add: CreateInvite)
next
  case (EnrollHost uuid code hostname key now)
  show ?thesis by (rule enroll_cases [of cr uuid code hostname key now db]) (auto simp: EnrollHost)
next
  case (RevokeHost host now)
  show ?thesis by (rule revoke_cases [of host now db]) (simp_all add: RevokeHost ids_eq host_ids_kept del: set_map map_map)
next
  case (TouchHost i now)
  show ?thesis by (simp add: TouchHost touch_def ids_eq host_ids_kept del: set_map map_map)
qed

lemma store_ids_grow: "hre_id ` set (cd_hosts (as_store st)) \<subseteq> hre_id ` set (cd_hosts (as_store (server_apply cr ev st)))"
  by (rule server_apply_store [of cr ev st]) (simp_all add: ids_grow)

lemma server_apply_registry:
  assumes ok: "registry_ok (as_registry st)" and room: "rg_next (as_registry st) \<noteq> - 1"
  shows "registry_ok (as_registry (server_apply cr ev st))
    \<and> unat (rg_next (as_registry (server_apply cr ev st))) \<le> Suc (unat (rg_next (as_registry st)))
    \<and> fst ` set (rg_hosts (as_registry (server_apply cr ev st)))
       \<subseteq> fst ` set (rg_hosts (as_registry st)) \<union> hre_id ` set (cd_hosts (as_store st))"
proof (cases ev)
  case (GotWebhook rq)
  show ?thesis
    by (rule webhook_registry [of cr rq st]) (simp_all add: GotWebhook ok wake_for_job_ok wake_for_job_frame)
next
  case (GotConnect address clock nonce answer welcomed now)
  show ?thesis
  proof (rule connect_cases [of cr address clock nonce answer welcomed now st])
    fix lim host r
    assume auth: "authenticate cr nonce answer st = Inr r" "host = hre_id r"
      and st: "snd (connect cr address clock nonce answer welcomed now st) =
        st\<lparr>as_limiter := lim, as_registry := snd (register host (as_registry st)), as_store := touch host now (as_store st)\<rparr>"
    have "host \<in> hre_id ` set (cd_hosts (as_store st))"
      using authenticated_active [OF auth(1)] auth(2) by (auto simp: active_host_def dest!: find_SomeD)
    moreover have "unat (rg_next (as_registry st) + 1) \<le> Suc (unat (rg_next (as_registry st)))" by (simp add: unat_word_ariths)
    ultimately show ?thesis using register_ok [OF ok room] by (simp add: GotConnect st register_hosts)
  qed (simp add: GotConnect ok)
next
  case (GotTurn host connection clock now e s)
  show ?thesis using serve_turn_registry [OF ok, of cr host connection clock now e s] by (simp add: GotTurn)
next
  case (GotClose host connection)
  show ?thesis using connection_close_registry [OF ok, of host connection] by (auto simp: GotClose)
qed (simp_all add: server_frames ok)

lemma webhook_deliveries:
  obtains "as_deliveries (snd (webhook cr rq st)) = as_deliveries st"
  | delivery where "wr_delivery rq = Some delivery"
    "as_deliveries (snd (webhook cr rq st)) = snd (first_time delivery (as_deliveries st))"
proof -
  have "as_deliveries (snd (webhook cr rq st)) = as_deliveries st
    \<or> (\<exists>delivery. wr_delivery rq = Some delivery \<and> as_deliveries (snd (webhook cr rq st)) = snd (first_time delivery (as_deliveries st)))"
    by (auto simp: webhook_def Let_def split: prod.split option.split)
  then show ?thesis using that by blast
qed

fun is_webhook :: "server_event \<Rightarrow> bool" where
  "is_webhook (GotWebhook _) = True"
| "is_webhook _ = False"

lemma server_apply_deliveries:
  obtains "as_deliveries (server_apply cr ev st) = as_deliveries st"
  | delivery where "is_webhook ev" "as_deliveries (server_apply cr ev st) = snd (first_time delivery (as_deliveries st))"
proof (cases ev)
  case (GotWebhook rq)
  show ?thesis by (rule webhook_deliveries [of cr rq st]) (use that GotWebhook in auto)
qed (use that(1) in \<open>simp_all add: server_frames\<close>)

lemma server_run_deliveries:
  "\<exists>ids. length ids \<le> length (filter is_webhook evs) \<and> as_deliveries (server_run cr evs st) = deliveries ids (as_deliveries st)"
proof (induction evs arbitrary: st)
  case Nil
  show ?case by (rule exI [of _ "[]"]) (simp add: deliveries_def)
next
  case (Cons ev evs)
  obtain ids where ids: "length ids \<le> length (filter is_webhook evs)"
    "as_deliveries (server_run cr (ev # evs) st) = deliveries ids (as_deliveries (server_apply cr ev st))"
    using Cons by auto
  show ?case
  proof (rule server_apply_deliveries [of cr ev st])
    fix delivery
    assume "is_webhook ev" "as_deliveries (server_apply cr ev st) = snd (first_time delivery (as_deliveries st))"
    then show ?thesis using ids by (intro exI [of _ "delivery # ids"]) (simp add: deliveries_def)
  qed (use ids in \<open>intro exI [of _ ids]; auto\<close>)
qed

lemma server_apply_wf:
  assumes wf: "server_wf st" and room: "rg_next (as_registry st) \<noteq> - 1"
  shows "server_wf (server_apply cr ev st)"
proof -
  note reg = server_apply_registry [OF _ room, of cr ev]
  have "coordinator_wf (as_store (server_apply cr ev st))"
    by (rule server_apply_store [of cr ev st]) (use wf in \<open>simp_all add: server_wf_def coordinator_apply_wf\<close>)
  moreover have "delivery_log_wf (as_deliveries (server_apply cr ev st)) \<and> dl_capacity (as_deliveries (server_apply cr ev st)) = DELIVERY_MEMORY"
    by (rule server_apply_deliveries [of cr ev st]) (use wf in \<open>simp_all add: server_wf_def first_time_order(1,2)\<close>)
  moreover have "fst ` set (rg_hosts (as_registry (server_apply cr ev st))) \<subseteq> hre_id ` set (cd_hosts (as_store (server_apply cr ev st)))"
    using wf reg store_ids_grow [of st cr ev] unfolding server_wf_def by blast
  ultimately show ?thesis using wf reg by (simp add: server_wf_def)
qed

lemma server_run_wf:
  assumes "server_wf st" "unat (rg_next (as_registry st)) + length evs < 2 ^ 64"
  shows "server_wf (server_run cr evs st)"
  using assms
proof (induction evs arbitrary: st)
  case (Cons ev evs)
  have "rg_next (as_registry st) \<noteq> - 1" using Cons.prems(2) by (auto simp: unat_minus_1_max)
  have ok: "registry_ok (as_registry st)" using Cons.prems(1) by (simp add: server_wf_def)
  have "unat (rg_next (as_registry (server_apply cr ev st))) \<le> Suc (unat (rg_next (as_registry st)))"
    using server_apply_registry [OF ok \<open>rg_next (as_registry st) \<noteq> - 1\<close>, of cr ev] by simp
  then have "unat (rg_next (as_registry (server_apply cr ev st))) + length evs < 2 ^ 64" using Cons.prems(2) by simp
  from Cons.IH [OF server_apply_wf [OF Cons.prems(1) \<open>rg_next (as_registry st) \<noteq> - 1\<close>] this] show ?case by simp
qed simp

lemma app_state_new_wf: "coordinator_wf db \<Longrightarrow> server_wf (app_state_new config per_minute db)"
  by (simp add: server_wf_def app_state_new_def registry_ok_def registry_wf_def registry_default_def btm_get_def
      delivery_log_new_wf) (simp add: delivery_log_new_def DELIVERY_MEMORY_def)

section \<open>Deliveries\<close>

text \<open>The job a request announces to the hosts: signed, new, and about a queued job.\<close>

definition announced :: "'k crypto \<Rightarrow> webhook_request \<Rightarrow> app_state \<Rightarrow> (workflow_job_event \<times> ustr) option" where
  "announced cr rq st =
     (case (wr_event rq, wr_delivery rq, cr_json_job_event cr (wr_body rq)) of
        (Some event, Some delivery, Some job) \<Rightarrow>
          if signature_valid cr (sc_webhook_secret (as_config st)) (wr_body rq) (wr_signature rq)
            \<and> event = lit ''workflow_job'' \<and> valid_delivery_id delivery \<and> delivery \<notin> set (dl_order (as_deliveries st))
            \<and> wj_action job = lit ''queued''
          then Some (job, delivery) else None
      | _ \<Rightarrow> None)"

definition host_serves :: "connected \<Rightarrow> workflow_job_event \<Rightarrow> bool" where
  "host_serves c job \<longleftrightarrow> (case co_hello c of
       None \<Rightarrow> False
     | Some h \<Rightarrow> list_ex (\<lambda>t. covers (reference t) (wj_repository job)
         \<and> list_ex (\<lambda>p. cp_enabled p \<and> labels_cover (cp_labels p) (wj_labels job)) (at_profiles t)) (he_targets h))"

lemma queued_action: "action_name a = lit ''queued'' \<longleftrightarrow> a = lit ''queued''"
  by (auto simp: action_name_def lit_def)

lemma webhook_announced:
  assumes "delivery_log_wf (as_deliveries st)"
  shows "as_registry (snd (webhook cr rq st)) =
    (case announced cr rq st of
       Some (job, delivery) \<Rightarrow> snd (wake_for_job (wj_repository job) (wj_labels job) delivery (as_registry st))
     | None \<Rightarrow> as_registry st)"
proof (cases "signature_valid cr (sc_webhook_secret (as_config st)) (wr_body rq) (wr_signature rq) \<and> wr_event rq \<noteq> None \<and> wr_delivery rq \<noteq> None")
  case True
  then obtain event delivery where rq: "wr_event rq = Some event" "wr_delivery rq = Some delivery" by auto
  obtain log where log: "first_time delivery (as_deliveries st) = (delivery \<notin> set (dl_order (as_deliveries st)), log)"
    using first_time_order(3) [OF assms, of delivery] by (cases "first_time delivery (as_deliveries st)") simp
  have words: "lit ''ping'' \<noteq> lit ''workflow_job''" by (simp add: lit_def)
  show ?thesis
    using True words by (simp add: webhook_def announced_def rq log queued_action [simplified] Let_def split: option.split)
next
  case False
  then show ?thesis by (auto simp: webhook_def announced_def split: option.split)
qed

lemma wake_of_serves:
  "wake_of (wj_repository job) (wj_labels job) delivery c = None \<longleftrightarrow> \<not> host_serves c job"
  "wake_of (wj_repository job) (wj_labels job) delivery c = Some m \<Longrightarrow>
     \<exists>t. covers t (wj_repository job) \<and> m = SendOut (WakeMessage
       \<lparr>wk_target = t, wk_repository = wj_repository job, wk_reason = JobQueued, wk_delivery_id = delivery\<rparr>)"
  by (auto simp: wake_of_def host_serves_def matching_target_def find_None_iff list_ex_iff bind_eq_Some_conv dest!: find_SomeD
      split: option.splits)

lemma webhook_repeated:
  assumes "delivery_log_wf (as_deliveries st)" "wr_delivery rq = Some delivery" "\<not> fst (first_time delivery (as_deliveries st))"
  shows "snd (webhook cr rq st) = st"
proof -
  have "first_time delivery (as_deliveries st) = (False, as_deliveries st)"
    using assms(1,3) by (simp add: first_time_def Let_def split: if_splits)
  then show ?thesis using assms(2) by (simp add: webhook_def split: option.split)
qed

lemma deliveries_wf: "delivery_log_wf log \<Longrightarrow> delivery_log_wf (deliveries ids log)"
  unfolding deliveries_def by (induction ids arbitrary: log) (simp_all add: first_time_order(1))

section \<open>The rate limit\<close>

fun attempts_allowed :: "nat \<Rightarrow> (nat \<times> instant) list \<Rightarrow> rate_limiter \<Rightarrow> nat" where
  "attempts_allowed a [] lim = 0"
| "attempts_allowed a ((b, now) # rest) lim =
     (if b = a \<and> fst (limiter_allow b now lim) then 1 else 0) + attempts_allowed a rest (snd (limiter_allow b now lim))"

text \<open>What an address may still be granted before \<open>t + WINDOW\<close>.\<close>

definition budget :: "instant \<Rightarrow> nat \<Rightarrow> rate_limiter \<Rightarrow> nat" where
  "budget t a lim =
     (case btm_get (lim_windows lim) a of
        None \<Rightarrow> unat (lim_per_minute lim)
      | Some (start, n) \<Rightarrow> (unat (lim_per_minute lim) - unat n) + (if start < t then unat (lim_per_minute lim) else 0))"

definition swept :: "instant \<Rightarrow> rate_limiter \<Rightarrow> rate_limiter" where
  "swept now lim = lim\<lparr>lim_windows := (if length (lim_windows lim) \<ge> RATE_LIMIT_SWEEP_AT
     then filter (\<lambda>(_, start, _). now - start < LIMIT_WINDOW) (lim_windows lim) else lim_windows lim)\<rparr>"

definition counted_at :: "nat \<Rightarrow> instant \<Rightarrow> rate_limiter \<Rightarrow> instant \<times> u32" where
  "counted_at a now lim =
     (case btm_get (lim_windows lim) a of
        Some (start, n) \<Rightarrow> if now - start \<ge> LIMIT_WINDOW then (now, 1) else (start, saturating_add n 1)
      | None \<Rightarrow> (now, 1))"

lemma limiter_allow_eq:
  "limiter_allow a now lim =
     (snd (counted_at a now (swept now lim)) \<le> lim_per_minute lim,
      lim\<lparr>lim_windows := btm_insert a (counted_at a now (swept now lim)) (lim_windows (swept now lim))\<rparr>)"
  by (auto simp: limiter_allow_def counted_at_def swept_def LIMIT_WINDOW_def Let_def saturating_add_def split: option.split)

lemma btm_get_filter:
  "btm_wf m \<Longrightarrow> btm_get (filter P m) k = (case btm_get m k of Some v \<Rightarrow> if P (k, v) then Some v else None | None \<Rightarrow> None)"
proof (induction m)
  case (Cons x m)
  then have "btm_wf m" "fst x \<notin> fst ` set m" by (auto simp: btm_wf_def)
  then show ?case
    using Cons.IH by (cases x) (auto simp: btm_get_def map_of_eq_None_iff split: option.splits)
qed (simp add: btm_get_def)

lemma swept_wf: "btm_wf (lim_windows lim) \<Longrightarrow> btm_wf (lim_windows (swept now lim))"
  by (simp add: swept_def btm_wf_def sorted_wrt_map sorted_wrt_filter)

lemma budget_swept:
  assumes "btm_wf (lim_windows lim)" "now < t + LIMIT_WINDOW"
  shows "budget t a (swept now lim) \<le> budget t a lim"
  using assms by (auto simp: budget_def swept_def btm_get_filter LIMIT_WINDOW_def split: option.split)

lemma budget_counted_at:
  assumes "lim_per_minute lim \<noteq> - 1" "t \<le> now" "now < t + LIMIT_WINDOW"
  shows "(if snd (counted_at a now lim) \<le> lim_per_minute lim then 1 else 0)
    + budget t a (lim\<lparr>lim_windows := btm_insert a (counted_at a now lim) (lim_windows lim)\<rparr>) \<le> budget t a lim"
proof -
  have max: "unat (lim_per_minute lim) < 2 ^ 32 - 1"
    using assms(1) unsigned_less [of "lim_per_minute lim", where ?'a = nat] by (auto simp: word_unat_eq_iff unat_minus_1_max)
  then show ?thesis using assms(2,3)
    by (auto simp: budget_def counted_at_def LIMIT_WINDOW_def word_le_nat_alt unat_saturating_add split: option.split)
qed

lemma budget_cong:
  "btm_get (lim_windows lim') a = btm_get (lim_windows lim) a \<Longrightarrow> lim_per_minute lim' = lim_per_minute lim \<Longrightarrow>
     budget t a lim' = budget t a lim"
  by (simp add: budget_def split: option.split)

lemma swept_per_minute: "lim_per_minute (swept now lim) = lim_per_minute lim"
  by (simp add: swept_def)

lemma attempts_within_budget:
  assumes "lim_per_minute lim \<noteq> - 1" "btm_wf (lim_windows lim)" "\<forall>(b, now) \<in> set attempts. t \<le> now \<and> now < t + LIMIT_WINDOW"
  shows "attempts_allowed a attempts lim \<le> budget t a lim"
  using assms
proof (induction attempts arbitrary: lim)
  case (Cons attempt attempts)
  obtain b now where attempt: "attempt = (b, now)" by (cases attempt)
  then have now: "t \<le> now" "now < t + LIMIT_WINDOW" using Cons.prems(3) by auto
  let ?lim = "snd (limiter_allow b now lim)"
  have "attempts_allowed a attempts ?lim \<le> budget t a ?lim"
    using Cons.prems by (intro Cons.IH) (simp_all add: limiter_allow_eq swept_wf)
  moreover have "(if b = a \<and> fst (limiter_allow b now lim) then 1 else 0) + budget t a ?lim \<le> budget t a (swept now lim)"
  proof (cases "b = a")
    case True
    have "budget t a ?lim = budget t a ((swept now lim)\<lparr>lim_windows := btm_insert a (counted_at a now (swept now lim)) (lim_windows (swept now lim))\<rparr>)"
      by (rule budget_cong) (simp_all add: True limiter_allow_eq swept_per_minute)
    then show ?thesis
      using budget_counted_at [of "swept now lim" t now a] Cons.prems(1) now True by (simp add: limiter_allow_eq swept_per_minute)
  next
    case False
    then have "budget t a ?lim = budget t a (swept now lim)"
      by (intro budget_cong) (simp_all add: limiter_allow_eq swept_per_minute)
    then show ?thesis using False by simp
  qed
  ultimately show ?case using budget_swept [OF Cons.prems(2) now(2), of a] by (simp add: attempt)
qed simp

section \<open>A small server\<close>

text \<open>Concrete providers, to exercise the statements: tags and signatures are the key followed by the
  message, text is its own encoding, and a frame names the host it answers for.\<close>

definition small_crypto :: "bytes crypto" where
  "small_crypto = \<lparr>
     cr_mac = (\<lambda>secret. Some (\<lambda>body tag. tag = secret @ body)),
     cr_hex_decode = (\<lambda>s. Some (map of_nat s)),
     cr_base64_decode = (\<lambda>s. Some (map of_nat s)),
     cr_key_from_bytes = Some,
     cr_key_is_weak = (\<lambda>_. False),
     cr_signature_from_slice = Some,
     cr_verify_strict = (\<lambda>key message sig. sig = key @ message),
     cr_sha256_hex = map unat,
     cr_json_host_message = (\<lambda>s. Some (AuthMessage 1 (lit ''id'') s)),
     cr_json_job_event = (\<lambda>_. Some \<lparr>wj_action = lit ''queued'', wj_job_id = 1, wj_run_id = 1,
        wj_labels = [lit ''linux''], wj_repository = lit ''o/r''\<rparr>),
     cr_json_enroll_request = (\<lambda>body. Some \<lparr>er_protocol_version = 1, er_code = map unat body,
        er_hostname = lit ''box'', er_public_key = replicate 32 7\<rparr>)\<rparr>"

definition small_config :: server_config where
  "small_config = \<lparr>sc_public_origin = lit ''https://c'', sc_webhook_secret = [1, 2], sc_trust_forwarded_for = False,
     sc_heartbeat_interval = 15\<rparr>"

definition small_db :: coordinator_db where
  "small_db = \<lparr>cd_hosts = [], cd_invites = [\<lparr>inv_code_hash = [5, 6], inv_name = lit ''box'', inv_created_at = 0,
     inv_expires_at = 600, inv_used_at = None\<rparr>]\<rparr>"

definition small_server :: app_state where
  "small_server = app_state_new small_config 20 small_db"

definition small_enrolled :: app_state where
  "small_enrolled = snd (enroll_handler small_crypto 9 0 10 (lit ''id'') [5, 6] small_server)"

definition small_host :: host_record where
  "small_host = \<lparr>hre_id = lit ''id'', hre_name = lit ''box'', hre_hostname = lit ''box'', hre_public_key = replicate 32 7,
     hre_enrolled_at = 10, hre_revoked_at = None, hre_last_seen_at = None\<rparr>"

lemma small_enrolls:
  "enroll_handler small_crypto 9 0 10 (lit ''id'') [5, 6] small_server = (Inr small_host, small_enrolled)"
proof -
  have "fst (enroll_handler small_crypto 9 0 10 (lit ''id'') [5, 6] small_server) = Inr small_host"
    by (simp add: enroll_handler_def limiter_allow_def small_server_def app_state_new_def limiter_new_def small_crypto_def
        small_config_def small_db_def small_host_def PROTOCOL_VERSION_def decode_public_key_def enroll_def code_hash_def
        as_bytes_def utf8_bytes_def name_taken_def sanitize_hostname_def host_name_char_def btm_get_def
        RATE_LIMIT_SWEEP_AT_def LIMIT_WINDOW_def saturating_add_def str_defs Let_def)
  then show ?thesis by (simp add: small_enrolled_def prod_eq_iff)
qed

lemma small_enrolled_store:
  "as_store small_enrolled = \<lparr>cd_hosts = [small_host], cd_invites = [\<lparr>inv_code_hash = [5, 6], inv_name = lit ''box'',
     inv_created_at = 0, inv_expires_at = 600, inv_used_at = Some 10\<rparr>]\<rparr>"
  by (simp add: small_enrolled_def enroll_handler_def limiter_allow_def small_server_def app_state_new_def limiter_new_def
      small_crypto_def small_config_def small_db_def small_host_def PROTOCOL_VERSION_def decode_public_key_def enroll_def
      code_hash_def as_bytes_def utf8_bytes_def name_taken_def sanitize_hostname_def host_name_char_def btm_get_def
      RATE_LIMIT_SWEEP_AT_def LIMIT_WINDOW_def saturating_add_def str_defs Let_def)

lemma small_db_wf: "coordinator_wf small_db"
  by (simp add: coordinator_wf_def small_db_def)

definition small_connection :: connected where
  "small_connection = \<lparr>co_connection = 0, co_hello = Some \<lparr>he_protocol_version = 1, he_host_id = lit ''id'', he_os = lit ''linux'',
     he_arch = lit ''x64'', he_cores = 4, he_ram_bytes = None, he_disk_free_bytes = None,
     he_targets = [\<lparr>at_scope = OrgScope, at_name = lit ''O'',
       at_profiles = [\<lparr>cp_name = lit ''default'', cp_labels = [lit ''linux''], cp_enabled = True\<rparr>]\<rparr>]\<rparr>, co_heartbeat = None\<rparr>"

definition small_connected :: app_state where
  "small_connected = small_enrolled\<lparr>as_registry := \<lparr>rg_hosts = [(lit ''id'', small_connection)], rg_next = 1, rg_queues = [(0, [])]\<rparr>\<rparr>"

definition small_request :: webhook_request where
  "small_request = \<lparr>wr_signature = Some (lit ''sha256='' @ [1, 2, 65]), wr_event = Some (lit ''workflow_job''),
     wr_delivery = Some (lit ''d-1''), wr_body = [65]\<rparr>"

definition small_job :: workflow_job_event where
  "small_job = \<lparr>wj_action = lit ''queued'', wj_job_id = 1, wj_run_id = 1, wj_labels = [lit ''linux''], wj_repository = lit ''o/r''\<rparr>"

lemma small_enrolled_rest: "as_config small_enrolled = small_config" "as_deliveries small_enrolled = delivery_log_new DELIVERY_MEMORY"
  by (simp_all add: small_enrolled_def enroll_handler_frame small_server_def app_state_new_def)

lemma small_connected_wf: "server_wf small_connected"
  by (simp add: server_wf_def small_connected_def small_enrolled_store small_enrolled_rest registry_ok_def registry_wf_def
      small_connection_def small_host_def coordinator_wf_def hre_is_active_def btm_get_def btm_wf_def delivery_log_new_wf)
    (simp add: delivery_log_new_def DELIVERY_MEMORY_def)

lemma small_signed: "signature_valid small_crypto (sc_webhook_secret small_config) (wr_body small_request) (wr_signature small_request)"
  by (simp add: signature_valid_def small_crypto_def small_config_def small_request_def str_defs)

lemma small_announced: "announced small_crypto small_request small_connected = Some (small_job, lit ''d-1'')"
proof -
  have "valid_delivery_id (lit ''d-1'')" by (simp add: valid_delivery_id_def str_defs)
  moreover have "cr_json_job_event small_crypto (wr_body small_request) = Some small_job" by (simp add: small_crypto_def small_job_def)
  ultimately show ?thesis
    using small_signed by (simp add: announced_def small_connected_def small_enrolled_rest delivery_log_new_def small_job_def)
      (simp add: small_request_def small_enrolled_rest delivery_log_new_def)
qed

lemma small_labels:
  "label_new (lit ''linux'') = Inr (Label (lit ''linux''))" "label_new (lit ''home'') = Inr (Label (lit ''home''))"
  "required_labels (from_job_labels [lit ''linux'']) = Inr [Label (lit ''linux'')]"
  by (simp_all add: required_labels_def from_job_labels_def is_expression_def label_new_def LABEL_MAX_LEN_def is_control_def str_defs ch_def)

lemma small_serves: "host_serves small_connection small_job"
proof -
  have "labels_cover [lit ''linux''] [lit ''linux'']"
    by (simp only: labels_cover_def small_labels(3)) (simp only: map_filter_simps small_labels(1), simp)
  moreover have "covers \<lparr>tr_scope = OrgScope, tr_name = lit ''O''\<rparr> (lit ''o/r'')" by (simp add: covers_def str_defs ch_def)
  ultimately show ?thesis by (simp add: host_serves_def small_connection_def small_job_def reference_def)
qed

section \<open>What the coordinator promises\<close>

text \<open>C32. Over any sequence of webhook requests, enrollments, connections, turns and ends of connections
  and operator commands, fewer than the connection tokens there are, starting from a new server over
  a sound database: every connected host is an enrolled one, has one connection whose token is its
  own, and at most sixty-four messages wait for it; host identifiers, active names and invite codes
  are unique; the delivery log holds each of its identifiers once, and never more than ten thousand.\<close>

theorem server_invariant:
  assumes "coordinator_wf db" "length evs < 2 ^ 64"
  shows "server_wf (server_run cr evs (app_state_new config per_minute db))"
  by (rule server_run_wf [OF app_state_new_wf [OF assms(1)]])
    (use assms(2) in \<open>simp add: app_state_new_def registry_default_def\<close>)

theorem server_invariant_witness:
  "server_wf (server_run small_crypto [GotEnroll 9 0 10 (lit ''id'') [5, 6], OperatorOp (RevokeHost (lit ''box'') 20)]
     (app_state_new small_config 20 small_db))"
  using server_invariant [OF small_db_wf, of "[GotEnroll 9 0 10 (lit ''id'') [5, 6], OperatorOp (RevokeHost (lit ''box'') 20)]"
      small_crypto small_config 20] by simp

text \<open>C34. An invite enrolls one host: the host it enrolled is active at once, and whatever happens to the server
  afterwards, no request carrying the same code enrolls another one or changes the database.\<close>

theorem invite_enrolls_once:
  assumes "enroll_handler cr address clock now uuid body st = (Inr h, st1)"
    and "cr_json_enroll_request cr body = Some rq" "cr_json_enroll_request cr body' = Some rq'"
    and "trim (er_code rq') = trim (er_code rq)"
  shows "active_host (as_store st1) (hre_id h) = Some h
    \<and> \<not> is_ok (fst (enroll_handler cr address' clock' now' uuid' body' (server_run cr evs st1)))
    \<and> as_store (snd (enroll_handler cr address' clock' now' uuid' body' (server_run cr evs st1))) = as_store (server_run cr evs st1)"
proof -
  let ?e = "enroll cr uuid (er_code rq) (er_hostname rq) (er_public_key rq) now (as_store st)"
  have e: "fst ?e = Inr h \<and> as_store st1 = snd ?e"
    by (rule enroll_handler_store [of cr address clock now uuid body st]) (use assms(1,2) in \<open>auto simp: is_ok_def\<close>)
  obtain ops where "as_store (server_run cr evs st1) = coordinator_run cr ops (as_store st1)" using server_run_store by metis
  then have "spent (code_hash cr (trim (er_code rq'))) (as_store (server_run cr evs st1))"
    using e assms(4) by (simp add: run_keeps(1) [OF enrolled_spends])
  note refused = spent_enroll [OF this]
  have "\<not> is_ok (fst (enroll_handler cr address' clock' now' uuid' body' (server_run cr evs st1)))
    \<and> as_store (snd (enroll_handler cr address' clock' now' uuid' body' (server_run cr evs st1))) = as_store (server_run cr evs st1)"
    by (rule enroll_handler_store [of cr address' clock' now' uuid' body' "server_run cr evs st1"])
      (use assms(3) in \<open>auto simp: refused is_ok_iff\<close>)
  then show ?thesis using enrolled_active e by metis
qed

theorem invite_enrolls_once_witness:
  "\<not> is_ok (fst (enroll_handler small_crypto 9 1 11 (lit ''other'') [5, 6] small_enrolled))"
  using invite_enrolls_once [OF small_enrolls, of _ "[5, 6]" _ 9 1 11 "lit ''other''" "[]"] by (simp add: small_crypto_def)





text \<open>C36. A repeated delivery wakes nobody: once a delivery was recorded, any request that carries its identifier changes
  nothing at all, as long as fewer than ten thousand webhook requests came in between, whatever else did.\<close>

theorem redelivery_changes_nothing:
  assumes wf: "server_wf st"
    and new: "as_deliveries (snd (webhook cr rq st)) \<noteq> as_deliveries st" "wr_delivery rq = Some delivery"
    and "length (filter is_webhook evs) < DELIVERY_MEMORY" "wr_delivery rq' = Some delivery"
  shows "snd (webhook cr rq' (server_run cr evs (snd (webhook cr rq st)))) = server_run cr evs (snd (webhook cr rq st))"
proof -
  let ?log = "as_deliveries st" and ?st' = "server_run cr evs (snd (webhook cr rq st))"
  have log: "delivery_log_wf ?log" "dl_capacity ?log = DELIVERY_MEMORY" using wf by (simp_all add: server_wf_def)
  have first: "as_deliveries (snd (webhook cr rq st)) = snd (first_time delivery ?log)"
    by (rule webhook_deliveries [of cr rq st]) (use new in auto)
  then have "fst (first_time delivery ?log)" using new(1) by (auto simp: first_time_def Let_def)
  moreover obtain ids where "length ids \<le> length (filter is_webhook evs)"
    and later: "as_deliveries ?st' = deliveries ids (snd (first_time delivery ?log))"
    using server_run_deliveries [of evs cr "snd (webhook cr rq st)"] first by auto
  ultimately have "\<not> fst (first_time delivery (as_deliveries ?st'))"
    using redelivery_recognised [OF log(1), of delivery ids] log(2) assms(4) by simp
  moreover have "delivery_log_wf (as_deliveries ?st')" unfolding later by (intro deliveries_wf first_time_order(1) log(1))
  ultimately show ?thesis using webhook_repeated assms(5) by blast
qed

theorem redelivery_changes_nothing_witness:
  "snd (webhook small_crypto small_request (snd (webhook small_crypto small_request small_connected)))
     = snd (webhook small_crypto small_request small_connected)"
proof -
  have "fst (first_time (lit ''d-1'') (as_deliveries small_connected))
    \<and> dl_order (snd (first_time (lit ''d-1'') (as_deliveries small_connected))) = [lit ''d-1'']"
    by (simp add: small_connected_def small_enrolled_rest delivery_log_new_def first_time_def)
  moreover have "as_deliveries (snd (webhook small_crypto small_request small_connected))
      = snd (first_time (lit ''d-1'') (as_deliveries small_connected))"
    using small_signed by (auto simp: webhook_def small_connected_def small_enrolled_rest small_request_def small_crypto_def
        valid_delivery_id_def str_defs Let_def split: prod.split option.split)
  ultimately have "as_deliveries (snd (webhook small_crypto small_request small_connected)) \<noteq> as_deliveries small_connected"
    by (auto simp: small_connected_def small_enrolled_rest delivery_log_new_def)
  from redelivery_changes_nothing [OF small_connected_wf this, of "lit ''d-1''" "[]" small_request] show ?thesis
    by (simp add: small_request_def DELIVERY_MEMORY_def)
qed

text \<open>However many attempts an address makes, and whatever other addresses do, the rate limiter lets through at most
  twice the configured number of them in any sixty seconds, and at most the configured number where the address
  made none before; attempts are those of enrollment and of connecting together.\<close>

theorem attempts_are_limited:
  assumes "lim_per_minute lim \<noteq> - 1" "btm_wf (lim_windows lim)" "\<forall>(b, now) \<in> set attempts. t \<le> now \<and> now < t + LIMIT_WINDOW"
  shows "attempts_allowed a attempts lim \<le> 2 * unat (lim_per_minute lim)
    \<and> (btm_get (lim_windows lim) a = None \<longrightarrow> attempts_allowed a attempts lim \<le> unat (lim_per_minute lim))"
proof -
  have "budget t a lim \<le> 2 * unat (lim_per_minute lim)" by (auto simp: budget_def split: option.split)
  moreover have "btm_get (lim_windows lim) a = None \<Longrightarrow> budget t a lim = unat (lim_per_minute lim)" by (simp add: budget_def)
  ultimately show ?thesis using attempts_within_budget [OF assms, of a] by auto
qed

theorem attempts_are_limited_witness:
  "attempts_allowed 1 [(1, 5), (2, 5), (1, 6), (1, 7)] (limiter_new 2) \<le> 2"
  using attempts_are_limited [of "limiter_new 2" "[(1, 5), (2, 5), (1, 6), (1, 7)]" 5 1]
  by (simp add: limiter_new_def LIMIT_WINDOW_def btm_get_def)

text \<open>C37. The coordinator wakes a host for a job by the rule the host itself uses to count demand: for the labels a profile
  registers with, \<open>labels_cover\<close> says yes exactly when \<open>RoutingLabels::matches\<close> does, that is when the
  job's labels resolve and are all among the registered ones.\<close>

theorem coordinator_follows_host_labels:
  assumes "routing_labels_wf r"
  shows "(labels_cover (as_registration_labels r) job \<longleftrightarrow> is_match (matches r (from_job_labels job)))
    \<and> (labels_cover (as_registration_labels r) job \<longleftrightarrow> (\<exists>required. required_labels (from_job_labels job) = Inr required
         \<and> set (map label_str required) \<subseteq> set (as_registration_labels r)))"
  using labels_cover_iff [OF assms] matches_iff_superset by simp

theorem coordinator_follows_host_labels_witness:
  "labels_cover (as_registration_labels (from_parts (Label (lit ''home'')) [Label (lit ''linux'')])) [lit ''Linux'']
     \<longleftrightarrow> is_match (matches (from_parts (Label (lit ''home'')) [Label (lit ''linux'')]) (from_job_labels [lit ''Linux'']))"
proof -
  have "label_wf (Label (lit ''home''))" "label_wf (Label (lit ''linux''))"
    using small_labels(1,2) unfolding label_new_iff by blast+
  then have "routing_labels_wf (from_parts (Label (lit ''home'')) [Label (lit ''linux'')])" by (intro from_parts_wf) auto
  from coordinator_follows_host_labels [OF this] show ?thesis by blast
qed

end
